(* ===== verification/Geth_Prelude.thy ===== *)
theory Geth_Prelude
  imports Main "HOL-Library.Word"
begin

unbundle bit_operations_syntax

text \<open>
  Shared vocabulary of the development: the machine types of the Go sources, the outcome
  type of code that may panic, the checked 64-bit arithmetic of \<^verbatim>\<open>common/math/integer.go\<close>,
  the byte-slice helpers of \<^verbatim>\<open>common/bytes.go\<close>, and the generic facts on words and
  lists that the component theories use.

  A nil slice and an empty slice are both the empty list: nothing in the modelled code
  tells them apart in a value it computes. \<^verbatim>\<open>*big.Int\<close> is \<^typ>\<open>int\<close>; \<^verbatim>\<open>int\<close> indices and
  lengths are \<^typ>\<open>nat\<close> (or \<^typ>\<open>int\<close> where they may be negative).
\<close>

section \<open>Machine types\<close>

type_synonym byte = "8 word"
type_synonym bytes = "8 word list"
type_synonym u64 = "64 word"
type_synonym u256 = "256 word"
type_synonym Address = "160 word"
type_synonym Hash = "256 word"

text \<open>
  The result of code that may panic and whose loop runs on fuel: \<open>Ret\<close> is a normal
  return, \<open>Panic\<close> a Go panic with its cause, \<open>NoFuel\<close> that the fuel given to the model ran
  out. Components whose only abnormal exit is a panic use \<open>option\<close> with \<open>None\<close> for it.
\<close>

datatype panic =
    StackPanic \<comment> \<open>index below the bottom of the operand stack\<close>
  | MemoryPanic \<comment> \<open>memory access outside the allocated range\<close>
  | SlicePanic \<comment> \<open>slice bounds or index out of range\<close>
  | BitmapPanic \<comment> \<open>index outside the bitmap of a program\<close>
  | RefundPanic \<comment> \<open>refund counter below zero\<close>
  | AccessListPanic \<comment> \<open>storage of an address that is not in the access list\<close>
  | SnapshotPanic \<comment> \<open>revert to an unknown snapshot\<close>
  | NilPanic \<comment> \<open>nil pointer or failed type assertion\<close>
  | GasPoolPanic \<comment> \<open>gas pool pushed above uint64\<close>

datatype 'a outcome = Ret 'a | Panic panic | NoFuel

fun bind_outcome :: "'a outcome \<Rightarrow> ('a \<Rightarrow> 'b outcome) \<Rightarrow> 'b outcome" where
  "bind_outcome (Ret x) f = f x"
| "bind_outcome (Panic p) f = Panic p"
| "bind_outcome NoFuel f = NoFuel"

definition or_panic :: "panic \<Rightarrow> 'a option \<Rightarrow> 'a outcome" where
  "or_panic p x = (case x of None \<Rightarrow> Panic p | Some y \<Rightarrow> Ret y)"

lemma bind_outcome_Ret_iff [simp]:
  "bind_outcome x f = Ret y \<longleftrightarrow> (\<exists>z. x = Ret z \<and> f z = Ret y)"
  by (cases x) auto

lemma bind_outcome_NoFuel_iff [simp]:
  "bind_outcome x f = NoFuel \<longleftrightarrow> x = NoFuel \<or> (\<exists>z. x = Ret z \<and> f z = NoFuel)"
  by (cases x) auto

lemma bind_outcome_Panic_iff [simp]:
  "bind_outcome x f = Panic p \<longleftrightarrow> x = Panic p \<or> (\<exists>z. x = Ret z \<and> f z = Panic p)"
  by (cases x) auto

lemma or_panic_simps [simp]:
  "or_panic p None = Panic p" "or_panic p (Some x) = Ret x"
  by (simp_all add: or_panic_def)

lemma or_panic_Ret_iff [simp]: "or_panic p x = Ret y \<longleftrightarrow> x = Some y"
  by (cases x) auto

lemma or_panic_NoFuel [simp]: "or_panic p x \<noteq> NoFuel"
  by (cases x) auto

lemma or_panic_Panic_iff [simp]: "or_panic p x = Panic q \<longleftrightarrow> x = None \<and> q = p"
  by (cases x) auto

section \<open>Checked 64-bit arithmetic (common/math/integer.go)\<close>

definition MaxUint64 :: u64 where
  "MaxUint64 = - 1"

definition SafeSub :: "u64 \<Rightarrow> u64 \<Rightarrow> u64 \<times> bool" where
  "SafeSub x y = (x - y, x < y)"

definition SafeAdd :: "u64 \<Rightarrow> u64 \<Rightarrow> u64 \<times> bool" where
  "SafeAdd x y = (x + y, 2 ^ 64 \<le> unat x + unat y)"

definition SafeMul :: "u64 \<Rightarrow> u64 \<Rightarrow> u64 \<times> bool" where
  "SafeMul x y = (x * y, 2 ^ 64 \<le> unat x * unat y)"

lemma unat_lt_u64: "unat (x :: u64) < 18446744073709551616"
  using unsigned_less [of x, where ?'a = nat] by simp

lemma unat_byte_less: "unat (b :: byte) < 256"
  using unsigned_less [of b, where ?'a = nat] by simp

lemma unat_add_u64: "unat (x + y :: u64) = (unat x + unat y) mod 2 ^ 64"
  by (simp add: unat_word_ariths)

lemma unat_mult_u64: "unat (x * y :: u64) = (unat x * unat y) mod 2 ^ 64"
  by (simp add: unat_word_ariths)

lemma unat_sub_u64: "y \<le> x \<Longrightarrow> unat (x - y :: u64) = unat x - unat y"
  by (rule unat_sub) (simp add: word_le_nat_alt)

lemma u64_pred_less: "t \<noteq> 0 \<Longrightarrow> t - 1 < (t :: u64)"
proof -
  assume "t \<noteq> 0"
  then have "0 < unat t" by (simp add: unat_gt_0)
  then have "1 \<le> t" by (simp add: word_le_nat_alt)
  with \<open>0 < unat t\<close> show ?thesis by (simp add: word_less_nat_alt unat_sub_u64)
qed

lemma uint_of_int_u64: "0 \<le> r \<Longrightarrow> r < 2 ^ 64 \<Longrightarrow> uint (of_int r :: u64) = r"
  by (simp add: unsigned_of_int take_bit_int_eq_self)

lemma uint_lt_u64: "uint (x :: u64) < 2 ^ 64"
  using unsigned_less [of x, where ?'a = int] by simp

lemma SafeAdd_no_overflow:
  "SafeAdd x y = (z, False) \<Longrightarrow> unat z = unat x + unat y"
  by (auto simp: SafeAdd_def unat_add_u64)

lemma SafeMul_no_overflow:
  "SafeMul x y = (z, False) \<Longrightarrow> unat z = unat x * unat y"
  by (auto simp: SafeMul_def unat_mult_u64)

lemma SafeSub_no_overflow:
  "SafeSub x y = (z, False) \<Longrightarrow> unat z = unat x - unat y \<and> unat y \<le> unat x"
  by (auto simp: SafeSub_def not_less word_le_nat_alt unat_sub_u64)

text \<open>Shifts and conversions read through \<open>unat\<close>.\<close>

lemma unat_drop_bit_div: "unat (drop_bit k (x :: 'a :: len word)) = unat x div 2 ^ k"
  by (metis unat_drop_bit_eq drop_bit_eq_div)

lemma unat_ucast_byte: "unat (ucast (x :: u64) :: byte) = unat x mod 256"
  by (simp add: unsigned_ucast_eq take_bit_eq_mod)

lemma unat_ucast_u64_byte: "unat (ucast (x :: byte) :: u64) = unat x"
  by (simp add: unsigned_ucast_eq take_bit_eq_mod less_trans [OF unat_byte_less])

lemma unat_of_nat_u64: "n < 2 ^ 64 \<Longrightarrow> unat (of_nat n :: u64) = n"
  by (simp add: unat_of_nat)

lemma word_eq_unat: "(x :: 'a :: len word) = y \<longleftrightarrow> unat x = unat y"
  by (rule word_unat_eq_iff)

section \<open>Byte slices (common/bytes.go)\<close>

definition RightPadBytes :: "bytes \<Rightarrow> nat \<Rightarrow> bytes" where
  "RightPadBytes s l =
     (if l \<le> length s then s else s @ replicate (l - length s) 0)"

definition LeftPadBytes :: "bytes \<Rightarrow> nat \<Rightarrow> bytes" where
  "LeftPadBytes s l =
     (if l \<le> length s then s else replicate (l - length s) 0 @ s)"

fun TrimLeftZeroes :: "bytes \<Rightarrow> bytes" where
  "TrimLeftZeroes [] = []"
| "TrimLeftZeroes (b # bs) = (if b \<noteq> 0 then b # bs else TrimLeftZeroes bs)"

definition TrimRightZeroes :: "bytes \<Rightarrow> bytes" where
  "TrimRightZeroes s = rev (TrimLeftZeroes (rev s))"

lemma length_RightPadBytes: "length (RightPadBytes s l) = max (length s) l"
  by (simp add: RightPadBytes_def)

lemma length_LeftPadBytes: "length (LeftPadBytes s l) = max (length s) l"
  by (simp add: LeftPadBytes_def)

text \<open>Big-endian reading of a byte slice, and the fixed-width big-endian writing.\<close>

definition be_nat :: "bytes \<Rightarrow> nat" where
  "be_nat bs = foldl (\<lambda>a b. a * 256 + unat b) 0 bs"

fun be_bytes :: "nat \<Rightarrow> nat \<Rightarrow> bytes" where
  "be_bytes 0 n = []"
| "be_bytes (Suc w) n = be_bytes w (n div 256) @ [of_nat (n mod 256)]"

lemma be_nat_Nil [simp]: "be_nat [] = 0"
  by (simp add: be_nat_def)

lemma be_nat_snoc [simp]: "be_nat (bs @ [b]) = be_nat bs * 256 + unat b"
  by (simp add: be_nat_def)

lemma be_nat_append: "be_nat (xs @ ys) = be_nat xs * 256 ^ length ys + be_nat ys"
proof (induction ys rule: rev_induct)
  case Nil
  then show ?case by simp
next
  case (snoc y ys)
  have "be_nat (xs @ ys @ [y]) = be_nat (xs @ ys) * 256 + unat y"
    by (metis append_assoc be_nat_snoc)
  with snoc show ?case by (simp add: algebra_simps)
qed

lemma be_nat_Cons: "be_nat (b # bs) = unat b * 256 ^ length bs + be_nat bs"
  using be_nat_append [of "[b]" bs] be_nat_snoc [of "[]" b] by simp

lemma be_nat_less: "be_nat bs < 256 ^ length bs"
proof (induction bs rule: rev_induct)
  case Nil
  then show ?case by simp
next
  case (snoc b bs)
  have "be_nat bs * 256 + unat b < (be_nat bs + 1) * 256"
    using unat_byte_less [of b] by simp
  also have "\<dots> \<le> 256 ^ length bs * 256"
    using snoc by (intro mult_right_mono) auto
  finally show ?case by simp
qed

lemma length_be_bytes [simp]: "length (be_bytes w n) = w"
  by (induction w arbitrary: n) auto

lemma be_bytes_map: "be_bytes w n = map (\<lambda>k. of_nat (n div 256 ^ k mod 256)) (rev [0..<w])"
proof (induction w arbitrary: n)
  case 0
  then show ?case by simp
next
  case (Suc w)
  have "rev [0..<Suc w] = map Suc (rev [0..<w]) @ [0]"
    by (simp add: upt_conv_Cons map_Suc_upt [symmetric] rev_map del: upt_Suc)
  then show ?case
    by (simp add: Suc div_mult2_eq o_def del: upt_Suc)
qed

lemma unat_of_nat_byte: "unat (of_nat n :: byte) = n mod 256"
  by (simp add: unat_of_nat)

lemma be_nat_be_bytes: "be_nat (be_bytes w n) = n mod 256 ^ w"
proof (induction w arbitrary: n)
  case 0
  then show ?case by simp
next
  case (Suc w)
  have "be_nat (be_bytes (Suc w) n) = (n div 256) mod 256 ^ w * 256 + n mod 256"
    by (simp add: Suc unat_of_nat_byte)
  also have "\<dots> = n mod (256 * 256 ^ w)"
    by (simp add: mod_mult2_eq algebra_simps)
  finally show ?case by simp
qed

lemma be_bytes_be_nat: "length bs = w \<Longrightarrow> be_bytes w (be_nat bs) = bs"
proof (induction w arbitrary: bs)
  case 0
  then show ?case by simp
next
  case (Suc w)
  then obtain cs b where bs: "bs = cs @ [b]" and len: "length cs = w"
    by (metis append_butlast_last_id length_0_conv length_append_singleton nat.inject
        Zero_not_Suc)
  have "(be_nat cs * 256 + unat b) div 256 = be_nat cs"
    using unat_byte_less [of b] by simp
  moreover have "(be_nat cs * 256 + unat b) mod 256 = unat b"
    using unat_byte_less [of b] by simp
  ultimately show ?case
    using Suc.IH [OF len] by (simp add: bs)
qed

section \<open>Shared list facts\<close>

lemma take_length_append [simp]: "take (length xs) (xs @ ys) = xs"
  by simp

lemma nth_or_default:
  "n < length xs \<Longrightarrow> (case drop n xs of [] \<Rightarrow> d | y # ys \<Rightarrow> y) = xs ! n"
  by (simp add: Cons_nth_drop_Suc [symmetric])


section \<open>Fixed-size byte arrays as words\<close>

text \<open>
  \<^verbatim>\<open>common.Address\<close> and \<^verbatim>\<open>common.Hash\<close> are big-endian arrays of 20 and 32 bytes. \<open>SetBytes\<close>
  keeps the last bytes of a longer slice and pads a shorter one on the left, which is the
  reduction modulo the word size.
\<close>

definition hash_bytes :: "Hash \<Rightarrow> bytes" where
  "hash_bytes h = be_bytes 32 (unat h)"

definition address_bytes :: "Address \<Rightarrow> bytes" where
  "address_bytes a = be_bytes 20 (unat a)"

definition BytesToHash :: "bytes \<Rightarrow> Hash" where
  "BytesToHash b = of_nat (be_nat b)"

text \<open>The root hash of an empty trie (\<^verbatim>\<open>core/types/hashes.go\<close>).\<close>

definition EmptyRootHash :: Hash where
  "EmptyRootHash = 0x56e81f171bcc55a6ff8345e692c0f86e5b48e01b996cadc001622fb5e363b421"

definition BytesToAddress :: "bytes \<Rightarrow> Address" where
  "BytesToAddress b = of_nat (be_nat b)"

lemma length_hash_bytes [simp]: "length (hash_bytes h) = 32"
  by (simp add: hash_bytes_def)

lemma length_address_bytes [simp]: "length (address_bytes a) = 20"
  by (simp add: address_bytes_def)

lemma BytesToHash_hash_bytes [simp]: "BytesToHash (hash_bytes h) = h"
proof -
  have "unat h < 2 ^ 256" using unsigned_less [of h, where ?'a = nat] by simp
  then have "unat h < 256 ^ 32" by simp
  then show ?thesis by (simp add: BytesToHash_def hash_bytes_def be_nat_be_bytes)
qed

section \<open>Binary search (sort.Search)\<close>

text \<open>The loop of Go's \<^verbatim>\<open>sort.Search\<close>: the interval [i, j) halves until it is empty.\<close>

function search_loop :: "(nat \<Rightarrow> bool) \<Rightarrow> nat \<Rightarrow> nat \<Rightarrow> nat" where
  "search_loop f i j =
     (if i < j then
        (let h = (i + j) div 2
         in if \<not> f h then search_loop f (h + 1) j else search_loop f i h)
      else i)"
  by pat_completeness auto
termination by (relation "measure (\<lambda>(f, i, j). j - i)") auto

declare search_loop.simps [simp del]

definition sort_Search :: "nat \<Rightarrow> (nat \<Rightarrow> bool) \<Rightarrow> nat" where
  "sort_Search n f = search_loop f 0 n"

lemma search_loop_least:
  assumes "i \<le> j" and "\<And>k. k < i \<Longrightarrow> \<not> f k" and "j < n \<Longrightarrow> f j" and "j \<le> n"
    and mono: "\<And>k l. k \<le> l \<Longrightarrow> l < n \<Longrightarrow> f k \<Longrightarrow> f l"
  shows "search_loop f i j \<le> n \<and> (\<forall>k < search_loop f i j. \<not> f k) \<and>
    (search_loop f i j < n \<longrightarrow> f (search_loop f i j))"
  using assms
proof (induction f i j rule: search_loop.induct)
  case (1 f i j)
  show ?case
  proof (cases "i < j")
    case True
    let ?h = "(i + j) div 2"
    show ?thesis
    proof (cases "f ?h")
      case True
      with \<open>i < j\<close> "1.prems" have "search_loop f i ?h \<le> n \<and> (\<forall>k < search_loop f i ?h. \<not> f k) \<and>
          (search_loop f i ?h < n \<longrightarrow> f (search_loop f i ?h))"
        by (intro "1.IH"(2)) auto
      with True \<open>i < j\<close> show ?thesis by (subst (1 2 3 4) search_loop.simps) (simp add: Let_def)
    next
      case False
      have "?h < n" using \<open>i < j\<close> "1.prems"(4) by simp
      then have "\<not> f k" if "k < ?h + 1" for k
        using "1.prems"(5) [of k ?h] False that by auto
      with False \<open>i < j\<close> "1.prems" have "search_loop f (?h + 1) j \<le> n \<and>
          (\<forall>k < search_loop f (?h + 1) j. \<not> f k) \<and>
          (search_loop f (?h + 1) j < n \<longrightarrow> f (search_loop f (?h + 1) j))"
        by (intro "1.IH"(1)) auto
      with False \<open>i < j\<close> show ?thesis by (subst (1 2 3 4) search_loop.simps) (simp add: Let_def)
    qed
  next
    case False
    with "1.prems" show ?thesis by (simp add: search_loop.simps)
  qed
qed

lemma sort_Search_least:
  assumes "\<And>k l. k \<le> l \<Longrightarrow> l < n \<Longrightarrow> f k \<Longrightarrow> f l"
  shows "sort_Search n f \<le> n" "k < sort_Search n f \<Longrightarrow> \<not> f k"
    "sort_Search n f < n \<Longrightarrow> f (sort_Search n f)"
  using search_loop_least [of 0 n f n] assms by (auto simp: sort_Search_def)

lemma sort_Search_eq:
  assumes "\<And>k l. k \<le> l \<Longrightarrow> l < n \<Longrightarrow> f k \<Longrightarrow> f l"
    and "i < n" "f i" "\<And>k. k < i \<Longrightarrow> \<not> f k"
  shows "sort_Search n f = i"
proof -
  have "\<not> sort_Search n f < i"
    using sort_Search_least(3) [of n f] assms by (meson order.strict_trans)
  moreover have "\<not> i < sort_Search n f"
    using sort_Search_least(2) [of n f i] assms(1,3) by blast
  ultimately show ?thesis by simp
qed

end
