(* ===== verification/RLP_Raw.thy ===== *)
theory RLP_Raw
  imports Geth_Prelude
begin

text \<open>
  The serialisation layer (\<^verbatim>\<open>rlp/\<close>): integer and header encoding (\<^verbatim>\<open>encode.go\<close>), the
  out-of-band list-header buffer of the encoder (\<^verbatim>\<open>encbuffer.go\<close>) and the splitting
  decoder (\<^verbatim>\<open>raw.go\<close>). The main facts: the buffer produces the direct recursive encoding,
  \<open>Split\<close> inverts it, and \<open>Split\<close> accepts nothing but canonical encodings.
\<close>

section \<open>Integers and headers (encode.go)\<close>

text \<open>\<open>byte_at i k\<close> is Go's \<^verbatim>\<open>byte(i >> (8*k))\<close>.\<close>

definition byte_at :: "u64 \<Rightarrow> nat \<Rightarrow> byte" where
  "byte_at i k = ucast (drop_bit (8 * k) i)"

definition putint :: "u64 \<Rightarrow> bytes" where
  "putint i =
     (if i < 2 ^ 8 then [byte_at i 0]
      else if i < 2 ^ 16 then [byte_at i 1, byte_at i 0]
      else if i < 2 ^ 24 then [byte_at i 2, byte_at i 1, byte_at i 0]
      else if i < 2 ^ 32 then [byte_at i 3, byte_at i 2, byte_at i 1, byte_at i 0]
      else if i < 2 ^ 40 then
        [byte_at i 4, byte_at i 3, byte_at i 2, byte_at i 1, byte_at i 0]
      else if i < 2 ^ 48 then
        [byte_at i 5, byte_at i 4, byte_at i 3, byte_at i 2, byte_at i 1, byte_at i 0]
      else if i < 2 ^ 56 then
        [byte_at i 6, byte_at i 5, byte_at i 4, byte_at i 3, byte_at i 2, byte_at i 1,
         byte_at i 0]
      else
        [byte_at i 7, byte_at i 6, byte_at i 5, byte_at i 4, byte_at i 3, byte_at i 2,
         byte_at i 1, byte_at i 0])"

lemma drop_bit_u64_less: "drop_bit 8 i \<noteq> 0 \<Longrightarrow> unat (drop_bit 8 i :: u64) < unat i"
  by (simp only: word_eq_unat unat_drop_bit_div) (auto intro!: div_less_dividend gr0I)

function intsize :: "u64 \<Rightarrow> nat" where
  "intsize i = (if drop_bit 8 i = 0 then 1 else Suc (intsize (drop_bit 8 i)))"
  by pat_completeness auto
termination
  by (relation "measure unat") (auto intro: drop_bit_u64_less)

declare intsize.simps [simp del]

definition headsize :: "u64 \<Rightarrow> nat" where
  "headsize sz = (if sz < 56 then 1 else 1 + intsize sz)"

definition puthead :: "byte \<Rightarrow> byte \<Rightarrow> u64 \<Rightarrow> bytes" where
  "puthead smalltag largetag sz =
     (if sz < 56 then [smalltag + ucast sz]
      else (let b = putint sz in (largetag + of_nat (length b)) # b))"

section \<open>Sizes (raw.go)\<close>

definition BytesSize :: "bytes \<Rightarrow> u64" where
  "BytesSize b =
     (case b of [] \<Rightarrow> 1 | [x] \<Rightarrow> (if x \<le> 0x7f then 1 else 2)
      | _ \<Rightarrow> of_nat (headsize (of_nat (length b)) + length b))"

definition ListSize :: "u64 \<Rightarrow> u64" where
  "ListSize contentSize = of_nat (headsize contentSize) + contentSize"



section \<open>The splitting decoder (raw.go)\<close>

datatype rlp_error =
    ErrUnexpectedEOF | ErrCanonSize | ErrValueTooLarge | ErrExpectedString
  | ErrExpectedList | ErrCanonInt | ErrUintOverflow

datatype Kind = Byte | String | List

definition readSize :: "bytes \<Rightarrow> byte \<Rightarrow> rlp_error + u64" where
  "readSize b slen =
     (if length b < unat slen then Inl ErrUnexpectedEOF
      else
        let s = (if unat slen \<le> 8
                 then foldl (\<lambda>a x. push_bit 8 a OR ucast x) 0 (take (unat slen) b) else 0)
        in if s < 56 \<or> b ! 0 = 0 then Inl ErrCanonSize else Inr s)"

definition readKind :: "bytes \<Rightarrow> rlp_error + (Kind \<times> u64 \<times> u64)" where
  "readKind buf =
     (case buf of
        [] \<Rightarrow> Inl ErrUnexpectedEOF
      | b # rest \<Rightarrow>
          let res =
            (if b < 0x80 then Inr (Byte, 0, 1)
             else if b < 0xB8 then
               (let contentsize = ucast (b - 0x80) in
                if contentsize = 1 \<and> rest \<noteq> [] \<and> rest ! 0 < 128 then Inl ErrCanonSize
                else Inr (String, 1, contentsize))
             else if b < 0xC0 then
               (case readSize rest (b - 0xB7) of
                  Inl e \<Rightarrow> Inl e
                | Inr cs \<Rightarrow> Inr (String, ucast (b - 0xB7) + 1, cs))
             else if b < 0xF8 then Inr (List, 1, ucast (b - 0xC0))
             else
               (case readSize rest (b - 0xF7) of
                  Inl e \<Rightarrow> Inl e
                | Inr cs \<Rightarrow> Inr (List, ucast (b - 0xF7) + 1, cs)))
          in case res of
               Inl e \<Rightarrow> Inl e
             | Inr (k, tagsize, contentsize) \<Rightarrow>
                 if of_nat (length buf) - tagsize < contentsize then Inl ErrValueTooLarge
                 else Inr (k, tagsize, contentsize))"

definition Split :: "bytes \<Rightarrow> rlp_error + (Kind \<times> bytes \<times> bytes)" where
  "Split b =
     (case readKind b of
        Inl e \<Rightarrow> Inl e
      | Inr (k, ts, cs) \<Rightarrow>
          Inr (k, take (unat (ts + cs) - unat ts) (drop (unat ts) b), drop (unat (ts + cs)) b))"



definition SplitList :: "bytes \<Rightarrow> rlp_error + (bytes \<times> bytes)" where
  "SplitList b =
     (case Split b of
        Inl e \<Rightarrow> Inl e
      | Inr (k, content, rest) \<Rightarrow>
          if k \<noteq> List then Inl ErrExpectedList else Inr (content, rest))"

text \<open>
  The counting loop advances by at least one byte, so the length of its input is enough fuel
  (\<^term>\<open>None\<close> is the loop not ending within the fuel).
\<close>

fun CountValues_loop :: "nat \<Rightarrow> bytes \<Rightarrow> nat \<Rightarrow> (rlp_error + nat) option" where
  "CountValues_loop n [] i = Some (Inr i)"
| "CountValues_loop 0 (x # b) i = None"
| "CountValues_loop (Suc n) (x # b) i =
     (case readKind (x # b) of
        Inl e \<Rightarrow> Some (Inl e)
      | Inr (_, tagsize, sz) \<Rightarrow>
          CountValues_loop n (drop (unat (tagsize + sz)) (x # b)) (i + 1))"

definition CountValues :: "bytes \<Rightarrow> (rlp_error + nat) option" where
  "CountValues b = CountValues_loop (length b) b 0"

section \<open>The encoder buffer (encbuffer.go) and the direct encoding\<close>

record listhead =
  offset :: nat
  headSize :: nat

record encBuffer =
  str :: bytes
  lheads :: "listhead list"
  lhsize :: nat

definition enc_reset :: encBuffer where
  "enc_reset = \<lparr>str = [], lheads = [], lhsize = 0\<rparr>"

definition buf_size :: "encBuffer \<Rightarrow> nat" where
  "buf_size buf = length (str buf) + lhsize buf"

definition listhead_encode :: "listhead \<Rightarrow> bytes" where
  "listhead_encode h = puthead 0xC0 0xF7 (of_nat (headSize h))"

text \<open>
  Go's \<^verbatim>\<open>copy(dst[pos:], src)\<close>: as many bytes as fit, and their number. The slice
  expressions of \<^verbatim>\<open>copyTo\<close> panic (\<^term>\<open>None\<close>) out of range, and so does \<^verbatim>\<open>head.encode\<close>
  where the destination is too short for the header.
\<close>

definition go_copy :: "bytes \<Rightarrow> nat \<Rightarrow> bytes \<Rightarrow> bytes \<times> nat" where
  "go_copy dst pos src =
     (let n = min (length dst - pos) (length src)
      in (take pos dst @ take n src @ drop (pos + n) dst, n))"

fun copyTo_loop :: "bytes \<Rightarrow> listhead list \<Rightarrow> bytes \<Rightarrow> nat \<Rightarrow> nat \<Rightarrow> bytes option" where
  "copyTo_loop s [] dst strpos pos =
     (if length dst < pos \<or> length s < strpos then None
      else Some (fst (go_copy dst pos (drop strpos s))))"
| "copyTo_loop s (h # hs) dst strpos pos =
     (if length dst < pos \<or> offset h < strpos \<or> length s < offset h then None
      else
        (let (dst1, n) = go_copy dst pos (take (offset h - strpos) (drop strpos s));
             pos1 = pos + n;
             enc = listhead_encode h
         in if length dst1 < pos1 + length enc then None
            else copyTo_loop s hs (fst (go_copy dst1 pos1 enc)) (strpos + n) (pos1 + length enc)))"

definition copyTo :: "encBuffer \<Rightarrow> bytes \<Rightarrow> bytes option" where
  "copyTo w dst = copyTo_loop (str w) (lheads w) dst 0 0"

definition makeBytes :: "encBuffer \<Rightarrow> bytes option" where
  "makeBytes w = copyTo w (replicate (buf_size w) 0)"

definition encodeStringHeader :: "encBuffer \<Rightarrow> nat \<Rightarrow> encBuffer" where
  "encodeStringHeader buf sz =
     (if sz < 56 then buf\<lparr>str := str buf @ [0x80 + of_nat sz]\<rparr>
      else (let b = putint (of_nat sz)
            in buf\<lparr>str := str buf @ (0xB7 + of_nat (length b)) # b\<rparr>))"

definition writeBytes :: "encBuffer \<Rightarrow> bytes \<Rightarrow> encBuffer" where
  "writeBytes buf b =
     (if length b = 1 \<and> b ! 0 \<le> 0x7F then buf\<lparr>str := str buf @ [b ! 0]\<rparr>
      else (let buf1 = encodeStringHeader buf (length b) in buf1\<lparr>str := str buf1 @ b\<rparr>))"

definition writeUint64 :: "encBuffer \<Rightarrow> u64 \<Rightarrow> encBuffer" where
  "writeUint64 buf i =
     (if i = 0 then buf\<lparr>str := str buf @ [0x80]\<rparr>
      else if i < 128 then buf\<lparr>str := str buf @ [ucast i]\<rparr>
      else (let b = putint i in buf\<lparr>str := str buf @ (0x80 + of_nat (length b)) # b\<rparr>))"

definition writeBool :: "encBuffer \<Rightarrow> bool \<Rightarrow> encBuffer" where
  "writeBool buf b = buf\<lparr>str := str buf @ [if b then 0x01 else 0x80]\<rparr>"

definition enc_list :: "encBuffer \<Rightarrow> nat \<times> encBuffer" where
  "enc_list buf =
     (length (lheads buf),
      buf\<lparr>lheads := lheads buf @ [\<lparr>offset = length (str buf), headSize = lhsize buf\<rparr>]\<rparr>)"

definition listEnd :: "encBuffer \<Rightarrow> nat \<Rightarrow> encBuffer" where
  "listEnd buf i =
     (let lh = lheads buf ! i;
          sz = buf_size buf - offset lh - headSize lh
      in buf\<lparr>lheads := (lheads buf)[i := lh\<lparr>headSize := sz\<rparr>],
             lhsize := lhsize buf + (if sz < 56 then 1 else 1 + intsize (of_nat sz))\<rparr>)"

text \<open>
  The values the reflective writers reduce to: byte slices and strings, unsigned
  integers, booleans, and slices of values (written between \<open>list\<close> and \<open>listEnd\<close>).
\<close>

datatype rlp_val = RBytes bytes | RUint u64 | RBool bool | RList "rlp_val list"

fun write_val :: "rlp_val \<Rightarrow> encBuffer \<Rightarrow> encBuffer"
  and write_vals :: "rlp_val list \<Rightarrow> encBuffer \<Rightarrow> encBuffer" where
  "write_val (RBytes b) w = writeBytes w b"
| "write_val (RUint i) w = writeUint64 w i"
| "write_val (RBool b) w = writeBool w b"
| "write_val (RList vs) w =
     (if length vs = 0 then w\<lparr>str := str w @ [0xC0]\<rparr>
      else (let (listOffset, w1) = enc_list w in listEnd (write_vals vs w1) listOffset))"
| "write_vals [] w = w"
| "write_vals (v # vs) w = write_vals vs (write_val v w)"

definition EncodeToBytes :: "rlp_val \<Rightarrow> bytes option" where
  "EncodeToBytes v = makeBytes (write_val v enc_reset)"

text \<open>The direct recursive encoding, the reference for the buffer and for \<open>Split\<close>.\<close>

definition string_enc :: "bytes \<Rightarrow> bytes" where
  "string_enc b =
     (if length b = 1 \<and> b ! 0 \<le> 0x7F then b
      else puthead 0x80 0xB7 (of_nat (length b)) @ b)"

definition list_enc :: "bytes \<Rightarrow> bytes" where
  "list_enc c = puthead 0xC0 0xF7 (of_nat (length c)) @ c"

definition uint_enc :: "u64 \<Rightarrow> bytes" where
  "uint_enc i = (if i = 0 then string_enc [] else string_enc (putint i))"

fun rlp_enc :: "rlp_val \<Rightarrow> bytes" where
  "rlp_enc (RBytes b) = string_enc b"
| "rlp_enc (RUint i) = uint_enc i"
| "rlp_enc (RBool b) = uint_enc (if b then 1 else 0)"
| "rlp_enc (RList vs) = list_enc (concat (map rlp_enc vs))"

section \<open>Facts on integers and headers\<close>

lemma unat_byte_at: "unat (byte_at i k) = unat i div 256 ^ k mod 256"
  by (simp add: byte_at_def unat_ucast_byte unat_drop_bit_div power_mult)

lemma byte_at_of_nat: "byte_at i k = of_nat (unat i div 256 ^ k mod 256)"
  by (simp add: word_eq_unat unat_byte_at unat_of_nat_byte)

lemma intsize_eq:
  "0 < n \<Longrightarrow> unat i < 256 ^ n \<Longrightarrow> n = 1 \<or> 256 ^ (n - 1) \<le> unat i \<Longrightarrow> intsize i = n"
proof (induction n arbitrary: i)
  case 0
  then show ?case by simp
next
  case (Suc n)
  show ?case
  proof (cases "n = 0")
    case True
    with Suc.prems(2) have "drop_bit 8 i = 0"
      by (simp add: word_eq_unat unat_drop_bit_div)
    with True show ?thesis by (simp add: intsize.simps [of i])
  next
    case False
    with Suc.prems(3) have ge: "256 ^ n \<le> unat i" by simp
    with False have d: "256 ^ (n - 1) \<le> unat i div 256"
      by (cases n) (simp_all add: less_eq_div_iff_mult_less_eq mult.commute)
    have "0 < unat i div 256" using d
      by (metis gr0I le_zero_eq power_not_zero zero_neq_numeral)
    then have nz: "drop_bit 8 i \<noteq> 0"
      by (simp add: word_eq_unat unat_drop_bit_div)
    have "intsize (drop_bit 8 i) = n"
    proof (rule Suc.IH)
      show "0 < n" using False by simp
      show "unat (drop_bit 8 i) < 256 ^ n"
        using Suc.prems(2) by (simp add: unat_drop_bit_div less_mult_imp_div_less mult.commute)
      show "n = 1 \<or> 256 ^ (n - 1) \<le> unat (drop_bit 8 i)"
        using d by (simp add: unat_drop_bit_div)
    qed
    with nz show ?thesis by (simp add: intsize.simps [of i])
  qed
qed


lemma putint_be_bytes: "putint i = be_bytes (length (putint i)) (unat i)"
  by (simp add: putint_def byte_at_of_nat be_bytes_map)

lemma length_putint: "length (putint i) = intsize i"
proof -
  have "unat i < 2 ^ 64" using unat_lt_u64 [of i] by simp
  then show ?thesis
    by (auto simp: putint_def word_less_nat_alt intro!: intsize_eq [symmetric])
qed
lemma unat_push_or:
  assumes "unat a < 2 ^ 56"
  shows "unat (push_bit 8 a OR ucast (x :: byte) :: u64) = unat a * 256 + unat x"
proof -
  have "push_bit 8 a OR (ucast x :: u64) = push_bit 8 a + ucast x"
    by (rule disjunctive_add [symmetric]) (auto simp: bit_push_bit_iff bit_ucast_iff dest: bit_imp_le_length)
  moreover have "unat (push_bit 8 a + ucast x :: u64) = unat a * 256 + unat x"
  proof -
    have "unat a * 256 + unat x < 2 ^ 64"
      using assms unat_byte_less [of x] by simp
    then show ?thesis
      by (simp add: unat_add_u64 push_bit_eq_mult unat_mult_u64 unat_ucast_u64_byte)
  qed
  ultimately show ?thesis by simp
qed
lemma unat_fold_be:
  "length bs \<le> 8 \<Longrightarrow>
   unat (foldl (\<lambda>a x. push_bit 8 a OR ucast x) (0 :: u64) bs) = be_nat bs"
proof (induction bs rule: rev_induct)
  case Nil
  then show ?case by simp
next
  case (snoc x bs)
  have "be_nat bs < 256 ^ length bs" by (rule be_nat_less)
  also have "\<dots> \<le> 256 ^ 7" using snoc.prems by (intro power_increasing) auto
  finally have "be_nat bs < 2 ^ 56" by simp
  with snoc show ?case by (simp add: unat_push_or)
qed

lemma intsize_bounds: "1 \<le> intsize i \<and> intsize i \<le> 8"
  by (simp add: length_putint [symmetric] putint_def)

lemma unat_less_intsize: "unat i < 256 ^ intsize i"
  using unat_lt_u64 [of i]
  by (auto simp: length_putint [symmetric] putint_def word_less_nat_alt)

lemma intsize_lower: "1 < intsize i \<Longrightarrow> 256 ^ (intsize i - 1) \<le> unat i"
  by (auto simp: length_putint [symmetric] putint_def word_less_nat_alt split: if_splits)

lemma be_nat_putint: "be_nat (putint i) = unat i"
  by (metis be_nat_be_bytes length_putint mod_less putint_be_bytes unat_less_intsize)

lemma be_nat_lower: "bs \<noteq> [] \<Longrightarrow> bs ! 0 \<noteq> 0 \<Longrightarrow> 256 ^ (length bs - 1) \<le> be_nat bs"
proof (cases bs)
  case (Cons b cs)
  assume "bs ! 0 \<noteq> 0"
  with Cons have "1 \<le> unat b"
    by (simp add: Suc_le_eq unat_gt_0)
  then have "256 ^ length cs \<le> unat b * 256 ^ length cs + be_nat cs"
    by (metis mult_le_mono1 nat_mult_1 trans_le_add1)
  with Cons show ?thesis by (simp add: be_nat_Cons)
qed simp

lemma putint_be_nat:
  assumes "bs \<noteq> []" "length bs \<le> 8" "bs ! 0 \<noteq> 0"
  shows "putint (of_nat (be_nat bs)) = bs"
proof -
  have less: "be_nat bs < 256 ^ length bs" by (rule be_nat_less)
  also have "\<dots> \<le> 256 ^ 8" using assms by (intro power_increasing) auto
  finally have u: "unat (of_nat (be_nat bs) :: u64) = be_nat bs"
    by (intro unat_of_nat_u64) simp
  have "intsize (of_nat (be_nat bs)) = length bs"
    using assms less be_nat_lower [of bs] by (intro intsize_eq) (auto simp: u)
  then show ?thesis
    by (metis be_bytes_be_nat length_putint putint_be_bytes u)
qed

lemma putint_hd: "0 < i \<Longrightarrow> putint i ! 0 \<noteq> 0"
proof -
  assume "0 < i"
  define n where "n = intsize i"
  have n: "1 \<le> n" "length (putint i) = n"
    using intsize_bounds [of i] by (auto simp: n_def length_putint)
  have "256 ^ (n - 1) \<le> unat i"
  proof (cases "n = 1")
    case True
    with \<open>0 < i\<close> show ?thesis by (simp add: Suc_le_eq unat_gt_0)
  next
    case False
    with n show ?thesis using intsize_lower [of i] by (simp add: n_def)
  qed
  then have "unat i div 256 ^ (n - 1) \<noteq> 0" by (simp add: div_eq_0_iff)
  moreover have "unat i div 256 ^ (n - 1) < 256"
    using unat_less_intsize [of i] n
    by (metis less_mult_imp_div_less n_def mult.commute power_minus_mult zero_less_one
        less_le_trans power_commutes)
  moreover have "putint i ! 0 = of_nat (unat i div 256 ^ (n - 1) mod 256)"
    using n by (subst putint_be_bytes) (simp add: be_bytes_map rev_nth)
  ultimately show ?thesis by (simp add: word_eq_unat unat_of_nat_byte)
qed


section \<open>\<open>Split\<close> against the direct encoding\<close>

lemma readSize_putint:
  assumes "56 \<le> s"
  shows "readSize (putint s @ ys) (of_nat (length (putint s))) = Inr s"
proof -
  have l: "1 \<le> length (putint s)" "length (putint s) \<le> 8"
    using intsize_bounds [of s] by (auto simp: length_putint)
  then have u: "unat (of_nat (length (putint s)) :: byte) = length (putint s)"
    by (simp add: unat_of_nat_byte)
  have f: "foldl (\<lambda>a x. push_bit 8 a OR ucast x) 0 (putint s) = s"
    using l by (simp add: word_eq_unat unat_fold_be be_nat_putint)
  have "0 < s" using assms by (simp add: word_less_nat_alt word_le_nat_alt)
  then have "(putint s @ ys) ! 0 \<noteq> 0"
    using l putint_hd [of s] by (auto simp: nth_append)
  then show ?thesis
    using l u f assms by (simp add: readSize_def Let_def)
qed

lemma readSize_Inr:
  assumes "readSize b n = Inr s" "1 \<le> unat n" "unat n \<le> 8"
  shows "56 \<le> s" "putint s = take (unat n) b" "unat n \<le> length b"
proof -
  let ?bs = "take (unat n) b"
  from assms have len: "unat n \<le> length b" and s: "s = foldl (\<lambda>a x. push_bit 8 a OR ucast x) 0 ?bs"
    and ge: "56 \<le> s" and nz: "b ! 0 \<noteq> 0"
    by (auto simp: readSize_def Let_def split: if_splits)
  have us: "unat s = be_nat ?bs"
    using assms(3) len by (simp add: s unat_fold_be)
  have "putint (of_nat (be_nat ?bs)) = ?bs"
    using assms len nz by (intro putint_be_nat) auto
  moreover have "of_nat (be_nat ?bs) = s"
    by (simp flip: us)
  ultimately show "56 \<le> s" "putint s = ?bs" "unat n \<le> length b"
    using ge len by auto
qed

lemma puthead_small: "sz < 56 \<Longrightarrow> puthead st lt sz = [st + ucast sz]"
  by (simp add: puthead_def)

lemma puthead_large:
  "56 \<le> sz \<Longrightarrow> puthead st lt sz = (lt + of_nat (length (putint sz))) # putint sz"
  by (simp add: puthead_def Let_def leD)

lemma length_puthead: "length (puthead st lt sz) = headsize sz"
  by (simp add: puthead_def headsize_def Let_def length_putint)


lemma Split_readKind:
  assumes "readKind (h @ c @ rest) = Inr (k, ts, cs)"
    and "unat ts = length h" and "unat cs = length c" and "length (h @ c @ rest) < 2 ^ 64"
  shows "Split (h @ c @ rest) = Inr (k, c, rest)"
proof -
  have "unat (ts + cs) = length h + length c"
    using assms by (simp add: unat_add_u64)
  then show ?thesis using assms by (simp add: Split_def)
qed

lemma byte_tag: "t + n < 256 \<Longrightarrow> unat (of_nat t + of_nat n :: byte) = t + n"
  by (simp add: unat_of_nat_byte flip: of_nat_add)

lemma readKind_short_string:
  assumes "length b < 56" "\<not> (length b = 1 \<and> b ! 0 \<le> 0x7F)" "length (b @ rest) < 2 ^ 63"
  shows "readKind ((0x80 + of_nat (length b)) # b @ rest) = Inr (String, 1, of_nat (length b))"
proof -
  let ?t = "0x80 + of_nat (length b) :: byte"
  have t: "unat ?t = 128 + length b" using byte_tag [of 128 "length b"] assms(1) by simp
  have d: "?t - 0x80 = of_nat (length b)" by simp
  have c: "(ucast (of_nat (length b) :: byte) :: u64) = of_nat (length b)"
    using assms(1) by (simp add: word_eq_unat unat_ucast_u64_byte unat_of_nat_byte unat_of_nat_u64)
  have one: "(of_nat (length b) :: u64) = 1 \<longleftrightarrow> length b = 1"
    using assms(1) by (simp add: word_eq_unat unat_of_nat_u64)
  have nc: "\<not> (length b = 1 \<and> b @ rest \<noteq> [] \<and> (b @ rest) ! 0 < 128)"
    using assms(2) by (auto simp: nth_append word_less_nat_alt word_le_nat_alt)
  have sz: "\<not> of_nat (length (?t # b @ rest)) - 1 < (of_nat (length b) :: u64)"
    using assms(3) by (simp add: word_less_nat_alt unat_of_nat_u64 flip: of_nat_add)
  show ?thesis
    using assms(1) t nc sz
    by (simp add: readKind_def Let_def d c one word_less_nat_alt)
qed


lemma readKind_short_list:
  assumes "length c < 56" "length (c @ rest) < 2 ^ 63"
  shows "readKind ((0xC0 + of_nat (length c)) # c @ rest) = Inr (List, 1, of_nat (length c))"
proof -
  let ?t = "0xC0 + of_nat (length c) :: byte"
  have t: "unat ?t = 192 + length c" using byte_tag [of 192 "length c"] assms(1) by simp
  have u: "(ucast (of_nat (length c) :: byte) :: u64) = of_nat (length c)"
    using assms(1) by (simp add: word_eq_unat unat_ucast_u64_byte unat_of_nat_byte unat_of_nat_u64)
  have sz: "\<not> of_nat (length (?t # c @ rest)) - 1 < (of_nat (length c) :: u64)"
    using assms(2) by (simp add: word_less_nat_alt unat_of_nat_u64 flip: of_nat_add)
  show ?thesis
    using assms(1) t sz by (simp add: readKind_def Let_def u word_less_nat_alt)
qed

lemma readKind_long:
  assumes "56 \<le> length c" "length c < 2 ^ 62" "length rest < 2 ^ 62"
    and s: "s = (of_nat (length c) :: u64)" and "n = length (putint s)"
  shows "readKind ((0xB7 + of_nat n) # putint s @ c @ rest) = Inr (String, of_nat n + 1, s)"
    and "readKind ((0xF7 + of_nat n) # putint s @ c @ rest) = Inr (List, of_nat n + 1, s)"
proof -
  have n: "1 \<le> n" "n \<le> 8"
    using intsize_bounds [of s] by (auto simp: assms(5) length_putint)
  have us: "unat s = length c" using assms by (simp add: unat_of_nat_u64)
  then have "56 \<le> s" using assms(1) by (simp add: word_le_nat_alt)
  then have rs: "readSize (putint s @ c @ rest) (of_nat n) = Inr s"
    unfolding assms(5) by (rule readSize_putint)
  have tB: "unat (0xB7 + of_nat n :: byte) = 183 + n" using byte_tag [of 183 n] n by simp
  have tF: "unat (0xF7 + of_nat n :: byte) = 247 + n" using byte_tag [of 247 n] n by simp
  have u: "(ucast (of_nat n :: byte) :: u64) = of_nat n"
    using n by (simp add: word_eq_unat unat_ucast_u64_byte unat_of_nat_byte unat_of_nat_u64)
  have len: "length (x # putint s @ c @ rest) = n + 1 + length c + length rest" for x
    by (simp add: assms(5))
  have "of_nat (n + 1 + length c + length rest) - (of_nat n + 1) =
      (of_nat (length c + length rest) :: u64)"
    by simp
  moreover have "unat (of_nat (length c + length rest) :: u64) = length c + length rest"
    using assms by (intro unat_of_nat_u64) simp
  ultimately have sz: "\<not> of_nat (length (x # putint s @ c @ rest)) - (of_nat n + 1) < s" for x
    unfolding len by (simp add: word_less_nat_alt us)
  show "readKind ((0xB7 + of_nat n) # putint s @ c @ rest) = Inr (String, of_nat n + 1, s)"
    using n tB rs sz [of "0xB7 + of_nat n"]
    by (simp add: readKind_def Let_def u word_less_nat_alt)
  show "readKind ((0xF7 + of_nat n) # putint s @ c @ rest) = Inr (List, of_nat n + 1, s)"
    using n tF rs sz [of "0xF7 + of_nat n"]
    by (simp add: readKind_def Let_def u word_less_nat_alt)
qed

lemma of_nat_less_56: "n < 2 ^ 62 \<Longrightarrow> (of_nat n :: u64) < 56 \<longleftrightarrow> n < 56"
  by (simp add: word_less_nat_alt unat_of_nat_u64)

lemma ucast_of_nat_u64_byte: "(ucast (of_nat n :: u64) :: byte) = of_nat n" if "n < 2 ^ 62"
  using that by (simp add: word_eq_unat unat_ucast_byte unat_of_nat_byte unat_of_nat_u64)

lemma unat_header: "n \<le> 8 \<Longrightarrow> unat (of_nat n + 1 :: u64) = n + 1"
  by (simp add: unat_add_u64 unat_of_nat_u64)

lemma Split_string_enc:
  assumes "length b < 2 ^ 62" "length rest < 2 ^ 62"
  shows "Split (string_enc b @ rest) =
    Inr (if length b = 1 \<and> b ! 0 \<le> 0x7F then Byte else String, b, rest)"
proof (cases "length b = 1 \<and> b ! 0 \<le> 0x7F")
  case True
  then obtain x where b: "b = [x]" and x: "x \<le> 0x7F"
    by (cases b) auto
  have rk: "readKind ([] @ [x] @ rest) = Inr (Byte, 0, 1)"
    using x assms
    by (simp add: readKind_def Let_def word_less_nat_alt word_le_nat_alt unat_of_nat_u64
        flip: of_nat_Suc)
  have "Split ([] @ [x] @ rest) = Inr (Byte, [x], rest)"
    by (rule Split_readKind [OF rk]) (use assms in auto)
  with True b show ?thesis by (simp add: string_enc_def)
next
  case nb: False
  show ?thesis
  proof (cases "length b < 56")
    case True
    let ?h = "[0x80 + of_nat (length b) :: byte]"
    have rk: "readKind (?h @ b @ rest) = Inr (String, 1, of_nat (length b))"
      using readKind_short_string [OF True nb] assms by simp
    have "Split (?h @ b @ rest) = Inr (String, b, rest)"
      by (rule Split_readKind [OF rk]) (use assms in \<open>auto simp: unat_of_nat_u64\<close>)
    with nb True assms show ?thesis
      by (auto simp: string_enc_def puthead_small of_nat_less_56 ucast_of_nat_u64_byte)
  next
    case False
    define s where "s = (of_nat (length b) :: u64)"
    define n where "n = length (putint s)"
    have n: "n \<le> 8" using intsize_bounds [of s] by (simp add: n_def length_putint)
    have "readKind ((0xB7 + of_nat n) # putint s @ b @ rest) = Inr (String, of_nat n + 1, s)"
      using False assms by (intro readKind_long [OF _ _ _ s_def n_def]) auto
    then have rk: "readKind (((0xB7 + of_nat n) # putint s) @ b @ rest) =
        Inr (String, of_nat n + 1, s)" by simp
    have "Split (((0xB7 + of_nat n) # putint s) @ b @ rest) = Inr (String, b, rest)"
      by (rule Split_readKind [OF rk])
        (use assms n in \<open>auto simp: unat_header unat_of_nat_u64 s_def n_def\<close>)
    moreover have "56 \<le> s" using False assms
      by (simp add: s_def word_le_nat_alt unat_of_nat_u64)
    ultimately show ?thesis
      using nb by (auto simp: string_enc_def puthead_large s_def n_def)
  qed
qed

lemma Split_list_enc:
  assumes "length c < 2 ^ 62" "length rest < 2 ^ 62"
  shows "Split (list_enc c @ rest) = Inr (List, c, rest)"
proof (cases "length c < 56")
  case True
  let ?h = "[0xC0 + of_nat (length c) :: byte]"
  have rk: "readKind (?h @ c @ rest) = Inr (List, 1, of_nat (length c))"
    using readKind_short_list [OF True] assms by simp
  have "Split (?h @ c @ rest) = Inr (List, c, rest)"
    by (rule Split_readKind [OF rk]) (use assms in \<open>auto simp: unat_of_nat_u64\<close>)
  with True assms show ?thesis
    by (simp add: list_enc_def puthead_small of_nat_less_56 ucast_of_nat_u64_byte)
next
  case False
  define s where "s = (of_nat (length c) :: u64)"
  define n where "n = length (putint s)"
  have n: "n \<le> 8" using intsize_bounds [of s] by (simp add: n_def length_putint)
  have "readKind ((0xF7 + of_nat n) # putint s @ c @ rest) = Inr (List, of_nat n + 1, s)"
    using False assms by (intro readKind_long [OF _ _ _ s_def n_def]) auto
  then have rk: "readKind (((0xF7 + of_nat n) # putint s) @ c @ rest) =
      Inr (List, of_nat n + 1, s)" by simp
  have "Split (((0xF7 + of_nat n) # putint s) @ c @ rest) = Inr (List, c, rest)"
    by (rule Split_readKind [OF rk])
      (use assms n in \<open>auto simp: unat_header unat_of_nat_u64 s_def n_def\<close>)
  moreover have "56 \<le> s" using False assms
    by (simp add: s_def word_le_nat_alt unat_of_nat_u64)
  ultimately show ?thesis
    by (simp add: list_enc_def puthead_large s_def n_def)
qed


text \<open>Conversely, a value that \<open>readKind\<close> accepts is the canonical encoding of its content.\<close>

definition kind_enc :: "Kind \<Rightarrow> bytes \<Rightarrow> bytes" where
  "kind_enc k c = (if k = List then list_enc c else string_enc c)"

lemma short_head:
  "length c < 56 \<Longrightarrow> puthead st lt (of_nat (length c)) = [st + of_nat (length c)]"
  by (simp add: puthead_small of_nat_less_56 ucast_of_nat_u64_byte)

lemma unat_tag_sub:
  fixes b t :: byte
  shows "t \<le> b \<Longrightarrow> unat (b - t) = unat b - unat t"
  by (simp add: unat_sub word_le_nat_alt)

lemma unat_of_nat_minus:
  fixes w :: u64
  assumes "y \<le> x" "x < 2 ^ 64" "unat w = y"
  shows "unat (of_nat x - w) = x - y"
  using assms unat_of_nat_u64 [of x] by (simp add: unat_sub_u64 word_le_nat_alt)

lemma short_header_split:
  fixes b t :: byte
  assumes t: "t \<le> b" "unat b < unat t + 56"
    and fit: "\<not> of_nat (length (b # tb)) - 1 < (ucast (b - t) :: u64)"
    and len: "length (b # tb) < 2 ^ 62"
  shows "\<exists>c rest. tb = c @ rest \<and> length c = unat (ucast (b - t) :: u64) \<and>
    length c < 56 \<and> b = t + of_nat (length c)"
proof -
  define m where "m = unat (b - t)"
  have m: "unat (ucast (b - t) :: u64) = m" "m < 56" and b: "b = t + of_nat m"
    using t by (auto simp: m_def unat_ucast_u64_byte unat_tag_sub word_le_nat_alt)
  have "m \<le> length tb"
    using fit len m by (simp add: word_less_nat_alt unat_of_nat_u64 not_less)
  then show ?thesis
    using m b by - (rule exI [of _ "take m tb"], rule exI [of _ "drop m tb"], simp)
qed

lemma long_header_split:
  fixes b t :: byte
  assumes rs: "readSize tb (b - t) = Inr cs" and t: "t < b" "unat b \<le> unat t + 8"
    and fit: "\<not> of_nat (length (b # tb)) - (ucast (b - t) + 1) < cs"
    and len: "length (b # tb) < 2 ^ 62"
  shows "\<exists>c rest. tb = putint cs @ c @ rest \<and> length c = unat cs \<and>
    unat (ucast (b - t) + 1 :: u64) = length (putint cs) + 1 \<and> 56 \<le> length c \<and>
    of_nat (length c) = cs \<and> b = t + of_nat (length (putint cs))"
proof -
  define n where "n = unat (b - t)"
  have n: "1 \<le> n" "n \<le> 8"
    using t by (auto simp: n_def unat_tag_sub word_less_nat_alt word_le_nat_alt)
  note r = readSize_Inr [OF rs n [unfolded n_def], folded n_def]
  have ts: "unat (ucast (b - t) + 1 :: u64) = n + 1"
    using n by (simp add: unat_add_u64 unat_ucast_u64_byte n_def [symmetric])
  have "unat (of_nat (length (b # tb)) - (ucast (b - t) + 1) :: u64) = length tb - n"
    using len r(3) by (subst unat_of_nat_minus [OF _ _ ts]) auto
  with fit have f: "unat cs \<le> length tb - n" by (simp add: word_less_nat_alt)
  let ?c = "take (unat cs) (drop n tb)" and ?rest = "drop (unat cs) (drop n tb)"
  have "tb = putint cs @ ?c @ ?rest" by (simp only: r(2) append_take_drop_id)
  moreover have "length ?c = unat cs" using f by simp
  moreover have "length (putint cs) = n" using r(2,3) by simp
  moreover have "56 \<le> unat cs" using r(1) by (simp add: word_le_nat_alt)
  moreover have "b = t + of_nat n" by (simp add: n_def)
  moreover have "of_nat (unat cs) = cs" by simp
  ultimately show ?thesis
    unfolding ts by - (rule exI [of _ ?c], rule exI [of _ ?rest], simp)
qed

lemma readKind_canonical:
  assumes rk: "readKind buf = Inr (k, ts, cs)" and len: "length buf < 2 ^ 62"
  shows "\<exists>h c rest. buf = h @ c @ rest \<and> length h = unat ts \<and> length c = unat cs \<and>
    h @ c = kind_enc k c"
proof -
  from rk obtain b tb where buf: "buf = b # tb"
    by (auto simp: readKind_def split: list.splits)
  have fit: "\<not> of_nat (length (b # tb)) - ts < cs"
    using rk buf by (auto simp: readKind_def Let_def split: sum.splits if_splits prod.splits)
  note len' = len [unfolded buf]
  consider (single) "b < 0x80" | (short) "0x80 \<le> b" "b < 0xB8" | (long) "0xB8 \<le> b" "b < 0xC0"
    | (lshort) "0xC0 \<le> b" "b < 0xF8" | (llong) "0xF8 \<le> b"
    by (meson linorder_not_le)
  then show ?thesis
  proof cases
    case single
    with rk buf have "k = Byte" "ts = 0" "cs = 1"
      by (auto simp: readKind_def Let_def split: if_splits)
    moreover from single have "b \<le> 0x7F"
      by (simp add: word_less_nat_alt word_le_nat_alt)
    ultimately show ?thesis
      using buf by - (rule exI [of _ "[]"], rule exI [of _ "[b]"], rule exI [of _ tb],
        simp add: kind_enc_def string_enc_def)
  next
    case short
    with rk buf have k: "k = String" "ts = 1" "cs = ucast (b - 0x80)"
      and canon: "\<not> (cs = 1 \<and> tb \<noteq> [] \<and> tb ! 0 < 128)"
      by (auto simp: readKind_def Let_def leD split: if_splits)
    from short have "unat b < unat (0x80 :: byte) + 56" by (simp add: word_less_nat_alt)
    from short_header_split [OF short(1) this fit [unfolded k] len'] obtain c rest where
      c: "tb = c @ rest" "length c = unat cs" "length c < 56" "b = 0x80 + of_nat (length c)"
      unfolding k by blast
    have "\<not> (length c = 1 \<and> c ! 0 \<le> 0x7F)"
      using canon c(1,2) by (cases c) (auto simp: word_eq_unat word_less_nat_alt word_le_nat_alt)
    with k(1) c(3) have "kind_enc k c = (0x80 + of_nat (length c)) # c"
      by (simp only: kind_enc_def string_enc_def) (simp add: short_head)
    with buf k(2) c show ?thesis
      by - (rule exI [of _ "[b]"], rule exI [of _ c], rule exI [of _ rest], simp)
  next
    case long
    with rk buf obtain k: "k = String" "ts = ucast (b - 0xB7) + 1"
      and rs: "readSize tb (b - 0xB7) = Inr cs"
      by (auto simp: readKind_def Let_def leD word_le_nat_alt word_less_nat_alt
          split: if_splits sum.splits)
    from long have "0xB7 < b" "unat b \<le> unat (0xB7 :: byte) + 8"
      by (simp_all add: word_less_nat_alt word_le_nat_alt)
    from long_header_split [OF rs this fit [unfolded k] len'] obtain c rest where
      c: "tb = putint cs @ c @ rest" "length c = unat cs" "unat ts = length (putint cs) + 1"
      "56 \<le> length c" "of_nat (length c) = cs" "b = 0xB7 + of_nat (length (putint cs))"
      unfolding k by blast
    with k(1) have "kind_enc k c = b # putint cs @ c"
      by (simp add: kind_enc_def string_enc_def puthead_large word_le_nat_alt)
    with buf c(1,2,3) show ?thesis
      by - (rule exI [of _ "b # putint cs"], rule exI [of _ c], rule exI [of _ rest], simp)
  next
    case lshort
    with rk buf have k: "k = List" "ts = 1" "cs = ucast (b - 0xC0)"
      by (auto simp: readKind_def Let_def leD word_le_nat_alt word_less_nat_alt split: if_splits)
    from lshort have "unat b < unat (0xC0 :: byte) + 56" by (simp add: word_less_nat_alt)
    from short_header_split [OF lshort(1) this fit [unfolded k] len'] obtain c rest where
      c: "tb = c @ rest" "length c = unat cs" "length c < 56" "b = 0xC0 + of_nat (length c)"
      unfolding k by blast
    from k(1) c(3) have "kind_enc k c = (0xC0 + of_nat (length c)) # c"
      by (simp only: kind_enc_def list_enc_def) (simp add: short_head)
    with buf k(2) c show ?thesis
      by - (rule exI [of _ "[b]"], rule exI [of _ c], rule exI [of _ rest], simp)
  next
    case llong
    with rk buf obtain k: "k = List" "ts = ucast (b - 0xF7) + 1"
      and rs: "readSize tb (b - 0xF7) = Inr cs"
      by (auto simp: readKind_def Let_def leD word_le_nat_alt word_less_nat_alt
          split: if_splits sum.splits)
    from llong have "0xF7 < b" "unat b \<le> unat (0xF7 :: byte) + 8"
      using unat_byte_less [of b] by (simp_all add: word_less_nat_alt word_le_nat_alt)
    from long_header_split [OF rs this fit [unfolded k] len'] obtain c rest where
      c: "tb = putint cs @ c @ rest" "length c = unat cs" "unat ts = length (putint cs) + 1"
      "56 \<le> length c" "of_nat (length c) = cs" "b = 0xF7 + of_nat (length (putint cs))"
      unfolding k by blast
    with k(1) have "kind_enc k c = b # putint cs @ c"
      by (simp add: kind_enc_def list_enc_def puthead_large word_le_nat_alt)
    with buf c(1,2,3) show ?thesis
      by - (rule exI [of _ "b # putint cs"], rule exI [of _ c], rule exI [of _ rest], simp)
  qed
qed


section \<open>The encoder buffer produces the direct encoding\<close>

text \<open>What a buffer's string data and list headers stand for, from a string position on.\<close>

fun render :: "bytes \<Rightarrow> nat \<Rightarrow> listhead list \<Rightarrow> bytes" where
  "render s p [] = drop p s"
| "render s p (h # hs) =
     take (offset h - p) (drop p s) @ listhead_encode h @ render s (offset h) hs"

fun heads_ok :: "nat \<Rightarrow> listhead list \<Rightarrow> nat \<Rightarrow> bool" where
  "heads_ok p [] q \<longleftrightarrow> p \<le> q"
| "heads_ok p (h # hs) q \<longleftrightarrow> p \<le> offset h \<and> heads_ok (offset h) hs q"

lemma heads_ok_le: "heads_ok p hs q \<Longrightarrow> p \<le> q"
  by (induction p hs q rule: heads_ok.induct) auto

lemma heads_ok_append:
  "heads_ok p hs q \<Longrightarrow> heads_ok q hs' r \<Longrightarrow> heads_ok p (hs @ hs') r"
proof (induction p hs q rule: heads_ok.induct)
  case (1 p q)
  then show ?case by (cases hs') auto
qed auto

lemma render_append:
  "heads_ok p hs (length s) \<Longrightarrow> heads_ok (length s) hs' (length (s @ e)) \<Longrightarrow>
   render (s @ e) p (hs @ hs') = render s p hs @ render (s @ e) (length s) hs'"
proof (induction hs arbitrary: p)
  case Nil
  then show ?case by (cases hs') auto
next
  case (Cons h hs)
  then have "offset h \<le> length s" using heads_ok_le by auto
  with Cons show ?case by auto
qed

lemma go_copy_fits:
  "pos + length src \<le> length dst \<Longrightarrow>
   go_copy dst pos src = (take pos dst @ src @ drop (pos + length src) dst, length src)"
  by (simp add: go_copy_def Let_def)

lemma copyTo_loop_render:
  "heads_ok strpos hs (length s) \<Longrightarrow> length dst = pos + length (render s strpos hs) \<Longrightarrow>
   copyTo_loop s hs dst strpos pos = Some (take pos dst @ render s strpos hs)"
proof (induction hs arbitrary: dst strpos pos)
  case Nil
  then show ?case by (simp add: go_copy_def)
next
  case (Cons h hs)
  define src enc where "src = take (offset h - strpos) (drop strpos s)" and "enc = listhead_encode h"
  have o: "strpos \<le> offset h" "heads_ok (offset h) hs (length s)" "offset h \<le> length s"
    using Cons.prems heads_ok_le by auto
  have ls: "strpos + length src = offset h" using o by (simp add: src_def)
  have d: "length dst = pos + (length src + (length enc + length (render s (offset h) hs)))"
    using Cons.prems by (simp add: src_def enc_def)
  define dst1 where "dst1 = take pos dst @ src @ drop (pos + length src) dst"
  define pos1 where "pos1 = pos + length src"
  define dst2 where "dst2 = take pos1 dst1 @ enc @ drop (pos1 + length enc) dst1"
  have c1: "go_copy dst pos src = (dst1, length src)"
    using d by (simp add: go_copy_fits dst1_def)
  have l1: "length dst1 = length dst" using d by (simp add: dst1_def)
  have c2: "fst (go_copy dst1 pos1 enc) = dst2"
    using d l1 by (simp add: go_copy_fits dst2_def pos1_def)
  have l2: "length dst2 = pos1 + length enc + length (render s (offset h) hs)"
    using d l1 by (simp add: dst2_def pos1_def)
  have t1: "take pos1 dst1 = take pos dst @ src"
    using d by (simp add: dst1_def pos1_def)
  have t2: "take (pos1 + length enc) dst2 = take pos dst @ src @ enc"
    using d l1 t1 by (simp add: dst2_def pos1_def)
  show ?case
    using Cons.IH [OF o(2) l2] o d l1 c1 c2 ls t2
    by (simp add: src_def [symmetric] enc_def [symmetric] pos1_def [symmetric])
qed

definition appended :: "encBuffer \<Rightarrow> encBuffer \<Rightarrow> bytes \<Rightarrow> bool" where
  "appended w w' out \<longleftrightarrow>
     (\<exists>e hs. str w' = str w @ e \<and> lheads w' = lheads w @ hs \<and>
        heads_ok (length (str w)) hs (length (str w')) \<and>
        render (str w') (length (str w)) hs = out \<and>
        lhsize w \<le> lhsize w' \<and> length out = length e + (lhsize w' - lhsize w))"

lemma appended_str [intro]: "w' = w\<lparr>str := str w @ e\<rparr> \<Longrightarrow> appended w w' e"
  by (auto simp: appended_def)

lemma appended_refl: "appended w w []"
  by (auto simp: appended_def)

lemma appended_trans: "appended w w1 o1 \<Longrightarrow> appended w1 w2 o2 \<Longrightarrow> appended w w2 (o1 @ o2)"
  unfolding appended_def
proof (elim exE conjE)
  fix e1 hs1 e2 hs2
  assume 1: "str w1 = str w @ e1" "lheads w1 = lheads w @ hs1"
    "heads_ok (length (str w)) hs1 (length (str w1))" "render (str w1) (length (str w)) hs1 = o1"
    "lhsize w \<le> lhsize w1" "length o1 = length e1 + (lhsize w1 - lhsize w)"
    and 2: "str w2 = str w1 @ e2" "lheads w2 = lheads w1 @ hs2"
    "heads_ok (length (str w1)) hs2 (length (str w2))" "render (str w2) (length (str w1)) hs2 = o2"
    "lhsize w1 \<le> lhsize w2" "length o2 = length e2 + (lhsize w2 - lhsize w1)"
  have "render (str w2) (length (str w)) (hs1 @ hs2) = o1 @ o2"
    using render_append [OF 1(3), of hs2 e2] 1(4) 2 by simp
  moreover have "heads_ok (length (str w)) (hs1 @ hs2) (length (str w2))"
    using heads_ok_append [OF 1(3) 2(3)] .
  ultimately show "\<exists>e hs. str w2 = str w @ e \<and> lheads w2 = lheads w @ hs \<and>
        heads_ok (length (str w)) hs (length (str w2)) \<and>
        render (str w2) (length (str w)) hs = o1 @ o2 \<and>
        lhsize w \<le> lhsize w2 \<and> length (o1 @ o2) = length e + (lhsize w2 - lhsize w)"
    using 1 2 by (intro exI [of _ "e1 @ e2"] exI [of _ "hs1 @ hs2"]) auto
qed

lemma appended_list:
  assumes "enc_list w = (i, w1)" "appended w1 w2 c" "length c < 2 ^ 63"
  shows "appended w (listEnd w2 i) (list_enc c)"
proof -
  from assms(1) have i: "i = length (lheads w)"
    and w1: "w1 = w\<lparr>lheads := lheads w @ [\<lparr>offset = length (str w), headSize = lhsize w\<rparr>]\<rparr>"
    by (auto simp: enc_list_def)
  from assms(2) obtain e hs where
    a: "str w2 = str w @ e" "lheads w2 = lheads w1 @ hs"
      "heads_ok (length (str w)) hs (length (str w2))" "render (str w2) (length (str w)) hs = c"
      "lhsize w \<le> lhsize w2" "length c = length e + (lhsize w2 - lhsize w)"
    by (auto simp: appended_def w1)
  let ?h = "\<lparr>offset = length (str w), headSize = length c\<rparr>"
  have sz: "buf_size w2 - length (str w) - lhsize w = length c"
    using a by (simp add: buf_size_def)
  have lt: "(of_nat (length c) :: u64) < 56 \<longleftrightarrow> length c < 56"
    using assms(3) by (simp add: word_less_nat_alt unat_of_nat_u64)
  have le: "listEnd w2 i = w2\<lparr>lheads := lheads w @ ?h # hs,
      lhsize := lhsize w2 + headsize (of_nat (length c))\<rparr>"
    using a(2) by (simp add: listEnd_def Let_def w1 i sz lt nth_append list_update_append headsize_def
        del: diff_diff_left)
  show ?thesis
    unfolding appended_def
    using a by (intro exI [of _ e] exI [of _ "?h # hs"])
      (auto simp: le listhead_encode_def list_enc_def length_puthead)
qed


lemma writeBytes_appended:
  assumes "length b < 2 ^ 63"
  shows "appended w (writeBytes w b) (string_enc b)"
proof -
  have "(of_nat (length b) :: u64) < 56 \<longleftrightarrow> length b < 56"
    using assms by (simp add: word_less_nat_alt unat_of_nat_u64)
  then show ?thesis
    by (intro appended_str)
      (auto simp: writeBytes_def encodeStringHeader_def string_enc_def Let_def puthead_def
        ucast_of_nat_u64_byte length_Suc_conv)
qed

lemma putint_small: "i < 0x80 \<Longrightarrow> putint i = [ucast i]"
  by (auto simp: putint_def byte_at_def word_less_nat_alt)

lemma uint_enc_large:
  assumes "0x80 \<le> i"
  shows "uint_enc i = (0x80 + of_nat (length (putint i))) # putint i"
proof -
  have l: "1 \<le> length (putint i)" "length (putint i) \<le> 8"
    using intsize_bounds [of i] by (auto simp: length_putint)
  have "\<not> (length (putint i) = 1 \<and> putint i ! 0 \<le> 0x7F)"
  proof
    assume a: "length (putint i) = 1 \<and> putint i ! 0 \<le> 0x7F"
    then obtain x where x: "putint i = [x]" by (auto simp: length_Suc_conv)
    with be_nat_putint [of i] have "unat i = unat x" by (simp add: be_nat_Cons)
    with a x assms show False by (simp add: word_le_nat_alt)
  qed
  moreover have "i \<noteq> 0" using assms by auto
  ultimately show ?thesis using l by (simp add: uint_enc_def string_enc_def short_head)
qed

lemma uint_enc_small: "0 < i \<Longrightarrow> i < 0x80 \<Longrightarrow> uint_enc i = [ucast i]"
proof -
  assume i: "0 < i" "i < 0x80"
  then have "(ucast i :: byte) \<le> 0x7F"
    by (simp add: word_le_nat_alt word_less_nat_alt unat_ucast_byte)
  with i show ?thesis by (auto simp: uint_enc_def string_enc_def putint_small)
qed

lemma uint_enc_0: "uint_enc 0 = [0x80]"
  by (simp add: uint_enc_def string_enc_def puthead_def)

lemma writeUint64_appended: "appended w (writeUint64 w i) (uint_enc i)"
  by (intro appended_str)
    (auto simp: writeUint64_def uint_enc_0 uint_enc_small uint_enc_large Let_def word_gt_0 not_less)

lemma list_enc_Nil: "list_enc [] = [0xC0]"
  by (simp add: list_enc_def puthead_def)

lemma length_string_enc: "length b \<le> length (string_enc b)"
  by (simp add: string_enc_def)

lemma length_list_enc: "length c < length (list_enc c)"
  by (simp add: list_enc_def puthead_def Let_def)

lemma write_val_appended:
  "length (rlp_enc v) < 2 ^ 63 \<Longrightarrow> appended w (write_val v w) (rlp_enc v)"
  "length (concat (map rlp_enc vs)) < 2 ^ 63 \<Longrightarrow>
     appended w (write_vals vs w) (concat (map rlp_enc vs))"
proof (induction v w and vs w rule: write_val_write_vals.induct)
  case (1 b w)
  then show ?case using length_string_enc [of b] by (simp add: writeBytes_appended)
next
  case (3 b w)
  show ?case by (intro appended_str) (auto simp: writeBool_def uint_enc_0 uint_enc_small)
next
  case (4 vs w)
  show ?case
  proof (cases vs)
    case Nil
    then show ?thesis by (auto simp: list_enc_Nil)
  next
    case (Cons v vs')
    obtain i w1 where l: "enc_list w = (i, w1)" by fastforce
    have "length (concat (map rlp_enc vs)) < 2 ^ 63"
      using 4 length_list_enc [of "concat (map rlp_enc vs)"] by simp
    with 4 l Cons appended_list [OF l] show ?thesis by simp
  qed
next
  case (6 v vs w)
  then show ?case by (auto intro: appended_trans)
qed (auto intro: writeUint64_appended appended_refl)

lemma EncodeToBytes_rlp_enc:
  assumes "length (rlp_enc v) < 2 ^ 63"
  shows "EncodeToBytes v = Some (rlp_enc v)"
proof -
  let ?w = "write_val v enc_reset"
  from write_val_appended(1) [OF assms, of enc_reset] have
    "heads_ok 0 (lheads ?w) (length (str ?w))" "render (str ?w) 0 (lheads ?w) = rlp_enc v"
    "buf_size ?w = length (rlp_enc v)"
    by (auto simp: appended_def enc_reset_def buf_size_def)
  then show ?thesis
    by (simp add: EncodeToBytes_def makeBytes_def copyTo_def copyTo_loop_render)
qed


section \<open>Correctness of the layer\<close>

fun val_kind :: "rlp_val \<Rightarrow> Kind" where
  "val_kind (RBytes b) = (if length b = 1 \<and> b ! 0 \<le> 0x7F then Byte else String)"
| "val_kind (RUint i) = (if 0 < i \<and> i < 0x80 then Byte else String)"
| "val_kind (RBool b) = (if b then Byte else String)"
| "val_kind (RList vs) = List"

fun val_content :: "rlp_val \<Rightarrow> bytes" where
  "val_content (RBytes b) = b"
| "val_content (RUint i) = (if i = 0 then [] else putint i)"
| "val_content (RBool b) = (if b then [1] else [])"
| "val_content (RList vs) = concat (map rlp_enc vs)"

lemma putint_bytes_small:
  "i \<noteq> 0 \<Longrightarrow> length (putint i) = 1 \<and> putint i ! 0 \<le> 0x7F \<longleftrightarrow> 0 < i \<and> i < 0x80"
proof (cases "i < 0x80")
  case True
  assume "i \<noteq> 0"
  with True show ?thesis
    by (auto simp: putint_small word_le_nat_alt word_less_nat_alt unat_ucast_byte unat_gt_0)
next
  case False
  assume "i \<noteq> 0"
  have "uint_enc i = (0x80 + of_nat (length (putint i))) # putint i"
    using False by (simp add: uint_enc_large not_less)
  with \<open>i \<noteq> 0\<close> False show ?thesis
    by (auto simp: uint_enc_def string_enc_def)
qed

lemma length_putint_8: "length (putint i) \<le> 8"
  using intsize_bounds [of i] by (simp add: length_putint)

lemma Split_uint_enc:
  assumes "length rest < 2 ^ 62"
  shows "Split (uint_enc i @ rest) =
    Inr (if 0 < i \<and> i < 0x80 then Byte else String, if i = 0 then [] else putint i, rest)"
proof (cases "i = 0")
  case True
  then show ?thesis
    using Split_string_enc [of "[]" rest] assms by (simp add: uint_enc_def)
next
  case False
  have "length (putint i) < 2 ^ 62"
    using length_putint_8 [of i] by simp
  from Split_string_enc [OF this assms] False show ?thesis
    by (simp only: putint_bytes_small [OF False]) (simp add: uint_enc_def)
qed

lemma Split_rlp_enc:
  assumes "length (rlp_enc v) < 2 ^ 62" "length rest < 2 ^ 62"
  shows "Split (rlp_enc v @ rest) = Inr (val_kind v, val_content v, rest)"
proof (cases v)
  case (RBytes b)
  then show ?thesis using assms length_string_enc [of b] by (simp add: Split_string_enc)
next
  case (RUint i)
  then show ?thesis using assms by (simp add: Split_uint_enc)
next
  case (RBool b)
  then show ?thesis using assms by (simp add: Split_uint_enc putint_def byte_at_def)
next
  case (RList vs)
  then show ?thesis
    using assms length_list_enc [of "concat (map rlp_enc vs)"] by (simp add: Split_list_enc)
qed

lemma Split_canonical:
  assumes "Split buf = Inr (k, c, rest)" "length buf < 2 ^ 62"
  shows "buf = kind_enc k c @ rest"
proof -
  from assms(1) obtain ts cs where rk: "readKind buf = Inr (k, ts, cs)"
    and c: "c = take (unat (ts + cs) - unat ts) (drop (unat ts) buf)"
      "rest = drop (unat (ts + cs)) buf"
    by (auto simp: Split_def split: sum.splits)
  from readKind_canonical [OF rk assms(2)] obtain h d r where
    d: "buf = h @ d @ r" "length h = unat ts" "length d = unat cs" "h @ d = kind_enc k d" by auto
  have "unat (ts + cs) = length h + length d"
    using d assms(2) by (simp add: unat_add_u64)
  with c d show ?thesis by (metis append_assoc append_eq_conv_conj add_diff_cancel_left'
        length_append)
qed





lemma readKind_advance:
  assumes rk: "readKind buf = Inr (k, ts, cs)" and len: "length buf < 2 ^ 62"
  shows "0 < unat (ts + cs) \<and> unat (ts + cs) \<le> length buf"
proof -
  from readKind_canonical [OF rk len] obtain h c rest where
    d: "buf = h @ c @ rest" "length h = unat ts" "length c = unat cs" "h @ c = kind_enc k c" by auto
  have "kind_enc k c \<noteq> []"
    by (auto simp: kind_enc_def string_enc_def list_enc_def puthead_def Let_def)
  then have "0 < length (h @ c)" using d(4) by simp
  with d(1-3) len show ?thesis by (simp add: unat_add_u64)
qed

lemma CountValues_loop_total:
  "length b \<le> n \<Longrightarrow> length b < 2 ^ 62 \<Longrightarrow> CountValues_loop n b i \<noteq> None"
proof (induction n b i rule: CountValues_loop.induct)
  case (3 n x b i)
  then show ?case
    using readKind_advance [of "x # b"] by (fastforce split: sum.splits)
qed auto

lemma readKind_Nil: "readKind [] = Inl ErrUnexpectedEOF"
  by (simp add: readKind_def)

lemma CountValues_loop_enc:
  "length (concat (map rlp_enc vs)) < 2 ^ 62 \<Longrightarrow> length (concat (map rlp_enc vs)) \<le> n \<Longrightarrow>
   CountValues_loop n (concat (map rlp_enc vs)) i = Some (Inr (i + length vs))"
proof (induction vs arbitrary: n i)
  case (Cons v vs)
  let ?r = "concat (map rlp_enc vs)"
  have sp: "Split (rlp_enc v @ ?r) = Inr (val_kind v, val_content v, ?r)"
    using Cons.prems by (intro Split_rlp_enc) auto
  then obtain ts cs where rk: "readKind (rlp_enc v @ ?r) = Inr (val_kind v, ts, cs)"
    and dr: "drop (unat (ts + cs)) (rlp_enc v @ ?r) = ?r"
    by (auto simp: Split_def split: sum.splits)
  have adv: "0 < unat (ts + cs)" using readKind_advance [OF rk] Cons.prems by simp
  have ne: "rlp_enc v @ ?r \<noteq> []" using rk by (metis readKind_Nil sum.distinct(1))
  have "length ?r = length (rlp_enc v @ ?r) - unat (ts + cs)" by (metis dr length_drop)
  with adv ne have "length ?r < length (rlp_enc v @ ?r)" by (metis diff_less length_greater_0_conv)
  with ne obtain x b m where x: "rlp_enc v @ ?r = x # b" and n: "n = Suc m" "length ?r \<le> m"
    using Cons.prems by (cases n; cases "rlp_enc v @ ?r") auto
  moreover have "length ?r < 2 ^ 62" using Cons.prems by simp
  ultimately show ?case
    using Cons.IH [of m "i + 1"] rk dr by simp
qed simp



lemma length_string_enc_size:
  assumes "length b < 2 ^ 62"
  shows "unat (BytesSize b) = length (string_enc b)"
proof (cases "length b \<le> 1")
  case True
  then show ?thesis
    by (cases b) (auto simp: BytesSize_def string_enc_def puthead_def)
next
  case False
  then obtain x y zs where b: "b = x # y # zs" by (cases b; cases "tl b") auto
  have "headsize (of_nat (length b)) \<le> 9"
    using intsize_bounds [of "of_nat (length b)"] by (simp add: headsize_def)
  with assms have "unat (of_nat (headsize (of_nat (length b)) + length b) :: u64) =
      headsize (of_nat (length b)) + length b"
    by (intro unat_of_nat_u64) simp
  with b show ?thesis by (simp add: BytesSize_def string_enc_def length_puthead)
qed

text \<open>
  C23: the encoder buffer, which keeps list headers apart from the string data and merges them
  when the output is made, produces the direct recursive RLP encoding of every value built
  from byte strings, integers, booleans and lists; in particular the output slice is exactly
  as long as \<open>size()\<close> says, and no slice expression of \<open>copyTo\<close> is out of range.
\<close>

theorem rlp_encoder_buffer_correct:
  assumes "length (rlp_enc v) < 2 ^ 63"
  shows "EncodeToBytes v = Some (rlp_enc v)"
  using assms by (rule EncodeToBytes_rlp_enc)

theorem rlp_encoder_buffer_correct_witness:
  "EncodeToBytes (RList [RBytes [0x63, 0x61, 0x74], RList [RUint 1024], RBool True]) =
     Some [0xC9, 0x83, 0x63, 0x61, 0x74, 0xC3, 0x82, 0x04, 0x00, 0x01]"
  using rlp_encoder_buffer_correct
      [of "RList [RBytes [0x63, 0x61, 0x74], RList [RUint 1024], RBool True]"]
  by (simp add: list_enc_def string_enc_def uint_enc_def puthead_def putint_def byte_at_def
      Let_def)

text \<open>
  C24: decoding inverts encoding. Whatever value the encoder writes in front of other bytes,
  \<open>Split\<close> returns its kind, its content and exactly those other bytes.
\<close>

theorem rlp_split_encoded:
  assumes "EncodeToBytes v = Some bs" "length (rlp_enc v) < 2 ^ 62" "length rest < 2 ^ 62"
  shows "Split (bs @ rest) = Inr (val_kind v, val_content v, rest)"
  using assms EncodeToBytes_rlp_enc [of v] Split_rlp_enc [of v rest] by simp

theorem rlp_split_encoded_witness:
  "Split ([0xC3, 0x82, 0x04, 0x00] @ [0x55]) = Inr (List, [0x82, 0x04, 0x00], [0x55])"
proof -
  let ?v = "RList [RUint 1024]"
  have e: "rlp_enc ?v = [0xC3, 0x82, 0x04, 0x00]"
    by (simp add: list_enc_def string_enc_def uint_enc_def puthead_def putint_def byte_at_def
        Let_def)
  have "EncodeToBytes ?v = Some [0xC3, 0x82, 0x04, 0x00]"
    using EncodeToBytes_rlp_enc [of ?v] by (simp add: e del: rlp_enc.simps)
  from rlp_split_encoded [OF this, of "[0x55]"] e show ?thesis
    by (simp add: string_enc_def uint_enc_def puthead_def putint_def byte_at_def Let_def)
qed

text \<open>
  C25: the splitting decoder accepts canonical encodings only: an input it splits into a kind,
  a content and a rest is the one encoding of that content followed by the rest (so no two
  byte strings decode to the same value).
\<close>

theorem rlp_split_canonical:
  assumes "Split buf = Inr (k, c, rest)" "length buf < 2 ^ 62"
  shows "buf = kind_enc k c @ rest"
  using assms by (rule Split_canonical)

theorem rlp_split_canonical_witness:
  "[0x82, 0x04, 0x00, 0x7F] = kind_enc String [0x04, 0x00] @ ([0x7F] :: bytes)"
proof -
  have "Split [0x82, 0x04, 0x00, 0x7F] = Inr (String, [0x04, 0x00], [0x7F])"
    by (simp add: Split_def readKind_def Let_def)
  from rlp_split_canonical [OF this] show ?thesis by simp
qed



text \<open>
  C27: \<open>CountValues\<close> ends on every input, and on a sequence of encoded values it returns their
  number.
\<close>

theorem rlp_count_values:
  assumes "length b < 2 ^ 62"
  shows "CountValues b \<noteq> None \<and>
    (\<forall>vs. b = concat (map rlp_enc vs) \<longrightarrow> CountValues b = Some (Inr (length vs)))"
  using assms CountValues_loop_total [of b "length b" 0]
    CountValues_loop_enc [of _ "length b" 0] by (auto simp: CountValues_def)

theorem rlp_count_values_witness:
  "CountValues [0xC0, 0x05, 0x82, 0x04, 0x00] = Some (Inr 3)"
proof -
  have "[0xC0, 0x05, 0x82, 0x04, 0x00] = concat (map rlp_enc [RList [], RUint 5, RUint 1024])"
    by (simp add: list_enc_def string_enc_def uint_enc_def puthead_def putint_def byte_at_def
        Let_def)
  from conjunct2 [OF rlp_count_values, rule_format, OF _ this] show ?thesis by simp
qed

end
