(* ===== verification/Transactions.thy ===== *)
theory Transactions
  imports Geth_Prelude
begin

text \<open>
  Transactions (\<^verbatim>\<open>core/types/transaction.go\<close>, \<^verbatim>\<open>tx_legacy.go\<close>, \<^verbatim>\<open>tx_access_list.go\<close>,
  \<^verbatim>\<open>tx_dynamic_fee.go\<close>): the three kinds of transaction data with the methods of \<^verbatim>\<open>TxData\<close>, and
  the fee arithmetic of \<^verbatim>\<open>Transaction\<close>. Every transaction is made by \<^verbatim>\<open>NewTx\<close> or by decoding, which
  leave no \<^verbatim>\<open>*big.Int\<close> field nil, so these are integers; the caches of hash, size and sender are
  not part of the value. The hash of a transaction and the recovery of its sender are arguments
  where they are used.
\<close>

section \<open>Transaction data\<close>

type_synonym AccessTuple = "Address \<times> Hash list"

type_synonym AccessList = "AccessTuple list"

definition StorageKeys :: "AccessList \<Rightarrow> nat" where
  "StorageKeys al = sum_list (map (\<lambda>tuple. length (snd tuple)) al)"

record LegacyTx =
  lt_Nonce :: u64
  lt_GasPrice :: int
  lt_Gas :: u64
  lt_To :: "Address option"
  lt_Value :: int
  lt_Data :: bytes
  lt_V :: int
  lt_R :: int
  lt_S :: int

record AccessListTx =
  at_ChainID :: int
  at_Nonce :: u64
  at_GasPrice :: int
  at_Gas :: u64
  at_To :: "Address option"
  at_Value :: int
  at_Data :: bytes
  at_AccessList :: AccessList
  at_V :: int
  at_R :: int
  at_S :: int

record DynamicFeeTx =
  dt_ChainID :: int
  dt_Nonce :: u64
  dt_GasTipCap :: int
  dt_GasFeeCap :: int
  dt_Gas :: u64
  dt_To :: "Address option"
  dt_Value :: int
  dt_Data :: bytes
  dt_AccessList :: AccessList
  dt_V :: int
  dt_R :: int
  dt_S :: int

datatype TxData = Legacy LegacyTx | AccessListed AccessListTx | DynamicFee DynamicFeeTx

fun txType :: "TxData \<Rightarrow> byte" where
  "txType (Legacy _) = 0"
| "txType (AccessListed _) = 1"
| "txType (DynamicFee _) = 2"

fun tx_accessList :: "TxData \<Rightarrow> AccessList" where
  "tx_accessList (Legacy _) = []"
| "tx_accessList (AccessListed t) = at_AccessList t"
| "tx_accessList (DynamicFee t) = dt_AccessList t"

fun tx_data :: "TxData \<Rightarrow> bytes" where
  "tx_data (Legacy t) = lt_Data t"
| "tx_data (AccessListed t) = at_Data t"
| "tx_data (DynamicFee t) = dt_Data t"

fun tx_gas :: "TxData \<Rightarrow> u64" where
  "tx_gas (Legacy t) = lt_Gas t"
| "tx_gas (AccessListed t) = at_Gas t"
| "tx_gas (DynamicFee t) = dt_Gas t"

fun tx_gasPrice :: "TxData \<Rightarrow> int" where
  "tx_gasPrice (Legacy t) = lt_GasPrice t"
| "tx_gasPrice (AccessListed t) = at_GasPrice t"
| "tx_gasPrice (DynamicFee t) = dt_GasFeeCap t"

fun tx_gasTipCap :: "TxData \<Rightarrow> int" where
  "tx_gasTipCap (Legacy t) = lt_GasPrice t"
| "tx_gasTipCap (AccessListed t) = at_GasPrice t"
| "tx_gasTipCap (DynamicFee t) = dt_GasTipCap t"

fun tx_gasFeeCap :: "TxData \<Rightarrow> int" where
  "tx_gasFeeCap (Legacy t) = lt_GasPrice t"
| "tx_gasFeeCap (AccessListed t) = at_GasPrice t"
| "tx_gasFeeCap (DynamicFee t) = dt_GasFeeCap t"

fun tx_value :: "TxData \<Rightarrow> int" where
  "tx_value (Legacy t) = lt_Value t"
| "tx_value (AccessListed t) = at_Value t"
| "tx_value (DynamicFee t) = dt_Value t"

fun tx_nonce :: "TxData \<Rightarrow> u64" where
  "tx_nonce (Legacy t) = lt_Nonce t"
| "tx_nonce (AccessListed t) = at_Nonce t"
| "tx_nonce (DynamicFee t) = dt_Nonce t"

fun tx_to :: "TxData \<Rightarrow> Address option" where
  "tx_to (Legacy t) = lt_To t"
| "tx_to (AccessListed t) = at_To t"
| "tx_to (DynamicFee t) = dt_To t"

text \<open>The price paid per unit of gas in a block with the given base fee.\<close>

fun effectiveGasPrice :: "TxData \<Rightarrow> int option \<Rightarrow> int" where
  "effectiveGasPrice (Legacy t) baseFee = lt_GasPrice t"
| "effectiveGasPrice (AccessListed t) baseFee = at_GasPrice t"
| "effectiveGasPrice (DynamicFee t) baseFee =
     (case baseFee of
        None \<Rightarrow> dt_GasFeeCap t
      | Some bf \<Rightarrow>
          let tip = dt_GasFeeCap t - bf;
              tip = (if dt_GasTipCap t < tip then dt_GasTipCap t else tip)
          in tip + bf)"

section \<open>Transactions\<close>

record Transaction =
  inner :: TxData
  tx_time :: int

definition BigMin :: "int \<Rightarrow> int \<Rightarrow> int" where
  "BigMin x y = (if y < x then y else x)"

definition Cost :: "Transaction \<Rightarrow> int" where
  "Cost tx = tx_gasPrice (inner tx) * uint (tx_gas (inner tx)) + tx_value (inner tx)"

text \<open>\<open>Cmp\<close> of two integers.\<close>

definition big_Cmp :: "int \<Rightarrow> int \<Rightarrow> int" where
  "big_Cmp x y = (if x < y then -1 else if y < x then 1 else 0)"

definition GasFeeCapCmp :: "Transaction \<Rightarrow> Transaction \<Rightarrow> int" where
  "GasFeeCapCmp tx other = big_Cmp (tx_gasFeeCap (inner tx)) (tx_gasFeeCap (inner other))"

definition GasTipCapCmp :: "Transaction \<Rightarrow> Transaction \<Rightarrow> int" where
  "GasTipCapCmp tx other = big_Cmp (tx_gasTipCap (inner tx)) (tx_gasTipCap (inner other))"

text \<open>The effective tip, with whether the error \<^verbatim>\<open>ErrGasFeeCapTooLow\<close> accompanies it.\<close>

definition EffectiveGasTip :: "Transaction \<Rightarrow> int option \<Rightarrow> int \<times> bool" where
  "EffectiveGasTip tx baseFee =
     (case baseFee of
        None \<Rightarrow> (tx_gasTipCap (inner tx), False)
      | Some bf \<Rightarrow>
          let gasFeeCap = tx_gasFeeCap (inner tx);
              err = (big_Cmp gasFeeCap bf = -1)
          in (BigMin (tx_gasTipCap (inner tx)) (gasFeeCap - bf), err))"

definition EffectiveGasTipValue :: "Transaction \<Rightarrow> int option \<Rightarrow> int" where
  "EffectiveGasTipValue tx baseFee = fst (EffectiveGasTip tx baseFee)"

definition EffectiveGasTipCmp :: "Transaction \<Rightarrow> Transaction \<Rightarrow> int option \<Rightarrow> int" where
  "EffectiveGasTipCmp tx other baseFee =
     (case baseFee of
        None \<Rightarrow> GasTipCapCmp tx other
      | Some bf \<Rightarrow> big_Cmp (EffectiveGasTipValue tx baseFee) (EffectiveGasTipValue other baseFee))"

text \<open>Differences of lists of transactions and hashes; the hash of a transaction is an argument.\<close>

definition HashDifference :: "Hash list \<Rightarrow> Hash list \<Rightarrow> Hash list" where
  "HashDifference a b = filter (\<lambda>h. h \<notin> set b) a"

definition TxDifference :: "(Transaction \<Rightarrow> Hash) \<Rightarrow> Transaction list \<Rightarrow> Transaction list \<Rightarrow> Transaction list" where
  "TxDifference tx_Hash a b = filter (\<lambda>tx. tx_Hash tx \<notin> set (map tx_Hash b)) a"

section \<open>Fees\<close>

lemma BigMin_min: "BigMin x y = min x y"
  by (simp add: BigMin_def min_def)

lemma big_Cmp_iff:
  "big_Cmp x y = -1 \<longleftrightarrow> x < y" "big_Cmp x y = 0 \<longleftrightarrow> x = y" "big_Cmp x y = 1 \<longleftrightarrow> y < x"
  "0 < big_Cmp x y \<longleftrightarrow> y < x" "big_Cmp x y < 0 \<longleftrightarrow> x < y"
  by (auto simp: big_Cmp_def)

lemma EffectiveGasTip_Some:
  "EffectiveGasTip tx (Some bf) =
     (min (tx_gasTipCap (inner tx)) (tx_gasFeeCap (inner tx) - bf), tx_gasFeeCap (inner tx) < bf)"
  by (simp add: EffectiveGasTip_def BigMin_min big_Cmp_iff Let_def)

end
