(* ===== verification/Access_List.thy ===== *)
theory Access_List
  imports Geth_Prelude
begin

text \<open>
  The per-transaction access list (\<^verbatim>\<open>core/state/access_list.go\<close>, EIP-2929) and the transient
  storage (\<^verbatim>\<open>core/state/transient_storage.go\<close>, EIP-1153). The access list is an address map
  into a growing list of slot sets; the theory shows that it implements a pair of sets, and
  that the deletions the journal performs are exact inverses of the additions.
\<close>

section \<open>The access list\<close>

record accessList =
  addresses :: "Address \<rightharpoonup> int"
  slots :: "Hash set list"

definition newAccessList :: accessList where
  "newAccessList = \<lparr>addresses = Map.empty, slots = []\<rparr>"

definition ContainsAddress :: "accessList \<Rightarrow> Address \<Rightarrow> bool" where
  "ContainsAddress al a \<longleftrightarrow> addresses al a \<noteq> None"

definition Contains :: "accessList \<Rightarrow> Address \<Rightarrow> Hash \<Rightarrow> bool \<times> bool" where
  "Contains al a slot =
     (case addresses al a of
        None \<Rightarrow> (False, False)
      | Some idx \<Rightarrow>
          if idx = -1 then (True, False)
          else (True, slot \<in> slots al ! nat idx))"

definition al_Copy :: "accessList \<Rightarrow> accessList" where
  "al_Copy al = \<lparr>addresses = addresses al, slots = map (\<lambda>m. m) (slots al)\<rparr>"

definition AddAddress :: "accessList \<Rightarrow> Address \<Rightarrow> accessList \<times> bool" where
  "AddAddress al a =
     (if addresses al a \<noteq> None then (al, False)
      else (al\<lparr>addresses := (addresses al)(a \<mapsto> -1)\<rparr>, True))"

definition AddSlot :: "accessList \<Rightarrow> Address \<Rightarrow> Hash \<Rightarrow> accessList \<times> bool \<times> bool" where
  "AddSlot al a slot =
     (let addrPresent = (addresses al a \<noteq> None)
      in if \<not> addrPresent \<or> addresses al a = Some (-1) then
           (al\<lparr>addresses := (addresses al)(a \<mapsto> int (length (slots al))),
               slots := slots al @ [{slot}]\<rparr>, \<not> addrPresent, True)
         else
           (let idx = nat (the (addresses al a));
                slotmap = slots al ! idx
            in if slot \<notin> slotmap then
                 (al\<lparr>slots := (slots al)[idx := insert slot slotmap]\<rparr>, False, True)
               else (al, False, False)))"

text \<open>\<^term>\<open>None\<close> is the panic, explicit or by an index out of range (\<open>idx\<close> is -1).\<close>

definition DeleteSlot :: "accessList \<Rightarrow> Address \<Rightarrow> Hash \<Rightarrow> accessList option" where
  "DeleteSlot al a slot =
     (case addresses al a of
        None \<Rightarrow> None
      | Some idx \<Rightarrow>
          if idx < 0 \<or> int (length (slots al)) \<le> idx then None
          else
            (let slotmap = slots al ! nat idx - {slot};
                 al1 = al\<lparr>slots := (slots al)[nat idx := slotmap]\<rparr>
             in Some (if slotmap = {}
                      then al1\<lparr>slots := take (nat idx) (slots al1),
                               addresses := (addresses al1)(a \<mapsto> -1)\<rparr>
                      else al1)))"

definition DeleteAddress :: "accessList \<Rightarrow> Address \<Rightarrow> accessList" where
  "DeleteAddress al a = al\<lparr>addresses := (addresses al)(a := None)\<rparr>"

section \<open>Invariant and abstraction\<close>

definition al_inv :: "accessList \<Rightarrow> bool" where
  "al_inv al \<longleftrightarrow>
     (\<forall>a i. addresses al a = Some i \<longrightarrow> i = -1 \<or> 0 \<le> i \<and> i < int (length (slots al))) \<and>
     (\<forall>a b i. addresses al a = Some i \<longrightarrow> addresses al b = Some i \<longrightarrow> 0 \<le> i \<longrightarrow> a = b) \<and>
     (\<forall>s \<in> set (slots al). s \<noteq> {})"

definition warm_addresses :: "accessList \<Rightarrow> Address set" where
  "warm_addresses al = dom (addresses al)"

definition warm_slots :: "accessList \<Rightarrow> (Address \<times> Hash) set" where
  "warm_slots al =
     {(a, k). \<exists>i. addresses al a = Some i \<and> i \<noteq> -1 \<and> k \<in> slots al ! nat i}"

lemma al_inv_new: "al_inv newAccessList"
  by (simp add: al_inv_def newAccessList_def)

lemma al_inv_bounds:
  "al_inv al \<Longrightarrow> addresses al a = Some i \<Longrightarrow> i \<noteq> -1 \<Longrightarrow> 0 \<le> i \<and> nat i < length (slots al)"
  unfolding al_inv_def by (metis nat_less_iff)

lemma al_inv_inj:
  "al_inv al \<Longrightarrow> addresses al a = Some i \<Longrightarrow> addresses al b = Some j \<Longrightarrow> i \<noteq> -1 \<Longrightarrow> j \<noteq> -1 \<Longrightarrow>
   nat i = nat j \<Longrightarrow> a = b"
  using al_inv_bounds [of al a i] al_inv_bounds [of al b j]
  by (auto simp: al_inv_def eq_nat_nat_iff)

lemma al_inv_AddAddress: "al_inv al \<Longrightarrow> al_inv (fst (AddAddress al a))"
  by (auto simp: AddAddress_def al_inv_def)

lemma al_inv_AddSlot: "al_inv al \<Longrightarrow> al_inv (fst (AddSlot al a k))"
proof -
  assume inv: "al_inv al"
  show ?thesis
  proof (cases "addresses al a = None \<or> addresses al a = Some (-1)")
    case True
    let ?al = "al\<lparr>addresses := (addresses al)(a \<mapsto> int (length (slots al))),
        slots := slots al @ [{k}]\<rparr>"
    have old: "i = -1 \<or> 0 \<le> i \<and> i < int (length (slots al))" if "addresses al b = Some i" for b i
      using inv that by (auto simp: al_inv_def)
    have "al_inv ?al"
      unfolding al_inv_def
    proof (intro conjI allI impI)
      fix b i assume "addresses ?al b = Some i"
      then show "i = -1 \<or> 0 \<le> i \<and> i < int (length (slots ?al))"
        using old [of b i] by (auto split: if_splits)
    next
      fix b c i assume "addresses ?al b = Some i" "addresses ?al c = Some i" "0 \<le> i"
      then show "b = c"
        using old [of b i] old [of c i] inv by (auto simp: al_inv_def split: if_splits)
    next
      show "\<forall>s \<in> set (slots ?al). s \<noteq> {}" using inv by (auto simp: al_inv_def)
    qed
    with True show ?thesis by (auto simp: AddSlot_def)
  next
    case False
    then obtain i where i: "addresses al a = Some i" "i \<noteq> -1" by auto
    with inv al_inv_bounds [OF inv i] show ?thesis
      by (auto simp: AddSlot_def Let_def al_inv_def dest: set_update_subset_insert [THEN subsetD])
  qed
qed

lemma warm_addresses_simps:
  "warm_addresses newAccessList = {}"
  "warm_addresses (fst (AddAddress al a)) = insert a (warm_addresses al)"
  "warm_addresses (fst (AddSlot al a k)) = insert a (warm_addresses al)"
  by (auto simp: warm_addresses_def newAccessList_def AddAddress_def AddSlot_def Let_def)

lemma warm_slots_new: "warm_slots newAccessList = {}"
  by (simp add: warm_slots_def newAccessList_def)

lemma warm_slots_AddAddress: "warm_slots (fst (AddAddress al a)) = warm_slots al"
  by (auto simp: warm_slots_def AddAddress_def split: if_splits)

lemma warm_slots_iff:
  "(a, k) \<in> warm_slots al \<longleftrightarrow>
   (case addresses al a of None \<Rightarrow> False | Some i \<Rightarrow> i \<noteq> -1 \<and> k \<in> slots al ! nat i)"
  by (simp add: warm_slots_def split: option.splits)

lemma warm_slots_AddSlot:
  assumes inv: "al_inv al"
  shows "warm_slots (fst (AddSlot al a k)) = insert (a, k) (warm_slots al)"
proof (cases "addresses al a = None \<or> addresses al a = Some (-1)")
  case True
  have "(b, l) \<in> warm_slots (fst (AddSlot al a k)) \<longleftrightarrow> (b, l) \<in> insert (a, k) (warm_slots al)" for b l
    using True al_inv_bounds [OF inv, of b]
    by (cases "b = a")
      (auto simp: AddSlot_def warm_slots_iff nth_append split: option.splits)
  then show ?thesis by auto
next
  case False
  then obtain i where i: "addresses al a = Some i" "i \<noteq> -1" by auto
  have n: "nat i < length (slots al)" using al_inv_bounds [OF inv i] by simp
  have "(b, l) \<in> warm_slots (fst (AddSlot al a k)) \<longleftrightarrow> (b, l) \<in> insert (a, k) (warm_slots al)" for b l
    using i n al_inv_inj [OF inv, of b _ a i]
    by (cases "b = a")
      (auto simp: AddSlot_def Let_def warm_slots_iff nth_list_update split: option.splits)
  then show ?thesis by auto
qed

lemma Contains_warm: "Contains al a k = (a \<in> warm_addresses al, (a, k) \<in> warm_slots al)"
  by (auto simp: Contains_def warm_addresses_def warm_slots_def split: option.splits)

lemma ContainsAddress_warm: "ContainsAddress al a \<longleftrightarrow> a \<in> warm_addresses al"
  by (auto simp: ContainsAddress_def warm_addresses_def)

lemma AddAddress_changed: "snd (AddAddress al a) \<longleftrightarrow> a \<notin> warm_addresses al"
  by (auto simp: AddAddress_def warm_addresses_def)

lemma AddSlot_changed:
  "snd (AddSlot al a k) = (a \<notin> warm_addresses al, (a, k) \<notin> warm_slots al)"
  by (auto simp: AddSlot_def Let_def warm_addresses_def warm_slots_def)

section \<open>Deletions undo additions\<close>

lemma DeleteAddress_undoes: "AddAddress al a = (al', True) \<Longrightarrow> DeleteAddress al' a = al"
  by (auto simp: AddAddress_def DeleteAddress_def fun_upd_idem split: if_splits)

lemma DeleteSlot_undoes:
  assumes inv: "al_inv al" and add: "AddSlot al a k = (al', ac, True)"
  shows "\<exists>al1. DeleteSlot al' a k = Some al1 \<and>
    (if ac then DeleteAddress al1 a = al else al1 = al)"
proof (cases "addresses al a = None \<or> addresses al a = Some (-1)")
  case True
  with add show ?thesis
    by (auto simp: AddSlot_def Let_def DeleteSlot_def DeleteAddress_def fun_upd_idem)
next
  case False
  then obtain i where i: "addresses al a = Some i" "i \<noteq> -1" by auto
  from al_inv_bounds [OF inv i] have n: "0 \<le> i" "nat i < length (slots al)" by auto
  let ?m = "slots al ! nat i"
  have ne: "?m \<noteq> {}" using inv n by (auto simp: al_inv_def)
  from add i have al': "al' = al\<lparr>slots := (slots al)[nat i := insert k ?m]\<rparr>" "k \<notin> ?m" "\<not> ac"
    by (auto simp: AddSlot_def Let_def split: if_splits)
  with i n ne show ?thesis
    by (auto simp: DeleteSlot_def Let_def insert_Diff_if)
qed

section \<open>The access list as a pair of sets\<close>

text \<open>
  What the gas rules and \<^verbatim>\<open>StateDB.Prepare\<close> rely on: two growing sets, queries that read
  them, and change flags that tell whether an addition was new.
\<close>

locale access_sets =
  fixes inv :: "'al \<Rightarrow> bool"
    and addrs :: "'al \<Rightarrow> Address set"
    and pairs :: "'al \<Rightarrow> (Address \<times> Hash) set"
    and add_addr :: "'al \<Rightarrow> Address \<Rightarrow> 'al \<times> bool"
    and add_slot :: "'al \<Rightarrow> Address \<Rightarrow> Hash \<Rightarrow> 'al \<times> bool \<times> bool"
    and contains :: "'al \<Rightarrow> Address \<Rightarrow> Hash \<Rightarrow> bool \<times> bool"
  assumes inv_add_addr: "inv al \<Longrightarrow> inv (fst (add_addr al a))"
    and inv_add_slot: "inv al \<Longrightarrow> inv (fst (add_slot al a k))"
    and addrs_add_addr: "addrs (fst (add_addr al a)) = insert a (addrs al)"
    and pairs_add_addr: "pairs (fst (add_addr al a)) = pairs al"
    and addrs_add_slot: "addrs (fst (add_slot al a k)) = insert a (addrs al)"
    and pairs_add_slot: "inv al \<Longrightarrow> pairs (fst (add_slot al a k)) = insert (a, k) (pairs al)"
    and changed_addr: "snd (add_addr al a) \<longleftrightarrow> a \<notin> addrs al"
    and changed_slot: "snd (add_slot al a k) = (a \<notin> addrs al, (a, k) \<notin> pairs al)"
    and contains_sets: "contains al a k = (a \<in> addrs al, (a, k) \<in> pairs al)"
begin

definition add_addrs :: "Address list \<Rightarrow> 'al \<Rightarrow> 'al" where
  "add_addrs as al = foldl (\<lambda>al a. fst (add_addr al a)) al as"

definition add_tuple :: "'al \<Rightarrow> Address \<times> Hash list \<Rightarrow> 'al" where
  "add_tuple al t =
     foldl (\<lambda>al k. fst (add_slot al (fst t) k)) (fst (add_addr al (fst t))) (snd t)"

lemma add_slots_sets:
  "inv al \<Longrightarrow> inv (foldl (\<lambda>al k. fst (add_slot al a k)) al ks) \<and>
   addrs (foldl (\<lambda>al k. fst (add_slot al a k)) al ks) =
     addrs al \<union> (if ks = [] then {} else {a}) \<and>
   pairs (foldl (\<lambda>al k. fst (add_slot al a k)) al ks) = pairs al \<union> {a} \<times> set ks"
  by (induction ks arbitrary: al) (auto simp: inv_add_slot addrs_add_slot pairs_add_slot)

lemma add_addrs_sets:
  "inv al \<Longrightarrow> inv (add_addrs as al) \<and> addrs (add_addrs as al) = addrs al \<union> set as \<and>
   pairs (add_addrs as al) = pairs al"
  unfolding add_addrs_def
  by (induction as arbitrary: al) (auto simp: inv_add_addr addrs_add_addr pairs_add_addr)

lemma add_tuple_sets:
  "inv al \<Longrightarrow> inv (add_tuple al (a, ks)) \<and>
   addrs (add_tuple al (a, ks)) = insert a (addrs al) \<and>
   pairs (add_tuple al (a, ks)) = pairs al \<union> {a} \<times> set ks"
  using add_slots_sets [of "fst (add_addr al a)" a ks]
  by (auto simp: add_tuple_def inv_add_addr addrs_add_addr pairs_add_addr)

lemma add_tuples_sets:
  "inv al \<Longrightarrow> inv (foldl add_tuple al ts) \<and>
   addrs (foldl add_tuple al ts) = addrs al \<union> fst ` set ts \<and>
   pairs (foldl add_tuple al ts) = pairs al \<union> {(a, k). \<exists>ks. (a, ks) \<in> set ts \<and> k \<in> set ks}"
proof (induction ts arbitrary: al)
  case (Cons t ts)
  obtain a ks where t: "t = (a, ks)" by (cases t)
  note step = add_tuple_sets [OF Cons.prems, of a ks]
  with Cons.IH [of "add_tuple al t"] show ?case by (auto simp: t)
qed simp

lemma contains_after_add:
  "inv al \<Longrightarrow> contains (fst (add_slot al a k)) b l =
     (b = a \<or> fst (contains al b l), (b, l) = (a, k) \<or> snd (contains al b l))"
  by (simp add: contains_sets addrs_add_slot pairs_add_slot)

end

interpretation alist: access_sets al_inv warm_addresses warm_slots AddAddress AddSlot Contains
  by unfold_locales
    (simp_all add: al_inv_AddAddress al_inv_AddSlot warm_addresses_simps warm_slots_AddAddress
      warm_slots_AddSlot AddAddress_changed AddSlot_changed Contains_warm)

section \<open>Transient storage\<close>

type_synonym Storage = "Hash \<rightharpoonup> Hash"

type_synonym transientStorage = "Address \<rightharpoonup> Storage"

definition newTransientStorage :: transientStorage where
  "newTransientStorage = Map.empty"

definition ts_Set :: "transientStorage \<Rightarrow> Address \<Rightarrow> Hash \<Rightarrow> Hash \<Rightarrow> transientStorage" where
  "ts_Set t addr key val =
     (let t1 = (if t addr = None then t(addr \<mapsto> Map.empty) else t)
      in t1(addr \<mapsto> (the (t1 addr))(key \<mapsto> val)))"

text \<open>Reading an absent key of a Go map gives the zero value.\<close>

definition ts_Get :: "transientStorage \<Rightarrow> Address \<Rightarrow> Hash \<Rightarrow> Hash" where
  "ts_Get t addr key =
     (case t addr of
        None \<Rightarrow> 0
      | Some val \<Rightarrow> (case val key of None \<Rightarrow> 0 | Some v \<Rightarrow> v))"

lemma ts_Get_new: "ts_Get newTransientStorage a k = 0"
  by (simp add: ts_Get_def newTransientStorage_def)

lemma ts_Get_Set:
  "ts_Get (ts_Set t a k v) b l = (if a = b \<and> k = l then v else ts_Get t b l)"
  by (auto simp: ts_Get_def ts_Set_def Let_def split: option.splits)

lemma ts_Set_undone: "ts_Get (ts_Set (ts_Set t a k v) a k (ts_Get t a k)) = ts_Get t"
  by (intro ext) (simp add: ts_Get_Set)

section \<open>Properties\<close>

text \<open>
  C16: the access list with its indirection from addresses to slot sets behaves as a set of
  addresses and a set of (address, slot) pairs: lookups are membership, additions insert and
  report whether they changed anything, the invariant is kept, and the deletions used by the
  journal (slot first, then address) restore exactly the list before the addition without
  panicking.
\<close>

theorem access_list_refines_sets:
  assumes "al_inv al"
  shows "Contains al a k = (a \<in> warm_addresses al, (a, k) \<in> warm_slots al) \<and>
    (\<forall>al' c. AddAddress al a = (al', c) \<longrightarrow>
       al_inv al' \<and> warm_addresses al' = insert a (warm_addresses al) \<and>
       warm_slots al' = warm_slots al \<and> c = (a \<notin> warm_addresses al) \<and>
       (c \<longrightarrow> DeleteAddress al' a = al)) \<and>
    (\<forall>al' ac sc. AddSlot al a k = (al', ac, sc) \<longrightarrow>
       al_inv al' \<and> warm_addresses al' = insert a (warm_addresses al) \<and>
       warm_slots al' = insert (a, k) (warm_slots al) \<and>
       ac = (a \<notin> warm_addresses al) \<and> sc = ((a, k) \<notin> warm_slots al) \<and>
       (sc \<longrightarrow> (\<exists>al1. DeleteSlot al' a k = Some al1 \<and>
          (if ac then DeleteAddress al1 a = al else al1 = al))))"
proof (intro conjI allI impI)
  show "Contains al a k = (a \<in> warm_addresses al, (a, k) \<in> warm_slots al)" by (rule Contains_warm)
  fix al' c assume "AddAddress al a = (al', c)"
  then show "al_inv al'" "warm_addresses al' = insert a (warm_addresses al)"
    "warm_slots al' = warm_slots al" "c = (a \<notin> warm_addresses al)"
    "c \<Longrightarrow> DeleteAddress al' a = al"
    using al_inv_AddAddress [OF assms, of a] warm_addresses_simps(2) [of al a]
      warm_slots_AddAddress [of al a] AddAddress_changed [of al a] DeleteAddress_undoes [of al a al']
    by auto
next
  fix al' ac sc assume g: "AddSlot al a k = (al', ac, sc)"
  then show "al_inv al'" "warm_addresses al' = insert a (warm_addresses al)"
    "warm_slots al' = insert (a, k) (warm_slots al)" "ac = (a \<notin> warm_addresses al)"
    "sc = ((a, k) \<notin> warm_slots al)"
    using al_inv_AddSlot [OF assms, of a k] warm_addresses_simps(3) [of al a k]
      warm_slots_AddSlot [OF assms, of a k] AddSlot_changed [of al a k] by simp_all
  show "\<exists>al1. DeleteSlot al' a k = Some al1 \<and> (if ac then DeleteAddress al1 a = al else al1 = al)" if sc
    using DeleteSlot_undoes [OF assms, of a k al' ac] g that by simp
qed

theorem access_list_refines_sets_witness:
  "\<exists>al' ac. AddSlot newAccessList 7 1 = (al', ac, True) \<and> warm_slots al' = {(7, 1)} \<and>
     (\<exists>al1. DeleteSlot al' 7 1 = Some al1 \<and> DeleteAddress al1 7 = newAccessList)"
proof -
  obtain al' ac sc where g: "AddSlot newAccessList 7 1 = (al', ac, sc)" by (metis prod_cases3)
  from access_list_refines_sets [OF al_inv_new, of 7 1, THEN conjunct2, THEN conjunct2] g
  show ?thesis by (auto simp: warm_addresses_simps warm_slots_new)
qed

end
