(* ===== verification/StateDB_Model.thy ===== *)
theory StateDB_Model
  imports Access_List RLP_Raw
begin

text \<open>
  The state database (\<^verbatim>\<open>core/state/statedb.go\<close>), its account objects
  (\<^verbatim>\<open>core/state/state_object.go\<close>) and its journal (\<^verbatim>\<open>core/state/journal.go\<close>). Objects and
  storage slots are loaded on first use and cached, so reads return the updated database
  as well; a Go method on an object returns the changed object, which the caller writes
  back. The tries, the code store and the flat snapshot are the interfaces of
  \<^verbatim>\<open>core/state/database.go\<close> and \<^verbatim>\<open>core/state/snapshot\<close>, given as records of functions; the
  trie prefetcher (a performance aid) is absent.
\<close>

section \<open>Data\<close>

text \<open>
  \<^verbatim>\<open>types.StateAccount\<close>. The nil code hash and the nil balance of the zero value
  \<^verbatim>\<open>StateAccount{}\<close> are written 0; \<open>newObject\<close> replaces them.
\<close>

record StateAccount =
  Nonce :: u64
  Balance :: int
  Root :: Hash
  CodeHash :: Hash

definition zeroAccount :: StateAccount where
  "zeroAccount = \<lparr>Nonce = 0, Balance = 0, Root = 0, CodeHash = 0\<rparr>"

record Log =
  log_Address :: Address
  log_Topics :: "Hash list"
  log_Data :: bytes
  log_BlockNumber :: u64
  log_TxHash :: Hash
  log_TxIndex :: u64
  log_BlockHash :: Hash
  log_Index :: u64
  log_Removed :: bool

datatype state_error =
    BackendError string
  | RLPError rlp_error
  | CodeError Hash state_error
  | CodeSizeError Hash state_error
  | AccountError Address state_error

text \<open>The interfaces behind the database; \<open>Keccak256Hash\<close> is the hash function of \<^verbatim>\<open>crypto\<close>.\<close>

record 'tr Database =
  Keccak256Hash :: "bytes \<Rightarrow> Hash"
  OpenTrie :: "Hash \<Rightarrow> state_error + 'tr"
  OpenStorageTrie :: "Hash \<Rightarrow> Hash \<Rightarrow> Hash \<Rightarrow> state_error + 'tr"
  ContractCode :: "Hash \<Rightarrow> Hash \<Rightarrow> state_error + bytes"
  ContractCodeSize :: "Hash \<Rightarrow> Hash \<Rightarrow> state_error + int"
  trie_GetAccount :: "'tr \<Rightarrow> Address \<Rightarrow> state_error + StateAccount option"
  trie_GetStorage :: "'tr \<Rightarrow> Address \<Rightarrow> bytes \<Rightarrow> state_error + bytes"

record slimAccount =
  slim_Nonce :: u64
  slim_Balance :: int
  slim_Root :: bytes
  slim_CodeHash :: bytes

record Snap =
  snap_Account :: "Hash \<Rightarrow> state_error + slimAccount option"
  snap_Storage :: "Hash \<Rightarrow> Hash \<Rightarrow> state_error + bytes"

text \<open>A nil \<open>code\<close> or \<open>trie\<close> is \<^term>\<open>None\<close>.\<close>

record 'tr stateObject =
  so_address :: Address
  so_addrHash :: Hash
  so_data :: StateAccount
  so_trie :: "'tr option"
  so_code :: "bytes option"
  originStorage :: Storage
  pendingStorage :: Storage
  dirtyStorage :: Storage
  dirtyCode :: bool
  suicided :: bool
  deleted :: bool

datatype 'tr journalEntry =
    createObjectChange Address
  | resetObjectChange "'tr stateObject" bool
  | suicideChange Address bool int
  | balanceChange Address int
  | nonceChange Address u64
  | storageChange Address Hash Hash
  | codeChange Address "bytes option" Hash
  | refundChange u64
  | addLogChange Hash
  | addPreimageChange Hash
  | touchChange Address
  | accessListAddAccountChange Address
  | accessListAddSlotChange Address Hash
  | transientStorageChange Address Hash Hash

record 'tr journal =
  entries :: "'tr journalEntry list"
  dirties :: "Address \<rightharpoonup> int"

record revision =
  rev_id :: nat
  journalIndex :: nat

record 'tr StateDB =
  sdb_db :: "'tr Database"
  sdb_trie :: 'tr
  originalRoot :: Hash
  sdb_snap :: "Snap option"
  snapAccounts :: "Hash \<rightharpoonup> bytes"
  snapStorage :: "Hash \<rightharpoonup> (Hash \<rightharpoonup> bytes)"
  stateObjects :: "Address \<rightharpoonup> 'tr stateObject"
  stateObjectsPending :: "Address set"
  stateObjectsDirty :: "Address set"
  stateObjectsDestruct :: "Address set"
  dbErr :: "state_error option"
  refund :: u64
  thash :: Hash
  txIndex :: int
  logs :: "Hash \<rightharpoonup> Log list"
  logSize :: u64
  preimages :: "Hash \<rightharpoonup> bytes"
  sdb_accessList :: accessList
  sdb_transient :: transientStorage
  sdb_journal :: "'tr journal"
  validRevisions :: "revision list"
  nextRevisionId :: nat

definition EmptyCodeHash :: "'tr Database \<Rightarrow> Hash" where
  "EmptyCodeHash db = Keccak256Hash db []"

definition ripemd :: Address where
  "ripemd = 3"

section \<open>The journal\<close>

definition newJournal :: "'tr journal" where
  "newJournal = \<lparr>entries = [], dirties = Map.empty\<rparr>"

fun dirtied :: "'tr journalEntry \<Rightarrow> Address option" where
  "dirtied (createObjectChange a) = Some a"
| "dirtied (resetObjectChange prev prevdestruct) = None"
| "dirtied (suicideChange a prev prevbalance) = Some a"
| "dirtied (balanceChange a prev) = Some a"
| "dirtied (nonceChange a prev) = Some a"
| "dirtied (storageChange a key prevalue) = Some a"
| "dirtied (codeChange a prevcode prevhash) = Some a"
| "dirtied (refundChange prev) = None"
| "dirtied (addLogChange txhash) = None"
| "dirtied (addPreimageChange h) = None"
| "dirtied (touchChange a) = Some a"
| "dirtied (accessListAddAccountChange a) = None"
| "dirtied (accessListAddSlotChange a slot) = None"
| "dirtied (transientStorageChange a key prevalue) = None"

definition dirty_count :: "'tr journal \<Rightarrow> Address \<Rightarrow> int" where
  "dirty_count j a = (case dirties j a of None \<Rightarrow> 0 | Some n \<Rightarrow> n)"

definition journal_dirty :: "Address \<Rightarrow> 'tr journal \<Rightarrow> 'tr journal" where
  "journal_dirty a j = j\<lparr>dirties := (dirties j)(a \<mapsto> dirty_count j a + 1)\<rparr>"

definition journal_append :: "'tr journalEntry \<Rightarrow> 'tr StateDB \<Rightarrow> 'tr StateDB" where
  "journal_append e s =
     (let j = (sdb_journal s)\<lparr>entries := entries (sdb_journal s) @ [e]\<rparr>
      in s\<lparr>sdb_journal := (case dirtied e of None \<Rightarrow> j | Some a \<Rightarrow> journal_dirty a j)\<rparr>)"

text \<open>Dropping the dirty mark of a reverted entry.\<close>

definition journal_undirty :: "'tr journalEntry \<Rightarrow> 'tr StateDB \<Rightarrow> 'tr StateDB" where
  "journal_undirty e s =
     (case dirtied e of
        None \<Rightarrow> s
      | Some a \<Rightarrow>
          (let n = dirty_count (sdb_journal s) a - 1
           in s\<lparr>sdb_journal := (sdb_journal s)\<lparr>dirties :=
                (if n = 0 then (dirties (sdb_journal s))(a := None)
                 else (dirties (sdb_journal s))(a \<mapsto> n))\<rparr>\<rparr>))"

section \<open>Opening a state\<close>

text \<open>\<open>snaps\<close> is the snapshot tree, as the function from a root to its layer.\<close>

definition state_New ::
  "Hash \<Rightarrow> 'tr Database \<Rightarrow> (Hash \<Rightarrow> Snap option) option \<Rightarrow> state_error + 'tr StateDB" where
  "state_New root db snaps =
     (case OpenTrie db root of
        Inl e \<Rightarrow> Inl e
      | Inr tr \<Rightarrow>
          Inr \<lparr>sdb_db = db, sdb_trie = tr, originalRoot = root,
               sdb_snap = (case snaps of None \<Rightarrow> None | Some snapshot \<Rightarrow> snapshot root),
               snapAccounts = Map.empty, snapStorage = Map.empty,
               stateObjects = Map.empty, stateObjectsPending = {}, stateObjectsDirty = {},
               stateObjectsDestruct = {}, dbErr = None, refund = 0, thash = 0, txIndex = 0,
               logs = Map.empty, logSize = 0, preimages = Map.empty,
               sdb_accessList = newAccessList, sdb_transient = newTransientStorage,
               sdb_journal = newJournal, validRevisions = [], nextRevisionId = 0\<rparr>)"

section \<open>Account objects\<close>

definition setError :: "state_error \<Rightarrow> 'tr StateDB \<Rightarrow> 'tr StateDB" where
  "setError e s = (if dbErr s = None then s\<lparr>dbErr := Some e\<rparr> else s)"

definition obj_empty :: "'tr Database \<Rightarrow> 'tr stateObject \<Rightarrow> bool" where
  "obj_empty db ob \<longleftrightarrow>
     Nonce (so_data ob) = 0 \<and> Balance (so_data ob) = 0 \<and>
     CodeHash (so_data ob) = EmptyCodeHash db"

definition newObject :: "'tr Database \<Rightarrow> Address \<Rightarrow> StateAccount \<Rightarrow> 'tr stateObject" where
  "newObject db a d =
     \<lparr>so_address = a,
      so_addrHash = Keccak256Hash db (address_bytes a),
      so_data = d\<lparr>CodeHash := (if CodeHash d = 0 then EmptyCodeHash db else CodeHash d),
                  Root := (if Root d = 0 then EmptyRootHash else Root d)\<rparr>,
      so_trie = None, so_code = None,
      originStorage = Map.empty, pendingStorage = Map.empty, dirtyStorage = Map.empty,
      dirtyCode = False, suicided = False, deleted = False\<rparr>"

definition touch :: "'tr stateObject \<Rightarrow> 'tr StateDB \<Rightarrow> 'tr StateDB" where
  "touch ob s =
     (let s1 = journal_append (touchChange (so_address ob)) s
      in if so_address ob = ripemd
         then s1\<lparr>sdb_journal := journal_dirty (so_address ob) (sdb_journal s1)\<rparr>
         else s1)"

definition getTrie ::
  "'tr stateObject \<Rightarrow> 'tr StateDB \<Rightarrow> (state_error + 'tr) \<times> 'tr stateObject" where
  "getTrie ob s =
     (case so_trie ob of
        Some tr \<Rightarrow> (Inr tr, ob)
      | None \<Rightarrow>
          (case OpenStorageTrie (sdb_db s) (originalRoot s) (so_addrHash ob) (Root (so_data ob)) of
             Inl e \<Rightarrow> (Inl e, ob)
           | Inr tr \<Rightarrow> (Inr tr, ob\<lparr>so_trie := Some tr\<rparr>)))"

text \<open>The stored slot: from the snapshot, or from the storage trie if that is missing or fails.\<close>

definition readSlot ::
  "'tr stateObject \<Rightarrow> Hash \<Rightarrow> 'tr StateDB \<Rightarrow> (state_error + bytes) \<times> 'tr stateObject" where
  "readSlot ob key s =
     (let enc = (case sdb_snap s of
                   None \<Rightarrow> None
                 | Some sn \<Rightarrow>
                     (case snap_Storage sn (so_addrHash ob)
                             (Keccak256Hash (sdb_db s) (hash_bytes key)) of
                        Inl e \<Rightarrow> None
                      | Inr b \<Rightarrow> Some b))
      in case enc of
           Some b \<Rightarrow> (Inr b, ob)
         | None \<Rightarrow>
             (case getTrie ob s of
                (Inl e, ob1) \<Rightarrow> (Inl e, ob1)
              | (Inr tr, ob1) \<Rightarrow>
                  (trie_GetStorage (sdb_db s) tr (so_address ob) (hash_bytes key), ob1)))"

definition obj_GetCommittedState ::
  "'tr stateObject \<Rightarrow> Hash \<Rightarrow> 'tr StateDB \<Rightarrow> Hash \<times> 'tr stateObject \<times> 'tr StateDB" where
  "obj_GetCommittedState ob key s =
     (case pendingStorage ob key of
        Some v \<Rightarrow> (v, ob, s)
      | None \<Rightarrow>
          (case originStorage ob key of
             Some v \<Rightarrow> (v, ob, s)
           | None \<Rightarrow>
               if so_address ob \<in> stateObjectsDestruct s then (0, ob, s)
               else
                 (case readSlot ob key s of
                    (Inl e, ob1) \<Rightarrow> (0, ob1, setError e s)
                  | (Inr enc, ob1) \<Rightarrow>
                      (let (v, s1) =
                         (if length enc > 0 then
                            (case Split enc of
                               Inl e \<Rightarrow> (0, setError (RLPError e) s)
                             | Inr (_, content, _) \<Rightarrow> (BytesToHash content, s))
                          else (0, s))
                       in (v, ob1\<lparr>originStorage := (originStorage ob1)(key \<mapsto> v)\<rparr>, s1)))))"

definition obj_GetState ::
  "'tr stateObject \<Rightarrow> Hash \<Rightarrow> 'tr StateDB \<Rightarrow> Hash \<times> 'tr stateObject \<times> 'tr StateDB" where
  "obj_GetState ob key s =
     (case dirtyStorage ob key of
        Some v \<Rightarrow> (v, ob, s)
      | None \<Rightarrow> obj_GetCommittedState ob key s)"

definition obj_setState :: "Hash \<Rightarrow> Hash \<Rightarrow> 'tr stateObject \<Rightarrow> 'tr stateObject" where
  "obj_setState key val ob = ob\<lparr>dirtyStorage := (dirtyStorage ob)(key \<mapsto> val)\<rparr>"

definition obj_SetState ::
  "'tr stateObject \<Rightarrow> Hash \<Rightarrow> Hash \<Rightarrow> 'tr StateDB \<Rightarrow> 'tr stateObject \<times> 'tr StateDB" where
  "obj_SetState ob key val s =
     (let (prev, ob1, s1) = obj_GetState ob key s
      in if prev = val then (ob1, s1)
         else (obj_setState key val ob1,
               journal_append (storageChange (so_address ob1) key prev) s1))"

definition obj_finalise :: "'tr stateObject \<Rightarrow> 'tr stateObject" where
  "obj_finalise ob =
     ob\<lparr>pendingStorage := pendingStorage ob ++ dirtyStorage ob, dirtyStorage := Map.empty\<rparr>"

definition obj_setBalance :: "int \<Rightarrow> 'tr stateObject \<Rightarrow> 'tr stateObject" where
  "obj_setBalance amount ob = ob\<lparr>so_data := (so_data ob)\<lparr>Balance := amount\<rparr>\<rparr>"

definition obj_SetBalance ::
  "'tr stateObject \<Rightarrow> int \<Rightarrow> 'tr StateDB \<Rightarrow> 'tr stateObject \<times> 'tr StateDB" where
  "obj_SetBalance ob amount s =
     (obj_setBalance amount ob,
      journal_append (balanceChange (so_address ob) (Balance (so_data ob))) s)"

definition obj_AddBalance ::
  "'tr stateObject \<Rightarrow> int \<Rightarrow> 'tr StateDB \<Rightarrow> 'tr stateObject \<times> 'tr StateDB" where
  "obj_AddBalance ob amount s =
     (if amount = 0 then (ob, if obj_empty (sdb_db s) ob then touch ob s else s)
      else obj_SetBalance ob (Balance (so_data ob) + amount) s)"

definition obj_SubBalance ::
  "'tr stateObject \<Rightarrow> int \<Rightarrow> 'tr StateDB \<Rightarrow> 'tr stateObject \<times> 'tr StateDB" where
  "obj_SubBalance ob amount s =
     (if amount = 0 then (ob, s)
      else obj_SetBalance ob (Balance (so_data ob) - amount) s)"

definition obj_Code ::
  "'tr stateObject \<Rightarrow> 'tr StateDB \<Rightarrow> bytes option \<times> 'tr stateObject \<times> 'tr StateDB" where
  "obj_Code ob s =
     (case so_code ob of
        Some c \<Rightarrow> (Some c, ob, s)
      | None \<Rightarrow>
          if CodeHash (so_data ob) = EmptyCodeHash (sdb_db s) then (None, ob, s)
          else
            (case ContractCode (sdb_db s) (so_addrHash ob) (CodeHash (so_data ob)) of
               Inl e \<Rightarrow>
                 (None, ob\<lparr>so_code := None\<rparr>, setError (CodeError (CodeHash (so_data ob)) e) s)
             | Inr c \<Rightarrow> (Some c, ob\<lparr>so_code := Some c\<rparr>, s)))"

text \<open>A failed size lookup gives 0, as \<^verbatim>\<open>cachingDB.ContractCodeSize\<close> does.\<close>

definition obj_CodeSize :: "'tr stateObject \<Rightarrow> 'tr StateDB \<Rightarrow> int \<times> 'tr StateDB" where
  "obj_CodeSize ob s =
     (case so_code ob of
        Some c \<Rightarrow> (int (length c), s)
      | None \<Rightarrow>
          if CodeHash (so_data ob) = EmptyCodeHash (sdb_db s) then (0, s)
          else
            (case ContractCodeSize (sdb_db s) (so_addrHash ob) (CodeHash (so_data ob)) of
               Inl e \<Rightarrow> (0, setError (CodeSizeError (CodeHash (so_data ob)) e) s)
             | Inr n \<Rightarrow> (n, s)))"

definition obj_setCode :: "Hash \<Rightarrow> bytes option \<Rightarrow> 'tr stateObject \<Rightarrow> 'tr stateObject" where
  "obj_setCode codeHash c ob =
     ob\<lparr>so_code := c, so_data := (so_data ob)\<lparr>CodeHash := codeHash\<rparr>, dirtyCode := True\<rparr>"

definition obj_SetCode ::
  "'tr stateObject \<Rightarrow> Hash \<Rightarrow> bytes \<Rightarrow> 'tr StateDB \<Rightarrow> 'tr stateObject \<times> 'tr StateDB" where
  "obj_SetCode ob codeHash c s =
     (let (prevcode, ob1, s1) = obj_Code ob s
      in (obj_setCode codeHash (Some c) ob1,
          journal_append (codeChange (so_address ob1) prevcode (CodeHash (so_data ob1))) s1))"

definition obj_setNonce :: "u64 \<Rightarrow> 'tr stateObject \<Rightarrow> 'tr stateObject" where
  "obj_setNonce n ob = ob\<lparr>so_data := (so_data ob)\<lparr>Nonce := n\<rparr>\<rparr>"

definition obj_SetNonce ::
  "'tr stateObject \<Rightarrow> u64 \<Rightarrow> 'tr StateDB \<Rightarrow> 'tr stateObject \<times> 'tr StateDB" where
  "obj_SetNonce ob n s =
     (obj_setNonce n ob, journal_append (nonceChange (so_address ob) (Nonce (so_data ob))) s)"


section \<open>Loading, creating and replacing objects\<close>

definition setStateObject :: "'tr stateObject \<Rightarrow> 'tr StateDB \<Rightarrow> 'tr StateDB" where
  "setStateObject ob s = s\<lparr>stateObjects := (stateObjects s)(so_address ob \<mapsto> ob)\<rparr>"

text \<open>An account as the flat snapshot stores it, with empty hashes restored.\<close>

definition fromSlim :: "'tr Database \<Rightarrow> slimAccount \<Rightarrow> StateAccount" where
  "fromSlim db acc =
     \<lparr>Nonce = slim_Nonce acc, Balance = slim_Balance acc,
      Root = (if BytesToHash (slim_Root acc) = 0 then EmptyRootHash
              else BytesToHash (slim_Root acc)),
      CodeHash = (if length (slim_CodeHash acc) = 0 then EmptyCodeHash db
                  else BytesToHash (slim_CodeHash acc))\<rparr>"

text \<open>The account data behind an address that has no live object, or the error of the read.\<close>

definition readAccount :: "'tr StateDB \<Rightarrow> Address \<Rightarrow> state_error + StateAccount option" where
  "readAccount s a =
     (let db = sdb_db s;
          fromTrie = (case trie_GetAccount db (sdb_trie s) a of
                        Inl e \<Rightarrow> Inl (AccountError a e) | Inr d \<Rightarrow> Inr d)
      in case sdb_snap s of
           None \<Rightarrow> fromTrie
         | Some sn \<Rightarrow>
             (case snap_Account sn (Keccak256Hash db (address_bytes a)) of
                Inl e \<Rightarrow> fromTrie
              | Inr None \<Rightarrow> Inr None
              | Inr (Some acc) \<Rightarrow> Inr (Some (fromSlim db acc))))"

definition getDeletedStateObject ::
  "Address \<Rightarrow> 'tr StateDB \<Rightarrow> 'tr stateObject option \<times> 'tr StateDB" where
  "getDeletedStateObject a s =
     (case stateObjects s a of
        Some ob \<Rightarrow> (Some ob, s)
      | None \<Rightarrow>
          (case readAccount s a of
             Inl e \<Rightarrow> (None, setError e s)
           | Inr None \<Rightarrow> (None, s)
           | Inr (Some d) \<Rightarrow>
               (let ob = newObject (sdb_db s) a d in (Some ob, setStateObject ob s))))"

definition getStateObject ::
  "Address \<Rightarrow> 'tr StateDB \<Rightarrow> 'tr stateObject option \<times> 'tr StateDB" where
  "getStateObject a s =
     (case getDeletedStateObject a s of
        (Some ob, s1) \<Rightarrow> (if deleted ob then None else Some ob, s1)
      | (None, s1) \<Rightarrow> (None, s1))"

definition createObject ::
  "Address \<Rightarrow> 'tr StateDB \<Rightarrow> ('tr stateObject \<times> 'tr stateObject option) \<times> 'tr StateDB" where
  "createObject a s =
     (let (prev, s1) = getDeletedStateObject a s;
          newobj = newObject (sdb_db s) a zeroAccount
      in case prev of
           None \<Rightarrow>
             ((newobj, None), setStateObject newobj (journal_append (createObjectChange a) s1))
         | Some p \<Rightarrow>
             (let prevdestruct = (so_address p \<in> stateObjectsDestruct s1);
                  s2 = (if \<not> prevdestruct
                        then s1\<lparr>stateObjectsDestruct := insert (so_address p) (stateObjectsDestruct s1)\<rparr>
                        else s1);
                  s3 = setStateObject newobj (journal_append (resetObjectChange p prevdestruct) s2)
              in ((newobj, if \<not> deleted p then Some p else None), s3)))"

definition GetOrNewStateObject ::
  "Address \<Rightarrow> 'tr StateDB \<Rightarrow> 'tr stateObject \<times> 'tr StateDB" where
  "GetOrNewStateObject a s =
     (case getStateObject a s of
        (Some ob, s1) \<Rightarrow> (ob, s1)
      | (None, s1) \<Rightarrow> (let ((ob, _), s2) = createObject a s1 in (ob, s2)))"

definition CreateAccount :: "Address \<Rightarrow> 'tr StateDB \<Rightarrow> 'tr StateDB" where
  "CreateAccount a s =
     (let ((newObj, prev), s1) = createObject a s
      in case prev of
           None \<Rightarrow> s1
         | Some p \<Rightarrow> setStateObject (obj_setBalance (Balance (so_data p)) newObj) s1)"

section \<open>Queries\<close>

definition Exist :: "Address \<Rightarrow> 'tr StateDB \<Rightarrow> bool \<times> 'tr StateDB" where
  "Exist a s = (let (ob, s1) = getStateObject a s in (ob \<noteq> None, s1))"

definition Empty :: "Address \<Rightarrow> 'tr StateDB \<Rightarrow> bool \<times> 'tr StateDB" where
  "Empty a s =
     (let (so, s1) = getStateObject a s
      in (case so of None \<Rightarrow> True | Some ob \<Rightarrow> obj_empty (sdb_db s) ob, s1))"

definition GetBalance :: "Address \<Rightarrow> 'tr StateDB \<Rightarrow> int \<times> 'tr StateDB" where
  "GetBalance a s =
     (let (so, s1) = getStateObject a s
      in (case so of None \<Rightarrow> 0 | Some ob \<Rightarrow> Balance (so_data ob), s1))"

definition GetNonce :: "Address \<Rightarrow> 'tr StateDB \<Rightarrow> u64 \<times> 'tr StateDB" where
  "GetNonce a s =
     (let (so, s1) = getStateObject a s
      in (case so of None \<Rightarrow> 0 | Some ob \<Rightarrow> Nonce (so_data ob), s1))"

definition GetCode :: "Address \<Rightarrow> 'tr StateDB \<Rightarrow> bytes option \<times> 'tr StateDB" where
  "GetCode a s =
     (case getStateObject a s of
        (None, s1) \<Rightarrow> (None, s1)
      | (Some ob, s1) \<Rightarrow>
          (let (c, ob1, s2) = obj_Code ob s1 in (c, setStateObject ob1 s2)))"

definition GetCodeSize :: "Address \<Rightarrow> 'tr StateDB \<Rightarrow> int \<times> 'tr StateDB" where
  "GetCodeSize a s =
     (case getStateObject a s of
        (None, s1) \<Rightarrow> (0, s1)
      | (Some ob, s1) \<Rightarrow> obj_CodeSize ob s1)"

definition GetCodeHash :: "Address \<Rightarrow> 'tr StateDB \<Rightarrow> Hash \<times> 'tr StateDB" where
  "GetCodeHash a s =
     (let (so, s1) = getStateObject a s
      in (case so of None \<Rightarrow> 0 | Some ob \<Rightarrow> CodeHash (so_data ob), s1))"

definition GetState :: "Address \<Rightarrow> Hash \<Rightarrow> 'tr StateDB \<Rightarrow> Hash \<times> 'tr StateDB" where
  "GetState a key s =
     (case getStateObject a s of
        (None, s1) \<Rightarrow> (0, s1)
      | (Some ob, s1) \<Rightarrow>
          (let (v, ob1, s2) = obj_GetState ob key s1 in (v, setStateObject ob1 s2)))"

definition GetCommittedState :: "Address \<Rightarrow> Hash \<Rightarrow> 'tr StateDB \<Rightarrow> Hash \<times> 'tr StateDB" where
  "GetCommittedState a key s =
     (case getStateObject a s of
        (None, s1) \<Rightarrow> (0, s1)
      | (Some ob, s1) \<Rightarrow>
          (let (v, ob1, s2) = obj_GetCommittedState ob key s1 in (v, setStateObject ob1 s2)))"

definition HasSuicided :: "Address \<Rightarrow> 'tr StateDB \<Rightarrow> bool \<times> 'tr StateDB" where
  "HasSuicided a s =
     (let (so, s1) = getStateObject a s
      in (case so of None \<Rightarrow> False | Some ob \<Rightarrow> suicided ob, s1))"

definition GetRefund :: "'tr StateDB \<Rightarrow> u64" where
  "GetRefund s = refund s"

definition GetTransientState :: "Address \<Rightarrow> Hash \<Rightarrow> 'tr StateDB \<Rightarrow> Hash" where
  "GetTransientState a key s = ts_Get (sdb_transient s) a key"

definition AddressInAccessList :: "Address \<Rightarrow> 'tr StateDB \<Rightarrow> bool" where
  "AddressInAccessList a s = ContainsAddress (sdb_accessList s) a"

definition SlotInAccessList :: "Address \<Rightarrow> Hash \<Rightarrow> 'tr StateDB \<Rightarrow> bool \<times> bool" where
  "SlotInAccessList a slot s = Contains (sdb_accessList s) a slot"

text \<open>\<open>GetLogs\<close> stamps the block number and hash into the stored logs it returns.\<close>

definition GetLogs :: "Hash \<Rightarrow> u64 \<Rightarrow> Hash \<Rightarrow> 'tr StateDB \<Rightarrow> Log list \<times> 'tr StateDB" where
  "GetLogs h blockNumber blockHash s =
     (case logs s h of
        None \<Rightarrow> ([], s)
      | Some ls \<Rightarrow>
          (let ls1 = map (\<lambda>l. l\<lparr>log_BlockNumber := blockNumber, log_BlockHash := blockHash\<rparr>) ls
           in (ls1, s\<lparr>logs := (logs s)(h \<mapsto> ls1)\<rparr>)))"

section \<open>Setters\<close>

definition AddBalance :: "Address \<Rightarrow> int \<Rightarrow> 'tr StateDB \<Rightarrow> 'tr StateDB" where
  "AddBalance a amount s =
     (let (ob, s1) = GetOrNewStateObject a s;
          (ob1, s2) = obj_AddBalance ob amount s1
      in setStateObject ob1 s2)"

definition SubBalance :: "Address \<Rightarrow> int \<Rightarrow> 'tr StateDB \<Rightarrow> 'tr StateDB" where
  "SubBalance a amount s =
     (let (ob, s1) = GetOrNewStateObject a s;
          (ob1, s2) = obj_SubBalance ob amount s1
      in setStateObject ob1 s2)"

definition SetBalance :: "Address \<Rightarrow> int \<Rightarrow> 'tr StateDB \<Rightarrow> 'tr StateDB" where
  "SetBalance a amount s =
     (let (ob, s1) = GetOrNewStateObject a s;
          (ob1, s2) = obj_SetBalance ob amount s1
      in setStateObject ob1 s2)"

definition SetNonce :: "Address \<Rightarrow> u64 \<Rightarrow> 'tr StateDB \<Rightarrow> 'tr StateDB" where
  "SetNonce a n s =
     (let (ob, s1) = GetOrNewStateObject a s;
          (ob1, s2) = obj_SetNonce ob n s1
      in setStateObject ob1 s2)"

definition SetCode :: "Address \<Rightarrow> bytes \<Rightarrow> 'tr StateDB \<Rightarrow> 'tr StateDB" where
  "SetCode a c s =
     (let (ob, s1) = GetOrNewStateObject a s;
          (ob1, s2) = obj_SetCode ob (Keccak256Hash (sdb_db s) c) c s1
      in setStateObject ob1 s2)"

definition SetState :: "Address \<Rightarrow> Hash \<Rightarrow> Hash \<Rightarrow> 'tr StateDB \<Rightarrow> 'tr StateDB" where
  "SetState a key val s =
     (let (ob, s1) = GetOrNewStateObject a s;
          (ob1, s2) = obj_SetState ob key val s1
      in setStateObject ob1 s2)"

text \<open>The entries of the replacement storage in the order the map iteration visits them.\<close>

definition SetStorage :: "Address \<Rightarrow> (Hash \<times> Hash) list \<Rightarrow> 'tr StateDB \<Rightarrow> 'tr StateDB" where
  "SetStorage a kvs s =
     (let s1 = s\<lparr>stateObjectsDestruct := insert a (stateObjectsDestruct s)\<rparr>;
          (ob, s2) = GetOrNewStateObject a s1;
          (ob1, s3) = foldl (\<lambda>(ob, st) (k, v). obj_SetState ob k v st) (ob, s2) kvs
      in setStateObject ob1 s3)"

definition Suicide :: "Address \<Rightarrow> 'tr StateDB \<Rightarrow> bool \<times> 'tr StateDB" where
  "Suicide a s =
     (case getStateObject a s of
        (None, s1) \<Rightarrow> (False, s1)
      | (Some ob, s1) \<Rightarrow>
          (let s2 = journal_append (suicideChange a (suicided ob) (Balance (so_data ob))) s1
           in (True, setStateObject (obj_setBalance 0 (ob\<lparr>suicided := True\<rparr>)) s2)))"

definition AddRefund :: "u64 \<Rightarrow> 'tr StateDB \<Rightarrow> 'tr StateDB" where
  "AddRefund gas s = (journal_append (refundChange (refund s)) s)\<lparr>refund := refund s + gas\<rparr>"

text \<open>\<^term>\<open>None\<close> is the panic on a refund counter below zero.\<close>

definition SubRefund :: "u64 \<Rightarrow> 'tr StateDB \<Rightarrow> 'tr StateDB option" where
  "SubRefund gas s =
     (let s1 = journal_append (refundChange (refund s)) s
      in if refund s < gas then None else Some (s1\<lparr>refund := refund s - gas\<rparr>))"

definition AddLog :: "Log \<Rightarrow> 'tr StateDB \<Rightarrow> 'tr StateDB" where
  "AddLog l s =
     (let s1 = journal_append (addLogChange (thash s)) s;
          l1 = l\<lparr>log_TxHash := thash s, log_TxIndex := of_int (txIndex s), log_Index := logSize s\<rparr>;
          old = (case logs s (thash s) of None \<Rightarrow> [] | Some ls \<Rightarrow> ls)
      in s1\<lparr>logs := (logs s1)(thash s \<mapsto> old @ [l1]), logSize := logSize s + 1\<rparr>)"

definition AddPreimage :: "Hash \<Rightarrow> bytes \<Rightarrow> 'tr StateDB \<Rightarrow> 'tr StateDB" where
  "AddPreimage h preimage s =
     (if preimages s h = None
      then (journal_append (addPreimageChange h) s)\<lparr>preimages := (preimages s)(h \<mapsto> preimage)\<rparr>
      else s)"

definition sdb_setTransientState :: "Address \<Rightarrow> Hash \<Rightarrow> Hash \<Rightarrow> 'tr StateDB \<Rightarrow> 'tr StateDB" where
  "sdb_setTransientState a key val s = s\<lparr>sdb_transient := ts_Set (sdb_transient s) a key val\<rparr>"

definition SetTransientState :: "Address \<Rightarrow> Hash \<Rightarrow> Hash \<Rightarrow> 'tr StateDB \<Rightarrow> 'tr StateDB" where
  "SetTransientState a key val s =
     (let prev = GetTransientState a key s
      in if prev = val then s
         else sdb_setTransientState a key val
                (journal_append (transientStorageChange a key prev) s))"

definition AddAddressToAccessList :: "Address \<Rightarrow> 'tr StateDB \<Rightarrow> 'tr StateDB" where
  "AddAddressToAccessList a s =
     (let (al, changed) = AddAddress (sdb_accessList s) a;
          s1 = s\<lparr>sdb_accessList := al\<rparr>
      in if changed then journal_append (accessListAddAccountChange a) s1 else s1)"

definition AddSlotToAccessList :: "Address \<Rightarrow> Hash \<Rightarrow> 'tr StateDB \<Rightarrow> 'tr StateDB" where
  "AddSlotToAccessList a slot s =
     (let (al, addrMod, slotMod) = AddSlot (sdb_accessList s) a slot;
          s1 = s\<lparr>sdb_accessList := al\<rparr>;
          s2 = (if addrMod then journal_append (accessListAddAccountChange a) s1 else s1)
      in if slotMod then journal_append (accessListAddSlotChange a slot) s2 else s2)"

section \<open>Reverting\<close>

text \<open>\<^term>\<open>None\<close> is the panic of a nil object, an empty log slice or the access list.\<close>

definition with_object ::
  "Address \<Rightarrow> ('tr stateObject \<Rightarrow> 'tr stateObject) \<Rightarrow> 'tr StateDB \<Rightarrow> 'tr StateDB option" where
  "with_object a f s =
     (case getStateObject a s of
        (None, s1) \<Rightarrow> None
      | (Some ob, s1) \<Rightarrow> Some (setStateObject (f ob) s1))"

fun revert_entry :: "'tr journalEntry \<Rightarrow> 'tr StateDB \<Rightarrow> 'tr StateDB option" where
  "revert_entry (createObjectChange a) s =
     Some (s\<lparr>stateObjects := (stateObjects s)(a := None),
             stateObjectsDirty := stateObjectsDirty s - {a}\<rparr>)"
| "revert_entry (resetObjectChange prev prevdestruct) s =
     (let s1 = setStateObject prev s
      in Some (if \<not> prevdestruct
               then s1\<lparr>stateObjectsDestruct := stateObjectsDestruct s1 - {so_address prev}\<rparr>
               else s1))"
| "revert_entry (suicideChange a prev prevbalance) s =
     (case getStateObject a s of
        (None, s1) \<Rightarrow> Some s1
      | (Some ob, s1) \<Rightarrow>
          Some (setStateObject (obj_setBalance prevbalance (ob\<lparr>suicided := prev\<rparr>)) s1))"
| "revert_entry (touchChange a) s = Some s"
| "revert_entry (balanceChange a prev) s = with_object a (obj_setBalance prev) s"
| "revert_entry (nonceChange a prev) s = with_object a (obj_setNonce prev) s"
| "revert_entry (codeChange a prevcode prevhash) s =
     with_object a (obj_setCode prevhash prevcode) s"
| "revert_entry (storageChange a key prevalue) s =
     with_object a (obj_setState key prevalue) s"
| "revert_entry (transientStorageChange a key prevalue) s =
     Some (sdb_setTransientState a key prevalue s)"
| "revert_entry (refundChange prev) s = Some (s\<lparr>refund := prev\<rparr>)"
| "revert_entry (addLogChange txhash) s =
     (let ls = (case logs s txhash of None \<Rightarrow> [] | Some ls \<Rightarrow> ls)
      in if length ls = 0 then None
         else Some (s\<lparr>logs := (if length ls = 1 then (logs s)(txhash := None)
                               else (logs s)(txhash \<mapsto> take (length ls - 1) ls)),
                       logSize := logSize s - 1\<rparr>))"
| "revert_entry (addPreimageChange h) s = Some (s\<lparr>preimages := (preimages s)(h := None)\<rparr>)"
| "revert_entry (accessListAddAccountChange a) s =
     Some (s\<lparr>sdb_accessList := DeleteAddress (sdb_accessList s) a\<rparr>)"
| "revert_entry (accessListAddSlotChange a slot) s =
     (case DeleteSlot (sdb_accessList s) a slot of
        None \<Rightarrow> None
      | Some al \<Rightarrow> Some (s\<lparr>sdb_accessList := al\<rparr>))"

text \<open>The revert loop, over the entries to undo in the order it visits them (newest first).\<close>

fun revert_loop :: "'tr journalEntry list \<Rightarrow> 'tr StateDB \<Rightarrow> 'tr StateDB option" where
  "revert_loop [] s = Some s"
| "revert_loop (e # es) s =
     (case revert_entry e s of
        None \<Rightarrow> None
      | Some s1 \<Rightarrow> revert_loop es (journal_undirty e s1))"

definition journal_revert :: "nat \<Rightarrow> 'tr StateDB \<Rightarrow> 'tr StateDB option" where
  "journal_revert snapshot s =
     (case revert_loop (rev (drop snapshot (entries (sdb_journal s)))) s of
        None \<Rightarrow> None
      | Some s1 \<Rightarrow>
          Some (s1\<lparr>sdb_journal :=
                 (sdb_journal s1)\<lparr>entries := take snapshot (entries (sdb_journal s1))\<rparr>\<rparr>))"

definition Snapshot :: "'tr StateDB \<Rightarrow> nat \<times> 'tr StateDB" where
  "Snapshot s =
     (let i = nextRevisionId s
      in (i, s\<lparr>nextRevisionId := i + 1,
              validRevisions := validRevisions s @
                [\<lparr>rev_id = i, journalIndex = length (entries (sdb_journal s))\<rparr>]\<rparr>))"

definition RevertToSnapshot :: "nat \<Rightarrow> 'tr StateDB \<Rightarrow> 'tr StateDB option" where
  "RevertToSnapshot revid s =
     (let rs = validRevisions s;
          idx = sort_Search (length rs) (\<lambda>i. revid \<le> rev_id (rs ! i))
      in if idx = length rs \<or> rev_id (rs ! idx) \<noteq> revid then None
         else
           (case journal_revert (journalIndex (rs ! idx)) s of
              None \<Rightarrow> None
            | Some s1 \<Rightarrow> Some (s1\<lparr>validRevisions := take idx rs\<rparr>)))"

section \<open>Transaction boundaries\<close>

definition clearJournalAndRefund :: "'tr StateDB \<Rightarrow> 'tr StateDB" where
  "clearJournalAndRefund s =
     (let s1 = (if length (entries (sdb_journal s)) > 0
                then s\<lparr>sdb_journal := newJournal, refund := 0\<rparr> else s)
      in s1\<lparr>validRevisions := []\<rparr>)"

text \<open>
  \<open>Finalise\<close> visits the dirty addresses in the iteration order of the Go map, which the
  language leaves open: \<open>order\<close> is that order, an enumeration of the keys of
  \<^verbatim>\<open>journal.dirties\<close>.
\<close>

definition finalise_deletes :: "bool \<Rightarrow> 'tr StateDB \<Rightarrow> 'tr stateObject \<Rightarrow> bool" where
  "finalise_deletes deleteEmptyObjects s ob \<longleftrightarrow>
     suicided ob \<or> deleteEmptyObjects \<and> obj_empty (sdb_db s) ob"

definition finalise_addr :: "bool \<Rightarrow> Address \<Rightarrow> 'tr StateDB \<Rightarrow> 'tr StateDB" where
  "finalise_addr deleteEmptyObjects a s =
     (case stateObjects s a of
        None \<Rightarrow> s
      | Some ob \<Rightarrow>
          (let s1 =
             (if finalise_deletes deleteEmptyObjects s ob then
                (let s2 = s\<lparr>stateObjects := (stateObjects s)(a \<mapsto> ob\<lparr>deleted := True\<rparr>),
                            stateObjectsDestruct := insert (so_address ob) (stateObjectsDestruct s)\<rparr>
                 in if sdb_snap s \<noteq> None
                    then s2\<lparr>snapAccounts := (snapAccounts s2)(so_addrHash ob := None),
                            snapStorage := (snapStorage s2)(so_addrHash ob := None)\<rparr>
                    else s2)
              else s\<lparr>stateObjects := (stateObjects s)(a \<mapsto> obj_finalise ob)\<rparr>)
           in s1\<lparr>stateObjectsPending := insert a (stateObjectsPending s1),
                  stateObjectsDirty := insert a (stateObjectsDirty s1)\<rparr>))"

definition Finalise :: "bool \<Rightarrow> Address list \<Rightarrow> 'tr StateDB \<Rightarrow> 'tr StateDB" where
  "Finalise deleteEmptyObjects order s =
     clearJournalAndRefund (fold (finalise_addr deleteEmptyObjects) order s)"

definition SetTxContext :: "Hash \<Rightarrow> int \<Rightarrow> 'tr StateDB \<Rightarrow> 'tr StateDB" where
  "SetTxContext h ti s = s\<lparr>thash := h, txIndex := ti\<rparr>"

text \<open>The access tuples of a transaction: an address and its storage keys.\<close>

definition Prepare ::
  "bool \<Rightarrow> bool \<Rightarrow> Address \<Rightarrow> Address \<Rightarrow> Address option \<Rightarrow> Address list \<Rightarrow>
   (Address \<times> Hash list) list \<Rightarrow> 'tr StateDB \<Rightarrow> 'tr StateDB" where
  "Prepare isBerlin isShanghai sender coinbase dst precompiles list s =
     (let s1 =
        (if isBerlin then
           (let al = fst (AddAddress newAccessList sender);
                al = (case dst of None \<Rightarrow> al | Some d \<Rightarrow> fst (AddAddress al d));
                al = foldl (\<lambda>al a. fst (AddAddress al a)) al precompiles;
                al = foldl (\<lambda>al el.
                       foldl (\<lambda>al k. fst (AddSlot al (fst el) k))
                         (fst (AddAddress al (fst el))) (snd el)) al list;
                al = (if isShanghai then fst (AddAddress al coinbase) else al)
            in s\<lparr>sdb_accessList := al\<rparr>)
         else s)
      in s1\<lparr>sdb_transient := newTransientStorage\<rparr>)"

end
