(* ===== verification/Chain_Config.thy ===== *)
theory Chain_Config
  imports Geth_Prelude
begin

text \<open>
  The chain configuration (\<^verbatim>\<open>params/config.go\<close>): which fork is active at a block number and a
  timestamp, the order forks must be scheduled in, and whether a new configuration would
  change the past of a chain that was imported with the stored one. A nil \<^verbatim>\<open>*big.Int\<close> or
  \<^verbatim>\<open>*uint64\<close> is \<open>None\<close>. The JSON names and the consensus engine entries are left out.
\<close>

record ChainConfig =
  cc_ChainID :: "int option"
  HomesteadBlock :: "int option"
  DAOForkBlock :: "int option"
  DAOForkSupport :: bool
  EIP150Block :: "int option"
  EIP155Block :: "int option"
  EIP158Block :: "int option"
  ByzantiumBlock :: "int option"
  ConstantinopleBlock :: "int option"
  PetersburgBlock :: "int option"
  IstanbulBlock :: "int option"
  MuirGlacierBlock :: "int option"
  BerlinBlock :: "int option"
  LondonBlock :: "int option"
  ArrowGlacierBlock :: "int option"
  GrayGlacierBlock :: "int option"
  MergeNetsplitBlock :: "int option"
  ShanghaiTime :: "u64 option"
  CancunTime :: "u64 option"
  PragueTime :: "u64 option"

section \<open>Active forks\<close>

definition isBlockForked :: "int option \<Rightarrow> int \<Rightarrow> bool" where
  "isBlockForked s head = (case s of None \<Rightarrow> False | Some b \<Rightarrow> b \<le> head)"

definition isTimestampForked :: "u64 option \<Rightarrow> u64 \<Rightarrow> bool" where
  "isTimestampForked s head = (case s of None \<Rightarrow> False | Some t \<Rightarrow> t \<le> head)"

definition IsHomestead :: "ChainConfig \<Rightarrow> int \<Rightarrow> bool" where
  "IsHomestead c num = isBlockForked (HomesteadBlock c) num"

definition IsDAOFork :: "ChainConfig \<Rightarrow> int \<Rightarrow> bool" where
  "IsDAOFork c num = isBlockForked (DAOForkBlock c) num"

definition IsEIP150 :: "ChainConfig \<Rightarrow> int \<Rightarrow> bool" where
  "IsEIP150 c num = isBlockForked (EIP150Block c) num"

definition IsEIP155 :: "ChainConfig \<Rightarrow> int \<Rightarrow> bool" where
  "IsEIP155 c num = isBlockForked (EIP155Block c) num"

definition IsEIP158 :: "ChainConfig \<Rightarrow> int \<Rightarrow> bool" where
  "IsEIP158 c num = isBlockForked (EIP158Block c) num"

definition IsByzantium :: "ChainConfig \<Rightarrow> int \<Rightarrow> bool" where
  "IsByzantium c num = isBlockForked (ByzantiumBlock c) num"

definition IsConstantinople :: "ChainConfig \<Rightarrow> int \<Rightarrow> bool" where
  "IsConstantinople c num = isBlockForked (ConstantinopleBlock c) num"

definition IsMuirGlacier :: "ChainConfig \<Rightarrow> int \<Rightarrow> bool" where
  "IsMuirGlacier c num = isBlockForked (MuirGlacierBlock c) num"

definition IsPetersburg :: "ChainConfig \<Rightarrow> int \<Rightarrow> bool" where
  "IsPetersburg c num =
     (isBlockForked (PetersburgBlock c) num \<or>
      PetersburgBlock c = None \<and> isBlockForked (ConstantinopleBlock c) num)"

definition IsIstanbul :: "ChainConfig \<Rightarrow> int \<Rightarrow> bool" where
  "IsIstanbul c num = isBlockForked (IstanbulBlock c) num"

definition IsBerlin :: "ChainConfig \<Rightarrow> int \<Rightarrow> bool" where
  "IsBerlin c num = isBlockForked (BerlinBlock c) num"

definition IsLondon :: "ChainConfig \<Rightarrow> int \<Rightarrow> bool" where
  "IsLondon c num = isBlockForked (LondonBlock c) num"

definition IsArrowGlacier :: "ChainConfig \<Rightarrow> int \<Rightarrow> bool" where
  "IsArrowGlacier c num = isBlockForked (ArrowGlacierBlock c) num"

definition IsGrayGlacier :: "ChainConfig \<Rightarrow> int \<Rightarrow> bool" where
  "IsGrayGlacier c num = isBlockForked (GrayGlacierBlock c) num"

definition IsShanghai :: "ChainConfig \<Rightarrow> u64 \<Rightarrow> bool" where
  "IsShanghai c time = isTimestampForked (ShanghaiTime c) time"

definition IsCancun :: "ChainConfig \<Rightarrow> u64 \<Rightarrow> bool" where
  "IsCancun c time = isTimestampForked (CancunTime c) time"

definition IsPrague :: "ChainConfig \<Rightarrow> u64 \<Rightarrow> bool" where
  "IsPrague c time = isTimestampForked (PragueTime c) time"

text \<open>The rules of one block; the fields carry the names of the Go struct with prefix \<open>r_\<close>.\<close>

record Rules =
  r_ChainID :: int
  r_IsHomestead :: bool
  r_IsEIP150 :: bool
  r_IsEIP155 :: bool
  r_IsEIP158 :: bool
  r_IsByzantium :: bool
  r_IsConstantinople :: bool
  r_IsPetersburg :: bool
  r_IsIstanbul :: bool
  r_IsBerlin :: bool
  r_IsLondon :: bool
  r_IsMerge :: bool
  r_IsShanghai :: bool
  r_IsCancun :: bool
  r_IsPrague :: bool

definition chain_Rules :: "ChainConfig \<Rightarrow> int \<Rightarrow> bool \<Rightarrow> u64 \<Rightarrow> Rules" where
  "chain_Rules c num isMerge timestamp =
     \<lparr>r_ChainID = (case cc_ChainID c of None \<Rightarrow> 0 | Some i \<Rightarrow> i),
      r_IsHomestead = IsHomestead c num, r_IsEIP150 = IsEIP150 c num,
      r_IsEIP155 = IsEIP155 c num, r_IsEIP158 = IsEIP158 c num,
      r_IsByzantium = IsByzantium c num, r_IsConstantinople = IsConstantinople c num,
      r_IsPetersburg = IsPetersburg c num, r_IsIstanbul = IsIstanbul c num,
      r_IsBerlin = IsBerlin c num, r_IsLondon = IsLondon c num, r_IsMerge = isMerge,
      r_IsShanghai = IsShanghai c timestamp, r_IsCancun = IsCancun c timestamp,
      r_IsPrague = IsPrague c timestamp\<rparr>"

section \<open>Order of the forks\<close>

record fork =
  f_name :: string
  f_block :: "int option"
  f_timestamp :: "u64 option"
  f_optional :: bool

definition block_fork :: "string \<Rightarrow> int option \<Rightarrow> bool \<Rightarrow> fork" where
  "block_fork n b opt = \<lparr>f_name = n, f_block = b, f_timestamp = None, f_optional = opt\<rparr>"

definition time_fork :: "string \<Rightarrow> u64 option \<Rightarrow> bool \<Rightarrow> fork" where
  "time_fork n t opt = \<lparr>f_name = n, f_block = None, f_timestamp = t, f_optional = opt\<rparr>"

definition fork_list :: "ChainConfig \<Rightarrow> fork list" where
  "fork_list c =
     [block_fork ''homesteadBlock'' (HomesteadBlock c) False,
      block_fork ''daoForkBlock'' (DAOForkBlock c) True,
      block_fork ''eip150Block'' (EIP150Block c) False,
      block_fork ''eip155Block'' (EIP155Block c) False,
      block_fork ''eip158Block'' (EIP158Block c) False,
      block_fork ''byzantiumBlock'' (ByzantiumBlock c) False,
      block_fork ''constantinopleBlock'' (ConstantinopleBlock c) False,
      block_fork ''petersburgBlock'' (PetersburgBlock c) False,
      block_fork ''istanbulBlock'' (IstanbulBlock c) False,
      block_fork ''muirGlacierBlock'' (MuirGlacierBlock c) True,
      block_fork ''berlinBlock'' (BerlinBlock c) False,
      block_fork ''londonBlock'' (LondonBlock c) False,
      block_fork ''arrowGlacierBlock'' (ArrowGlacierBlock c) True,
      block_fork ''grayGlacierBlock'' (GrayGlacierBlock c) True,
      block_fork ''mergeNetsplitBlock'' (MergeNetsplitBlock c) True,
      time_fork ''shanghaiTime'' (ShanghaiTime c) False,
      time_fork ''cancunTime'' (CancunTime c) True,
      time_fork ''pragueTime'' (PragueTime c) True]"

text \<open>The errors of the order check, with the names of the two forks.\<close>

datatype order_error =
    ForkNotEnabled string string
  | BlockOrder string string
  | TimestampOrder string string
  | RevertedToBlocks string string

definition fork_set :: "fork \<Rightarrow> bool" where
  "fork_set f \<longleftrightarrow> f_block f \<noteq> None \<or> f_timestamp f \<noteq> None"

definition fork_step :: "fork \<Rightarrow> fork \<Rightarrow> order_error option" where
  "fork_step lst cur =
     (if \<not> fork_set lst \<and> fork_set cur then
        Some (ForkNotEnabled (f_name lst) (f_name cur))
      else if f_block lst \<noteq> None \<and> f_block cur \<noteq> None \<or>
              f_timestamp lst \<noteq> None \<and> f_timestamp cur \<noteq> None then
        (if f_block lst \<noteq> None \<and> the (f_block lst) > the (f_block cur) then
           Some (BlockOrder (f_name lst) (f_name cur))
         else if f_timestamp lst \<noteq> None \<and> the (f_timestamp lst) > the (f_timestamp cur) then
           Some (TimestampOrder (f_name lst) (f_name cur))
         else if f_timestamp lst \<noteq> None \<and> f_block cur \<noteq> None then
           Some (RevertedToBlocks (f_name lst) (f_name cur))
         else None)
      else None)"

text \<open>\<open>None\<close> as the last fork is the zero value with the empty name the loop starts with.\<close>

fun fork_order :: "fork option \<Rightarrow> fork list \<Rightarrow> order_error option" where
  "fork_order lst [] = None"
| "fork_order lst (cur # fs) =
     (case (case lst of None \<Rightarrow> None | Some l \<Rightarrow> fork_step l cur) of
        Some e \<Rightarrow> Some e
      | None \<Rightarrow> fork_order (if \<not> f_optional cur \<or> fork_set cur then Some cur else lst) fs)"

definition CheckConfigForkOrder :: "ChainConfig \<Rightarrow> order_error option" where
  "CheckConfigForkOrder c = fork_order None (fork_list c)"


section \<open>Compatibility with an imported chain\<close>

definition configBlockEqual :: "int option \<Rightarrow> int option \<Rightarrow> bool" where
  "configBlockEqual x y =
     (case x of None \<Rightarrow> y = None
      | Some a \<Rightarrow> (case y of None \<Rightarrow> False | Some b \<Rightarrow> a = b))"

definition configTimestampEqual :: "u64 option \<Rightarrow> u64 option \<Rightarrow> bool" where
  "configTimestampEqual x y =
     (case x of None \<Rightarrow> y = None
      | Some a \<Rightarrow> (case y of None \<Rightarrow> False | Some b \<Rightarrow> a = b))"

definition isForkBlockIncompatible :: "int option \<Rightarrow> int option \<Rightarrow> int \<Rightarrow> bool" where
  "isForkBlockIncompatible s1 s2 head =
     ((isBlockForked s1 head \<or> isBlockForked s2 head) \<and> \<not> configBlockEqual s1 s2)"

definition isForkTimestampIncompatible :: "u64 option \<Rightarrow> u64 option \<Rightarrow> u64 \<Rightarrow> bool" where
  "isForkTimestampIncompatible s1 s2 head =
     ((isTimestampForked s1 head \<or> isTimestampForked s2 head) \<and> \<not> configTimestampEqual s1 s2)"

record ConfigCompatError =
  What :: string
  StoredBlock :: "int option"
  NewBlock :: "int option"
  StoredTime :: "u64 option"
  NewTime :: "u64 option"
  RewindToBlock :: u64
  RewindToTime :: u64

text \<open>\<^verbatim>\<open>rew.Uint64()\<close> keeps the low 64 bits.\<close>

definition newBlockCompatError :: "string \<Rightarrow> int option \<Rightarrow> int option \<Rightarrow> ConfigCompatError" where
  "newBlockCompatError what storedblock newblock =
     (let rew = (case storedblock of
                   None \<Rightarrow> newblock
                 | Some s \<Rightarrow> (case newblock of
                               None \<Rightarrow> storedblock
                             | Some n \<Rightarrow> if s < n then storedblock else newblock))
      in \<lparr>What = what, StoredBlock = storedblock, NewBlock = newblock, StoredTime = None,
          NewTime = None,
          RewindToBlock = (case rew of None \<Rightarrow> 0 | Some r \<Rightarrow> if r > 0 then of_int r - 1 else 0),
          RewindToTime = 0\<rparr>)"

definition newTimestampCompatError :: "string \<Rightarrow> u64 option \<Rightarrow> u64 option \<Rightarrow> ConfigCompatError" where
  "newTimestampCompatError what storedtime newtime =
     (let rew = (case storedtime of
                   None \<Rightarrow> newtime
                 | Some s \<Rightarrow> (case newtime of
                               None \<Rightarrow> storedtime
                             | Some n \<Rightarrow> if s < n then storedtime else newtime))
      in \<lparr>What = what, StoredBlock = None, NewBlock = None, StoredTime = storedtime,
          NewTime = newtime, RewindToBlock = 0,
          RewindToTime = (case rew of None \<Rightarrow> 0 | Some r \<Rightarrow> r - 1)\<rparr>)"

definition checkCompatible ::
  "ChainConfig \<Rightarrow> ChainConfig \<Rightarrow> int \<Rightarrow> u64 \<Rightarrow> ConfigCompatError option" where
  "checkCompatible c newcfg headNumber headTimestamp =
     (if isForkBlockIncompatible (HomesteadBlock c) (HomesteadBlock newcfg) headNumber then
        Some (newBlockCompatError ''Homestead fork block'' (HomesteadBlock c) (HomesteadBlock newcfg))
      else if isForkBlockIncompatible (DAOForkBlock c) (DAOForkBlock newcfg) headNumber then
        Some (newBlockCompatError ''DAO fork block'' (DAOForkBlock c) (DAOForkBlock newcfg))
      else if IsDAOFork c headNumber \<and> DAOForkSupport c \<noteq> DAOForkSupport newcfg then
        Some (newBlockCompatError ''DAO fork support flag'' (DAOForkBlock c) (DAOForkBlock newcfg))
      else if isForkBlockIncompatible (EIP150Block c) (EIP150Block newcfg) headNumber then
        Some (newBlockCompatError ''EIP150 fork block'' (EIP150Block c) (EIP150Block newcfg))
      else if isForkBlockIncompatible (EIP155Block c) (EIP155Block newcfg) headNumber then
        Some (newBlockCompatError ''EIP155 fork block'' (EIP155Block c) (EIP155Block newcfg))
      else if isForkBlockIncompatible (EIP158Block c) (EIP158Block newcfg) headNumber then
        Some (newBlockCompatError ''EIP158 fork block'' (EIP158Block c) (EIP158Block newcfg))
      else if IsEIP158 c headNumber \<and> \<not> configBlockEqual (cc_ChainID c) (cc_ChainID newcfg) then
        Some (newBlockCompatError ''EIP158 chain ID'' (EIP158Block c) (EIP158Block newcfg))
      else if isForkBlockIncompatible (ByzantiumBlock c) (ByzantiumBlock newcfg) headNumber then
        Some (newBlockCompatError ''Byzantium fork block'' (ByzantiumBlock c) (ByzantiumBlock newcfg))
      else if isForkBlockIncompatible (ConstantinopleBlock c) (ConstantinopleBlock newcfg) headNumber then
        Some (newBlockCompatError ''Constantinople fork block'' (ConstantinopleBlock c) (ConstantinopleBlock newcfg))
      else if isForkBlockIncompatible (PetersburgBlock c) (PetersburgBlock newcfg) headNumber \<and>
         isForkBlockIncompatible (ConstantinopleBlock c) (PetersburgBlock newcfg) headNumber then
        Some (newBlockCompatError ''Petersburg fork block'' (PetersburgBlock c) (PetersburgBlock newcfg))
      else if isForkBlockIncompatible (IstanbulBlock c) (IstanbulBlock newcfg) headNumber then
        Some (newBlockCompatError ''Istanbul fork block'' (IstanbulBlock c) (IstanbulBlock newcfg))
      else if isForkBlockIncompatible (MuirGlacierBlock c) (MuirGlacierBlock newcfg) headNumber then
        Some (newBlockCompatError ''Muir Glacier fork block'' (MuirGlacierBlock c) (MuirGlacierBlock newcfg))
      else if isForkBlockIncompatible (BerlinBlock c) (BerlinBlock newcfg) headNumber then
        Some (newBlockCompatError ''Berlin fork block'' (BerlinBlock c) (BerlinBlock newcfg))
      else if isForkBlockIncompatible (LondonBlock c) (LondonBlock newcfg) headNumber then
        Some (newBlockCompatError ''London fork block'' (LondonBlock c) (LondonBlock newcfg))
      else if isForkBlockIncompatible (ArrowGlacierBlock c) (ArrowGlacierBlock newcfg) headNumber then
        Some (newBlockCompatError ''Arrow Glacier fork block'' (ArrowGlacierBlock c) (ArrowGlacierBlock newcfg))
      else if isForkBlockIncompatible (GrayGlacierBlock c) (GrayGlacierBlock newcfg) headNumber then
        Some (newBlockCompatError ''Gray Glacier fork block'' (GrayGlacierBlock c) (GrayGlacierBlock newcfg))
      else if isForkBlockIncompatible (MergeNetsplitBlock c) (MergeNetsplitBlock newcfg) headNumber then
        Some (newBlockCompatError ''Merge netsplit fork block'' (MergeNetsplitBlock c) (MergeNetsplitBlock newcfg))
      else if isForkTimestampIncompatible (ShanghaiTime c) (ShanghaiTime newcfg) headTimestamp then
        Some (newTimestampCompatError ''Shanghai fork timestamp'' (ShanghaiTime c) (ShanghaiTime newcfg))
      else if isForkTimestampIncompatible (CancunTime c) (CancunTime newcfg) headTimestamp then
        Some (newTimestampCompatError ''Cancun fork timestamp'' (CancunTime c) (CancunTime newcfg))
      else if isForkTimestampIncompatible (PragueTime c) (PragueTime newcfg) headTimestamp then
        Some (newTimestampCompatError ''Prague fork timestamp'' (PragueTime c) (PragueTime newcfg))
      else None)"

text \<open>
  The search for the lowest conflict, on fuel: the outer \<open>None\<close> is that the fuel ran out. The
  head number is a \<^verbatim>\<open>uint64\<close> at every turn.
\<close>

fun CheckCompatible_loop ::
  "nat \<Rightarrow> ChainConfig \<Rightarrow> ChainConfig \<Rightarrow> u64 \<Rightarrow> u64 \<Rightarrow> ConfigCompatError option \<Rightarrow>
   ConfigCompatError option option" where
  "CheckCompatible_loop 0 c newcfg bhead btime lasterr = None"
| "CheckCompatible_loop (Suc n) c newcfg bhead btime lasterr =
     (case checkCompatible c newcfg (uint bhead) btime of
        None \<Rightarrow> Some lasterr
      | Some err \<Rightarrow>
          if lasterr \<noteq> None \<and> RewindToBlock err = RewindToBlock (the lasterr) \<and>
             RewindToTime err = RewindToTime (the lasterr)
          then Some lasterr
          else if RewindToTime err > 0
          then CheckCompatible_loop n c newcfg bhead (RewindToTime err) (Some err)
          else CheckCompatible_loop n c newcfg (RewindToBlock err) btime (Some err))"

definition CheckCompatible ::
  "nat \<Rightarrow> ChainConfig \<Rightarrow> ChainConfig \<Rightarrow> u64 \<Rightarrow> u64 \<Rightarrow> ConfigCompatError option option" where
  "CheckCompatible fuel c newcfg height time = CheckCompatible_loop fuel c newcfg height time None"

end
