(* ===== verification/VM_Interface.thy ===== *)
theory VM_Interface
  imports StateDB_Model Chain_Config
begin

text \<open>
  The interface \<^verbatim>\<open>vm.StateDB\<close> (\<^verbatim>\<open>core/vm/interface.go\<close>) through which the virtual machine
  reaches the state, as a record of operations, and the contract the machine relies on, as the
  locale \<open>vm_state\<close>. Queries return the database as well because they may fill its caches;
  \<open>None\<close> is a panic. The theory \<open>StateDB_VM\<close> implements the record with the state database.
\<close>

section \<open>The operations\<close>

record 'st StateDB_ops =
  i_CreateAccount :: "Address \<Rightarrow> 'st \<Rightarrow> 'st"
  i_SubBalance :: "Address \<Rightarrow> int \<Rightarrow> 'st \<Rightarrow> 'st"
  i_AddBalance :: "Address \<Rightarrow> int \<Rightarrow> 'st \<Rightarrow> 'st"
  i_GetBalance :: "Address \<Rightarrow> 'st \<Rightarrow> int \<times> 'st"
  i_GetNonce :: "Address \<Rightarrow> 'st \<Rightarrow> u64 \<times> 'st"
  i_SetNonce :: "Address \<Rightarrow> u64 \<Rightarrow> 'st \<Rightarrow> 'st"
  i_GetCodeHash :: "Address \<Rightarrow> 'st \<Rightarrow> Hash \<times> 'st"
  i_GetCode :: "Address \<Rightarrow> 'st \<Rightarrow> bytes \<times> 'st"
  i_SetCode :: "Address \<Rightarrow> bytes \<Rightarrow> 'st \<Rightarrow> 'st"
  i_GetCodeSize :: "Address \<Rightarrow> 'st \<Rightarrow> int \<times> 'st"
  i_AddRefund :: "u64 \<Rightarrow> 'st \<Rightarrow> 'st"
  i_SubRefund :: "u64 \<Rightarrow> 'st \<Rightarrow> 'st option"
  i_GetRefund :: "'st \<Rightarrow> u64"
  i_GetCommittedState :: "Address \<Rightarrow> Hash \<Rightarrow> 'st \<Rightarrow> Hash \<times> 'st"
  i_GetState :: "Address \<Rightarrow> Hash \<Rightarrow> 'st \<Rightarrow> Hash \<times> 'st"
  i_SetState :: "Address \<Rightarrow> Hash \<Rightarrow> Hash \<Rightarrow> 'st \<Rightarrow> 'st"
  i_GetTransientState :: "Address \<Rightarrow> Hash \<Rightarrow> 'st \<Rightarrow> Hash"
  i_SetTransientState :: "Address \<Rightarrow> Hash \<Rightarrow> Hash \<Rightarrow> 'st \<Rightarrow> 'st"
  i_Suicide :: "Address \<Rightarrow> 'st \<Rightarrow> bool \<times> 'st"
  i_HasSuicided :: "Address \<Rightarrow> 'st \<Rightarrow> bool \<times> 'st"
  i_Exist :: "Address \<Rightarrow> 'st \<Rightarrow> bool \<times> 'st"
  i_Empty :: "Address \<Rightarrow> 'st \<Rightarrow> bool \<times> 'st"
  i_AddressInAccessList :: "Address \<Rightarrow> 'st \<Rightarrow> bool"
  i_SlotInAccessList :: "Address \<Rightarrow> Hash \<Rightarrow> 'st \<Rightarrow> bool \<times> bool"
  i_AddAddressToAccessList :: "Address \<Rightarrow> 'st \<Rightarrow> 'st"
  i_AddSlotToAccessList :: "Address \<Rightarrow> Hash \<Rightarrow> 'st \<Rightarrow> 'st"
  i_Prepare :: "Rules \<Rightarrow> Address \<Rightarrow> Address \<Rightarrow> Address option \<Rightarrow> Address list \<Rightarrow>
    (Address \<times> Hash list) list \<Rightarrow> 'st \<Rightarrow> 'st"
  i_RevertToSnapshot :: "nat \<Rightarrow> 'st \<Rightarrow> 'st option"
  i_Snapshot :: "'st \<Rightarrow> nat \<times> 'st"
  i_AddLog :: "Log \<Rightarrow> 'st \<Rightarrow> 'st"
  i_AddPreimage :: "Hash \<Rightarrow> bytes \<Rightarrow> 'st \<Rightarrow> 'st"

section \<open>The contract\<close>

text \<open>
  \<open>ok\<close> is the invariant of the database and \<open>evo s t\<close> says that \<open>t\<close> results from \<open>s\<close> by
  undoable changes. \<open>same\<close> compares what a user can see, and \<open>quiet s t\<close> says that no balance,
  nonce, code, storage slot, transient slot, log or self-destruct mark differs between \<open>s\<close> and
  \<open>t\<close>, although empty accounts may have come into being and the access list may have grown.
  \<open>bal s a\<close> is the balance of the account \<open>a\<close>, zero where there is none.
  The length of a code fits the signed 64-bit integers in which Go counts slices.
\<close>

definition go_slice :: "'a list \<Rightarrow> bool" where
  "go_slice xs \<longleftrightarrow> length xs < 2 ^ 63"

lemma go_slice_Nil [simp]: "go_slice []"
  by (simp add: go_slice_def)

locale vm_state =
  fixes ops :: "'st StateDB_ops"
    and ok :: "'st \<Rightarrow> bool"
    and evo :: "'st \<Rightarrow> 'st \<Rightarrow> bool"
    and same :: "'st \<Rightarrow> 'st \<Rightarrow> bool"
    and quiet :: "'st \<Rightarrow> 'st \<Rightarrow> bool"
    and bal :: "'st \<Rightarrow> Address \<Rightarrow> int"
  assumes evo_refl: "ok s \<Longrightarrow> evo s s"
    and evo_trans: "evo s t \<Longrightarrow> evo t u \<Longrightarrow> evo s u"
    and evo_ok: "evo s t \<Longrightarrow> ok t"
    and quiet_refl: "quiet s s"
    and quiet_trans: "quiet s t \<Longrightarrow> quiet t u \<Longrightarrow> quiet s u"
    and same_refl: "same s s"
    and same_trans: "same s t \<Longrightarrow> same t u \<Longrightarrow> same s u"
    and same_quiet: "same s t \<Longrightarrow> quiet s t"
    and CreateAccount_evo: "ok s \<Longrightarrow> evo s (i_CreateAccount ops a s)"
    and SubBalance_evo: "ok s \<Longrightarrow> evo s (i_SubBalance ops a x s)"
    and AddBalance_evo: "ok s \<Longrightarrow> evo s (i_AddBalance ops a x s)"
    and SetNonce_evo: "ok s \<Longrightarrow> evo s (i_SetNonce ops a n s)"
    and SetCode_evo: "ok s \<Longrightarrow> go_slice c \<Longrightarrow> evo s (i_SetCode ops a c s)"
    and AddRefund_evo: "ok s \<Longrightarrow> evo s (i_AddRefund ops g s)"
    and SubRefund_evo: "ok s \<Longrightarrow> i_SubRefund ops g s = Some t \<Longrightarrow> evo s t"
    and SetState_evo: "ok s \<Longrightarrow> evo s (i_SetState ops a k v s)"
    and SetTransientState_evo: "ok s \<Longrightarrow> evo s (i_SetTransientState ops a k v s)"
    and Suicide_evo: "ok s \<Longrightarrow> evo s (snd (i_Suicide ops a s))"
    and AddLog_evo: "ok s \<Longrightarrow> evo s (i_AddLog ops l s)"
    and AddPreimage_evo: "ok s \<Longrightarrow> evo s (i_AddPreimage ops h p s)"
    and AddAddressToAccessList_evo: "ok s \<Longrightarrow> evo s (i_AddAddressToAccessList ops a s)"
    and AddSlotToAccessList_evo: "ok s \<Longrightarrow> evo s (i_AddSlotToAccessList ops a k s)"
    and GetBalance_evo: "ok s \<Longrightarrow> evo s (snd (i_GetBalance ops a s))"
    and GetNonce_evo: "ok s \<Longrightarrow> evo s (snd (i_GetNonce ops a s))"
    and GetCodeHash_evo: "ok s \<Longrightarrow> evo s (snd (i_GetCodeHash ops a s))"
    and GetCode_evo: "ok s \<Longrightarrow> evo s (snd (i_GetCode ops a s))"
    and GetCodeSize_evo: "ok s \<Longrightarrow> evo s (snd (i_GetCodeSize ops a s))"
    and GetCommittedState_evo: "ok s \<Longrightarrow> evo s (snd (i_GetCommittedState ops a k s))"
    and GetState_evo: "ok s \<Longrightarrow> evo s (snd (i_GetState ops a k s))"
    and HasSuicided_evo: "ok s \<Longrightarrow> evo s (snd (i_HasSuicided ops a s))"
    and Exist_evo: "ok s \<Longrightarrow> evo s (snd (i_Exist ops a s))"
    and Empty_evo: "ok s \<Longrightarrow> evo s (snd (i_Empty ops a s))"
    and GetCode_size: "ok s \<Longrightarrow> go_slice (fst (i_GetCode ops a s))"
    and GetBalance_same: "ok s \<Longrightarrow> same s (snd (i_GetBalance ops a s))"
    and GetNonce_same: "ok s \<Longrightarrow> same s (snd (i_GetNonce ops a s))"
    and GetCodeHash_same: "ok s \<Longrightarrow> same s (snd (i_GetCodeHash ops a s))"
    and GetCode_same: "ok s \<Longrightarrow> same s (snd (i_GetCode ops a s))"
    and GetCodeSize_same: "ok s \<Longrightarrow> same s (snd (i_GetCodeSize ops a s))"
    and GetCommittedState_same: "ok s \<Longrightarrow> same s (snd (i_GetCommittedState ops a k s))"
    and GetState_same: "ok s \<Longrightarrow> same s (snd (i_GetState ops a k s))"
    and HasSuicided_same: "ok s \<Longrightarrow> same s (snd (i_HasSuicided ops a s))"
    and Exist_same: "ok s \<Longrightarrow> same s (snd (i_Exist ops a s))"
    and Empty_same: "ok s \<Longrightarrow> same s (snd (i_Empty ops a s))"
    and CreateAccount_quiet:
      "ok s \<Longrightarrow> \<not> fst (i_Exist ops a s) \<Longrightarrow> quiet s (i_CreateAccount ops a (snd (i_Exist ops a s)))"
    and SubBalance_quiet: "ok s \<Longrightarrow> quiet s (i_SubBalance ops a 0 s)"
    and AddBalance_quiet: "ok s \<Longrightarrow> quiet s (i_AddBalance ops a 0 s)"
    and AddPreimage_quiet: "ok s \<Longrightarrow> quiet s (i_AddPreimage ops h p s)"
    and AddAddressToAccessList_quiet: "ok s \<Longrightarrow> quiet s (i_AddAddressToAccessList ops a s)"
    and AddSlotToAccessList_quiet: "ok s \<Longrightarrow> quiet s (i_AddSlotToAccessList ops a k s)"
    and Snapshot_evo: "ok s \<Longrightarrow> i_Snapshot ops s = (i, t) \<Longrightarrow> evo s t"
    and Snapshot_same: "ok s \<Longrightarrow> i_Snapshot ops s = (i, t) \<Longrightarrow> same s t"
    and Revert: "ok s \<Longrightarrow> i_Snapshot ops s = (i, t) \<Longrightarrow> evo t u \<Longrightarrow>
      \<exists>v. i_RevertToSnapshot ops i u = Some v \<and> same s v \<and> evo s v"
    and same_bal: "same s t \<Longrightarrow> bal t = bal s"
    and GetBalance_bal: "ok s \<Longrightarrow> fst (i_GetBalance ops a s) = bal s a"
    and AddBalance_bal: "ok s \<Longrightarrow> bal (i_AddBalance ops a x s) = (bal s)(a := bal s a + x)"
    and SubBalance_bal: "ok s \<Longrightarrow> bal (i_SubBalance ops a x s) = (bal s)(a := bal s a - x)"
    and Suicide_bal: "ok s \<Longrightarrow> bal (snd (i_Suicide ops a s)) = (bal s)(a := 0)"
    and CreateAccount_bal: "ok s \<Longrightarrow> bal (i_CreateAccount ops a s) = bal s"
    and SetNonce_bal: "ok s \<Longrightarrow> bal (i_SetNonce ops a n s) = bal s"
    and SetCode_bal: "ok s \<Longrightarrow> bal (i_SetCode ops a c s) = bal s"
    and AddRefund_bal: "ok s \<Longrightarrow> bal (i_AddRefund ops g s) = bal s"
    and SubRefund_bal: "ok s \<Longrightarrow> i_SubRefund ops g s = Some t \<Longrightarrow> bal t = bal s"
    and SetState_bal: "ok s \<Longrightarrow> bal (i_SetState ops a k v s) = bal s"
    and SetTransientState_bal: "ok s \<Longrightarrow> bal (i_SetTransientState ops a k v s) = bal s"
    and AddLog_bal: "ok s \<Longrightarrow> bal (i_AddLog ops l s) = bal s"
    and AddPreimage_bal: "ok s \<Longrightarrow> bal (i_AddPreimage ops h p s) = bal s"
    and AddAddressToAccessList_bal: "ok s \<Longrightarrow> bal (i_AddAddressToAccessList ops a s) = bal s"
    and AddSlotToAccessList_bal: "ok s \<Longrightarrow> bal (i_AddSlotToAccessList ops a k s) = bal s"
begin

lemma Revert_quiet:
  assumes "ok s" "i_Snapshot ops s = (i, t)" "evo t u" "i_RevertToSnapshot ops i u = Some v"
  shows "evo s v" "same s v" "quiet s v"
  using Revert [OF assms(1-3)] assms(4) same_quiet by auto

end

end
