(* ===== verification/VM_Basics.thy ===== *)
theory VM_Basics
  imports Geth_Prelude Protocol_Params
begin

text \<open>
  The data the virtual machine computes on (\<^verbatim>\<open>core/vm/{errors,stack,memory,common,memory_table,
  gas}.go\<close>): its errors, the operand stack, the byte memory, and the size and price of memory
  expansion. The 256-bit integers come from the package \<^verbatim>\<open>holiman/uint256\<close>, which is not part of
  the sources: the record \<open>uint256_lib\<close> lists the functions the machine calls, every definition
  takes it as an argument, and \<open>uint256_ok\<close> states their documented meaning.
\<close>

section \<open>Errors (errors.go)\<close>

datatype vm_error =
    ErrOutOfGas
  | ErrCodeStoreOutOfGas
  | ErrDepth
  | ErrInsufficientBalance
  | ErrContractAddressCollision
  | ErrExecutionReverted
  | ErrMaxInitCodeSizeExceeded
  | ErrMaxCodeSizeExceeded
  | ErrInvalidJump
  | ErrWriteProtection
  | ErrReturnDataOutOfBounds
  | ErrGasUintOverflow
  | ErrInvalidCode
  | ErrNonceUintOverflow
  | errStopToken
  | ErrStackUnderflow nat nat
  | ErrStackOverflow nat nat
  | ErrInvalidOpCode byte
  | ErrSentry \<comment> \<open>not enough gas for reentrancy sentry\<close>
  | ErrPrecompile string \<comment> \<open>an error of a precompiled contract, by its text\<close>

section \<open>256-bit integers (package uint256)\<close>

text \<open>
  An \<^verbatim>\<open>uint256.Int\<close> is four 64-bit limbs and is represented by the word they make up. Methods that
  store their result in the receiver return it.
\<close>

record uint256_lib =
  u_Add :: "u256 \<Rightarrow> u256 \<Rightarrow> u256"
  u_Sub :: "u256 \<Rightarrow> u256 \<Rightarrow> u256"
  u_Mul :: "u256 \<Rightarrow> u256 \<Rightarrow> u256"
  u_Div :: "u256 \<Rightarrow> u256 \<Rightarrow> u256"
  u_SDiv :: "u256 \<Rightarrow> u256 \<Rightarrow> u256"
  u_Mod :: "u256 \<Rightarrow> u256 \<Rightarrow> u256"
  u_SMod :: "u256 \<Rightarrow> u256 \<Rightarrow> u256"
  u_Exp :: "u256 \<Rightarrow> u256 \<Rightarrow> u256"
  u_ExtendSign :: "u256 \<Rightarrow> u256 \<Rightarrow> u256"
  u_Not :: "u256 \<Rightarrow> u256"
  u_Lt :: "u256 \<Rightarrow> u256 \<Rightarrow> bool"
  u_Gt :: "u256 \<Rightarrow> u256 \<Rightarrow> bool"
  u_Slt :: "u256 \<Rightarrow> u256 \<Rightarrow> bool"
  u_Sgt :: "u256 \<Rightarrow> u256 \<Rightarrow> bool"
  u_Eq :: "u256 \<Rightarrow> u256 \<Rightarrow> bool"
  u_IsZero :: "u256 \<Rightarrow> bool"
  u_And :: "u256 \<Rightarrow> u256 \<Rightarrow> u256"
  u_Or :: "u256 \<Rightarrow> u256 \<Rightarrow> u256"
  u_Xor :: "u256 \<Rightarrow> u256 \<Rightarrow> u256"
  u_Byte :: "u256 \<Rightarrow> u256 \<Rightarrow> u256" \<comment> \<open>\<open>u_Byte val th\<close> is \<^verbatim>\<open>val.Byte(th)\<close>\<close>
  u_AddMod :: "u256 \<Rightarrow> u256 \<Rightarrow> u256 \<Rightarrow> u256"
  u_MulMod :: "u256 \<Rightarrow> u256 \<Rightarrow> u256 \<Rightarrow> u256"
  u_LtUint64 :: "u256 \<Rightarrow> u64 \<Rightarrow> bool"
  u_GtUint64 :: "u256 \<Rightarrow> u64 \<Rightarrow> bool"
  u_Lsh :: "u256 \<Rightarrow> u64 \<Rightarrow> u256"
  u_Rsh :: "u256 \<Rightarrow> u64 \<Rightarrow> u256"
  u_SRsh :: "u256 \<Rightarrow> u64 \<Rightarrow> u256"
  u_Sign :: "u256 \<Rightarrow> int"
  u_BitLen :: "u256 \<Rightarrow> nat"
  u_Uint64 :: "u256 \<Rightarrow> u64"
  u_IsUint64 :: "u256 \<Rightarrow> bool"
  u_Uint64WithOverflow :: "u256 \<Rightarrow> u64 \<times> bool"
  u_SetUint64 :: "u64 \<Rightarrow> u256"
  u_SetBytes :: "bytes \<Rightarrow> u256"
  u_Bytes32 :: "u256 \<Rightarrow> bytes"
  u_Bytes20 :: "u256 \<Rightarrow> bytes"
  u_ToBig :: "u256 \<Rightarrow> int"
  u_FromBig :: "int \<Rightarrow> u256"

text \<open>The documented meaning: unsigned arithmetic modulo 2^256, with two's complement where signed.\<close>

definition sign_extend_byte :: "u256 \<Rightarrow> u256 \<Rightarrow> u256" where
  "sign_extend_byte x b =
     (if b < 31 then word_of_int (signed_take_bit (8 * unat b + 7) (uint x)) else x)"

fun bit_len :: "nat \<Rightarrow> nat" where
  "bit_len n = (if n = 0 then 0 else Suc (bit_len (n div 2)))"

declare bit_len.simps [simp del]

definition word_uint256 :: uint256_lib where
  "word_uint256 =
     \<lparr>u_Add = (+), u_Sub = (-), u_Mul = (*),
      u_Div = (\<lambda>x y. if y = 0 then 0 else x div y),
      u_SDiv = (\<lambda>x y. if y = 0 then 0 else word_of_int (sgn (sint x) * sgn (sint y) * (\<bar>sint x\<bar> div \<bar>sint y\<bar>))),
      u_Mod = (\<lambda>x y. if y = 0 then 0 else x mod y),
      u_SMod = (\<lambda>x y. if y = 0 then 0 else word_of_int (sgn (sint x) * (\<bar>sint x\<bar> mod \<bar>sint y\<bar>))),
      u_Exp = (\<lambda>x y. x ^ unat y),
      u_ExtendSign = sign_extend_byte,
      u_Not = (\<lambda>x. NOT x),
      u_Lt = (<), u_Gt = (\<lambda>x y. y < x),
      u_Slt = (\<lambda>x y. sint x < sint y), u_Sgt = (\<lambda>x y. sint y < sint x),
      u_Eq = (=), u_IsZero = (\<lambda>x. x = 0),
      u_And = (\<lambda>x y. x AND y), u_Or = (\<lambda>x y. x OR y), u_Xor = (\<lambda>x y. x XOR y),
      u_Byte = (\<lambda>x n. if n < 32 then drop_bit (8 * (31 - unat n)) x AND 255 else 0),
      u_AddMod = (\<lambda>x y m. if m = 0 then 0 else of_nat ((unat x + unat y) mod unat m)),
      u_MulMod = (\<lambda>x y m. if m = 0 then 0 else of_nat ((unat x * unat y) mod unat m)),
      u_LtUint64 = (\<lambda>x n. unat x < unat n), u_GtUint64 = (\<lambda>x n. unat n < unat x),
      u_Lsh = (\<lambda>x n. push_bit (unat n) x), u_Rsh = (\<lambda>x n. drop_bit (unat n) x),
      u_SRsh = (\<lambda>x n. word_of_int (sint x div 2 ^ unat n)),
      u_Sign = (\<lambda>x. sgn (sint x)),
      u_BitLen = (\<lambda>x. bit_len (unat x)),
      u_Uint64 = ucast, u_IsUint64 = (\<lambda>x. unat x < 2 ^ 64),
      u_Uint64WithOverflow = (\<lambda>x. (ucast x, \<not> unat x < 2 ^ 64)),
      u_SetUint64 = ucast, u_SetBytes = (\<lambda>b. of_nat (be_nat b)),
      u_Bytes32 = (\<lambda>x. be_bytes 32 (unat x)), u_Bytes20 = (\<lambda>x. be_bytes 20 (unat x)),
      u_ToBig = uint, u_FromBig = word_of_int\<rparr>"

text \<open>What the safety results use: the conversions and the comparison with zero.\<close>

definition uint256_ok :: "uint256_lib \<Rightarrow> bool" where
  "uint256_ok U \<longleftrightarrow>
     (\<forall>x. u_IsZero U x \<longleftrightarrow> x = 0) \<and> (\<forall>x. u_Sign U x = 0 \<longleftrightarrow> x = 0) \<and>
     (\<forall>x. u_Uint64 U x = ucast x) \<and> (\<forall>x. u_IsUint64 U x \<longleftrightarrow> unat x < 2 ^ 64) \<and>
     (\<forall>x. u_Uint64WithOverflow U x = (ucast x, \<not> unat x < 2 ^ 64)) \<and>
     (\<forall>x. length (u_Bytes32 U x) = 32) \<and> (\<forall>x. u_ToBig U x = uint x) \<and>
     (\<forall>x y. u_Add U x y = x + y)"

lemma word_uint256_ok: "uint256_ok word_uint256"
proof -
  have "sgn (sint (x :: u256)) = 0 \<longleftrightarrow> x = 0" for x
    by (metis sgn_eq_0_iff signed_0 signed_word_eqI)
  then show ?thesis by (simp add: uint256_ok_def word_uint256_def)
qed

definition u256_address :: "uint256_lib \<Rightarrow> u256 \<Rightarrow> Address" where
  "u256_address U x = BytesToAddress (u_Bytes20 U x)"

definition u256_hash :: "uint256_lib \<Rightarrow> u256 \<Rightarrow> Hash" where
  "u256_hash U x = BytesToHash (u_Bytes32 U x)"

section \<open>The operand stack (stack.go)\<close>

text \<open>The top of the stack is the head of the list. Reading below the bottom panics.\<close>

type_synonym Stack = "u256 list"

definition stack_push :: "u256 \<Rightarrow> Stack \<Rightarrow> Stack" where
  [simp]: "stack_push d st = d # st"

definition stack_pop :: "Stack \<Rightarrow> (u256 \<times> Stack) outcome" where
  "stack_pop st = (case st of [] \<Rightarrow> Panic StackPanic | x # st' \<Rightarrow> Ret (x, st'))"

definition stack_peek :: "Stack \<Rightarrow> u256 outcome" where
  "stack_peek st = (case st of [] \<Rightarrow> Panic StackPanic | x # st' \<Rightarrow> Ret x)"

definition stack_Back :: "nat \<Rightarrow> Stack \<Rightarrow> u256 outcome" where
  "stack_Back n st = (if n < length st then Ret (st ! n) else Panic StackPanic)"

definition stack_swap :: "nat \<Rightarrow> Stack \<Rightarrow> Stack outcome" where
  "stack_swap n st =
     (if 0 < n \<and> n \<le> length st then Ret (st[n - 1 := st ! 0, 0 := st ! (n - 1)]) else Panic StackPanic)"

definition stack_dup :: "nat \<Rightarrow> Stack \<Rightarrow> Stack outcome" where
  "stack_dup n st =
     (if 0 < n \<and> n \<le> length st then Ret (stack_push (st ! (n - 1)) st) else Panic StackPanic)"

text \<open>Several pops in a row, as the instructions write them.\<close>

definition pop1 :: "Stack \<Rightarrow> (u256 \<Rightarrow> Stack \<Rightarrow> 'a outcome) \<Rightarrow> 'a outcome" where
  "pop1 st k = bind_outcome (stack_pop st) (\<lambda>(x, st). k x st)"

definition pop2 :: "Stack \<Rightarrow> (u256 \<Rightarrow> u256 \<Rightarrow> Stack \<Rightarrow> 'a outcome) \<Rightarrow> 'a outcome" where
  "pop2 st k = pop1 st (\<lambda>x st. pop1 st (k x))"

definition pop3 :: "Stack \<Rightarrow> (u256 \<Rightarrow> u256 \<Rightarrow> u256 \<Rightarrow> Stack \<Rightarrow> 'a outcome) \<Rightarrow> 'a outcome" where
  "pop3 st k = pop1 st (\<lambda>x st. pop2 st (k x))"

definition pop4 :: "Stack \<Rightarrow> (u256 \<Rightarrow> u256 \<Rightarrow> u256 \<Rightarrow> u256 \<Rightarrow> Stack \<Rightarrow> 'a outcome) \<Rightarrow> 'a outcome" where
  "pop4 st k = pop1 st (\<lambda>x st. pop3 st (k x))"

lemma stack_pop_Cons [simp]: "stack_pop (x # st) = Ret (x, st)"
  by (simp add: stack_pop_def)

lemma stack_peek_Cons [simp]: "stack_peek (x # st) = Ret x"
  by (simp add: stack_peek_def)

lemma stack_pop_Ret: "stack_pop st = Ret (x, st') \<longleftrightarrow> st = x # st'"
  by (auto simp: stack_pop_def split: list.split)

lemma stack_peek_Ret: "stack_peek st = Ret x \<longleftrightarrow> (\<exists>st'. st = x # st')"
  by (auto simp: stack_peek_def split: list.split)

lemma pop1_Ret: "pop1 st k = Ret r \<longleftrightarrow> (\<exists>x st'. st = x # st' \<and> k x st' = Ret r)"
  by (cases st) (simp_all add: pop1_def stack_pop_def)

lemma pop2_Ret: "pop2 st k = Ret r \<longleftrightarrow> (\<exists>x y st'. st = x # y # st' \<and> k x y st' = Ret r)"
  by (auto simp: pop2_def pop1_Ret)

lemma pop3_Ret: "pop3 st k = Ret r \<longleftrightarrow> (\<exists>x y z st'. st = x # y # z # st' \<and> k x y z st' = Ret r)"
  by (auto simp: pop3_def pop2_Ret pop1_Ret)

lemma pop4_Ret:
  "pop4 st k = Ret r \<longleftrightarrow> (\<exists>x y z w st'. st = x # y # z # w # st' \<and> k x y z w st' = Ret r)"
  by (auto simp: pop4_def pop3_Ret pop1_Ret)

lemmas pops_Ret = pop1_Ret pop2_Ret pop3_Ret pop4_Ret

lemma pops_NoFuel:
  "pop1 st k = NoFuel \<longleftrightarrow> (\<exists>x st'. st = x # st' \<and> k x st' = NoFuel)"
  "pop2 st l = NoFuel \<longleftrightarrow> (\<exists>x y st'. st = x # y # st' \<and> l x y st' = NoFuel)"
  "pop3 st m = NoFuel \<longleftrightarrow> (\<exists>x y z st'. st = x # y # z # st' \<and> m x y z st' = NoFuel)"
  "pop4 st n = NoFuel \<longleftrightarrow> (\<exists>x y z w st'. st = x # y # z # w # st' \<and> n x y z w st' = NoFuel)"
proof -
  have 1: "pop1 st k = NoFuel \<longleftrightarrow> (\<exists>x st'. st = x # st' \<and> k x st' = NoFuel)"
    for st and k :: "u256 \<Rightarrow> Stack \<Rightarrow> 'b outcome"
    by (cases st) (simp_all add: pop1_def stack_pop_def)
  show "pop1 st k = NoFuel \<longleftrightarrow> (\<exists>x st'. st = x # st' \<and> k x st' = NoFuel)"
    by (cases st) (simp_all add: pop1_def stack_pop_def)
  show "pop2 st l = NoFuel \<longleftrightarrow> (\<exists>x y st'. st = x # y # st' \<and> l x y st' = NoFuel)"
    by (cases st; cases "List.tl st") (simp_all add: pop2_def pop1_def stack_pop_def)
  show "pop3 st m = NoFuel \<longleftrightarrow> (\<exists>x y z st'. st = x # y # z # st' \<and> m x y z st' = NoFuel)"
    by (auto simp: pop3_def pop2_def pop1_def stack_pop_def split: list.splits)
  show "pop4 st n = NoFuel \<longleftrightarrow> (\<exists>x y z w st'. st = x # y # z # w # st' \<and> n x y z w st' = NoFuel)"
    by (auto simp: pop4_def pop3_def pop2_def pop1_def stack_pop_def split: list.splits)
qed

lemma pops_simps [simp]:
  "pop1 (x # st) k = k x st" "pop2 (x # y # st) l = l x y st" "pop3 (x # y # z # st) m = m x y z st"
  "pop4 (x # y # z # w # st) n = n x y z w st"
  by (simp_all add: pop1_def pop2_def pop3_def pop4_def)

section \<open>The byte memory (memory.go)\<close>

record Memory =
  store :: bytes
  lastGasCost :: u64

definition NewMemory :: Memory where
  "NewMemory = \<lparr>store = [], lastGasCost = 0\<rparr>"

definition mem_Len :: "Memory \<Rightarrow> nat" where
  [simp]: "mem_Len m = length (store m)"

text \<open>Go's built-in \<^verbatim>\<open>copy\<close> into the bytes of a slice from an index on.\<close>

definition copy_at :: "nat \<Rightarrow> nat \<Rightarrow> bytes \<Rightarrow> bytes \<Rightarrow> bytes" where
  "copy_at i n src dst =
     (let k = min n (length src) in take i dst @ take k src @ drop (i + k) dst)"

definition mem_Set :: "u64 \<Rightarrow> u64 \<Rightarrow> bytes \<Rightarrow> Memory \<Rightarrow> Memory outcome" where
  "mem_Set offset sz v m =
     (if 0 < sz then
        if of_nat (length (store m)) < offset + sz then Panic MemoryPanic
        else if offset + sz < offset then Panic SlicePanic
        else Ret (m\<lparr>store := copy_at (unat offset) (unat sz) v (store m)\<rparr>)
      else Ret m)"

definition mem_Set32 :: "uint256_lib \<Rightarrow> u64 \<Rightarrow> u256 \<Rightarrow> Memory \<Rightarrow> Memory outcome" where
  "mem_Set32 U offset v m =
     (if of_nat (length (store m)) < offset + 32 then Panic MemoryPanic
      else if length (store m) < unat offset then Panic SlicePanic
      else Ret (m\<lparr>store := copy_at (unat offset) (length (store m) - unat offset) (u_Bytes32 U v) (store m)\<rparr>))"

definition mem_Resize :: "u64 \<Rightarrow> Memory \<Rightarrow> Memory" where
  "mem_Resize sz m =
     (if of_nat (mem_Len m) < sz then
        m\<lparr>store := store m @ replicate (unat (sz - of_nat (mem_Len m))) 0\<rparr>
      else m)"

text \<open>
  Slicing past the length of the store is a panic of the model. Go checks against the capacity of
  the backing array, which may be larger; no read of the interpreter gets there.
\<close>

definition mem_slice :: "int \<Rightarrow> int \<Rightarrow> Memory \<Rightarrow> bytes outcome" where
  "mem_slice offset sz m =
     (if 0 \<le> offset \<and> 0 \<le> sz \<and> offset + sz \<le> int (length (store m))
      then Ret (take (nat sz) (drop (nat offset) (store m))) else Panic MemoryPanic)"

definition mem_GetCopy :: "int \<Rightarrow> int \<Rightarrow> Memory \<Rightarrow> bytes outcome" where
  "mem_GetCopy offset sz m =
     (if sz = 0 then Ret []
      else if offset < int (length (store m)) then
        bind_outcome (mem_slice offset sz m) (\<lambda>src. Ret (copy_at 0 (nat sz) src (replicate (nat sz) 0)))
      else Ret [])"

definition mem_GetPtr :: "int \<Rightarrow> int \<Rightarrow> Memory \<Rightarrow> bytes outcome" where
  "mem_GetPtr offset sz m =
     (if sz = 0 then Ret [] else if offset < int (length (store m)) then mem_slice offset sz m else Ret [])"

section \<open>Sizes (common.go)\<close>

definition calcMemSize64WithUint :: "uint256_lib \<Rightarrow> u256 \<Rightarrow> u64 \<Rightarrow> u64 \<times> bool" where
  "calcMemSize64WithUint U off length64 =
     (if length64 = 0 then (0, False)
      else case u_Uint64WithOverflow U off of
        (offset64, overflow) \<Rightarrow>
          if overflow then (0, True)
          else let v = offset64 + length64 in (v, v < offset64))"

definition calcMemSize64 :: "uint256_lib \<Rightarrow> u256 \<Rightarrow> u256 \<Rightarrow> u64 \<times> bool" where
  "calcMemSize64 U off l =
     (if \<not> u_IsUint64 U l then (0, True) else calcMemSize64WithUint U off (u_Uint64 U l))"

definition getData :: "bytes \<Rightarrow> u64 \<Rightarrow> u64 \<Rightarrow> bytes outcome" where
  "getData data start sz =
     (let len = of_nat (length data);
          start = (if len < start then len else start);
          e = start + sz;
          e = (if len < e then len else e)
      in if e < start then Panic SlicePanic
         else Ret (RightPadBytes (take (unat e - unat start) (drop (unat start) data)) (nat (sint sz))))"

definition toWordSize :: "u64 \<Rightarrow> u64" where
  "toWordSize sz = (if MaxUint64 - 31 < sz then MaxUint64 div 32 + 1 else (sz + 31) div 32)"

definition allZero :: "bytes \<Rightarrow> bool" where
  "allZero b = list_all (\<lambda>x. x = 0) b"

section \<open>Memory sizes of the instructions (memory_table.go)\<close>

type_synonym memorySizeFunc = "Stack \<Rightarrow> (u64 \<times> bool) outcome"

definition back2 :: "nat \<Rightarrow> nat \<Rightarrow> Stack \<Rightarrow> (u256 \<Rightarrow> u256 \<Rightarrow> 'a outcome) \<Rightarrow> 'a outcome" where
  "back2 i j st k = bind_outcome (stack_Back i st) (\<lambda>x. bind_outcome (stack_Back j st) (k x))"

definition memoryKeccak256 :: "uint256_lib \<Rightarrow> memorySizeFunc" where
  "memoryKeccak256 U st = back2 0 1 st (\<lambda>x y. Ret (calcMemSize64 U x y))"

definition memoryCallDataCopy :: "uint256_lib \<Rightarrow> memorySizeFunc" where
  "memoryCallDataCopy U st = back2 0 2 st (\<lambda>x y. Ret (calcMemSize64 U x y))"

definition memoryReturnDataCopy :: "uint256_lib \<Rightarrow> memorySizeFunc" where
  "memoryReturnDataCopy U st = back2 0 2 st (\<lambda>x y. Ret (calcMemSize64 U x y))"

definition memoryCodeCopy :: "uint256_lib \<Rightarrow> memorySizeFunc" where
  "memoryCodeCopy U st = back2 0 2 st (\<lambda>x y. Ret (calcMemSize64 U x y))"

definition memoryExtCodeCopy :: "uint256_lib \<Rightarrow> memorySizeFunc" where
  "memoryExtCodeCopy U st = back2 1 3 st (\<lambda>x y. Ret (calcMemSize64 U x y))"

definition memoryMLoad :: "uint256_lib \<Rightarrow> memorySizeFunc" where
  "memoryMLoad U st = bind_outcome (stack_Back 0 st) (\<lambda>x. Ret (calcMemSize64WithUint U x 32))"

definition memoryMStore8 :: "uint256_lib \<Rightarrow> memorySizeFunc" where
  "memoryMStore8 U st = bind_outcome (stack_Back 0 st) (\<lambda>x. Ret (calcMemSize64WithUint U x 1))"

definition memoryMStore :: "uint256_lib \<Rightarrow> memorySizeFunc" where
  "memoryMStore U st = bind_outcome (stack_Back 0 st) (\<lambda>x. Ret (calcMemSize64WithUint U x 32))"

definition memoryCreate :: "uint256_lib \<Rightarrow> memorySizeFunc" where
  "memoryCreate U st = back2 1 2 st (\<lambda>x y. Ret (calcMemSize64 U x y))"

definition memoryCreate2 :: "uint256_lib \<Rightarrow> memorySizeFunc" where
  "memoryCreate2 U st = back2 1 2 st (\<lambda>x y. Ret (calcMemSize64 U x y))"

definition max_size :: "u64 \<times> bool \<Rightarrow> u64 \<times> bool \<Rightarrow> u64 \<times> bool" where
  "max_size x y =
     (if snd x then (0, True) else if snd y then (0, True)
      else if fst y < fst x then (fst x, False) else (fst y, False))"

definition memoryCall :: "uint256_lib \<Rightarrow> memorySizeFunc" where
  "memoryCall U st = back2 5 6 st (\<lambda>a b. back2 3 4 st (\<lambda>c d. Ret (max_size (calcMemSize64 U a b) (calcMemSize64 U c d))))"

definition memoryDelegateCall :: "uint256_lib \<Rightarrow> memorySizeFunc" where
  "memoryDelegateCall U st = back2 4 5 st (\<lambda>a b. back2 2 3 st (\<lambda>c d. Ret (max_size (calcMemSize64 U a b) (calcMemSize64 U c d))))"

definition memoryStaticCall :: "uint256_lib \<Rightarrow> memorySizeFunc" where
  "memoryStaticCall U st = back2 4 5 st (\<lambda>a b. back2 2 3 st (\<lambda>c d. Ret (max_size (calcMemSize64 U a b) (calcMemSize64 U c d))))"

definition memoryReturn :: "uint256_lib \<Rightarrow> memorySizeFunc" where
  "memoryReturn U st = back2 0 1 st (\<lambda>x y. Ret (calcMemSize64 U x y))"

definition memoryRevert :: "uint256_lib \<Rightarrow> memorySizeFunc" where
  "memoryRevert U st = back2 0 1 st (\<lambda>x y. Ret (calcMemSize64 U x y))"

definition memoryLog :: "uint256_lib \<Rightarrow> memorySizeFunc" where
  "memoryLog U st = back2 0 1 st (\<lambda>x y. Ret (calcMemSize64 U x y))"

section \<open>Gas constants and the gas of a call (gas.go)\<close>

definition GasQuickStep :: u64 where [simp]: "GasQuickStep = 2"
definition GasFastestStep :: u64 where [simp]: "GasFastestStep = 3"
definition GasFastStep :: u64 where [simp]: "GasFastStep = 5"
definition GasMidStep :: u64 where [simp]: "GasMidStep = 8"
definition GasSlowStep :: u64 where [simp]: "GasSlowStep = 10"
definition GasExtStep :: u64 where [simp]: "GasExtStep = 20"

definition callGas :: "uint256_lib \<Rightarrow> bool \<Rightarrow> u64 \<Rightarrow> u64 \<Rightarrow> u256 \<Rightarrow> vm_error + u64" where
  "callGas U isEip150 availableGas base callCost =
     (let availableGas = (if isEip150 then availableGas - base else availableGas);
          gas = availableGas - availableGas div 64
      in if isEip150 \<and> (\<not> u_IsUint64 U callCost \<or> gas < u_Uint64 U callCost) then Inr gas
         else if \<not> u_IsUint64 U callCost then Inl ErrGasUintOverflow
         else Inr (u_Uint64 U callCost))"

section \<open>The price of memory (gas_table.go, memoryGasCost)\<close>

definition memoryGasCost :: "Memory \<Rightarrow> u64 \<Rightarrow> (vm_error + u64) \<times> Memory" where
  "memoryGasCost mem newMemSize =
     (if newMemSize = 0 then (Inr 0, mem)
      else if 0x1FFFFFFFE0 < newMemSize then (Inl ErrGasUintOverflow, mem)
      else let newMemSizeWords = toWordSize newMemSize;
               newMemSize = newMemSizeWords * 32
           in if of_nat (mem_Len mem) < newMemSize then
                let square = newMemSizeWords * newMemSizeWords;
                    linCoef = newMemSizeWords * MemoryGas;
                    quadCoef = square div QuadCoeffDiv;
                    newTotalFee = linCoef + quadCoef;
                    fee = newTotalFee - lastGasCost mem
                in (Inr fee, mem\<lparr>lastGasCost := newTotalFee\<rparr>)
              else (Inr 0, mem))"


text \<open>The fee of a memory of \<open>w\<close> words, and the invariant that ties the cached fee to the size.\<close>

definition mem_fee :: "nat \<Rightarrow> nat" where
  "mem_fee w = 3 * w + w * w div 512"

definition mem_ok :: "Memory \<Rightarrow> bool" where
  "mem_ok m \<longleftrightarrow> 32 dvd length (store m) \<and> length (store m) \<le> 0x1FFFFFFFE0 \<and>
     unat (lastGasCost m) = mem_fee (length (store m) div 32)"

lemma mem_ok_New [simp]: "mem_ok NewMemory"
  by (simp add: mem_ok_def NewMemory_def mem_fee_def)

lemma mem_fee_mono: "v \<le> w \<Longrightarrow> mem_fee v \<le> mem_fee w"
  by (simp add: mem_fee_def add_mono div_le_mono mult_le_mono)

lemma mem_fee_bound: "w \<le> 0xFFFFFFFF \<Longrightarrow> mem_fee w < 2 ^ 56"
proof -
  assume "w \<le> 0xFFFFFFFF"
  then have "mem_fee w \<le> mem_fee 0xFFFFFFFF" by (rule mem_fee_mono)
  also have "\<dots> < 2 ^ 56" by (simp add: mem_fee_def)
  finally show ?thesis .
qed

lemma unat_toWordSize: "unat (toWordSize sz) = (unat sz + 31) div 32"
proof (cases "MaxUint64 - 31 < sz")
  case True
  have "unat (MaxUint64 - 31) = 18446744073709551584" by (simp add: MaxUint64_def)
  with True have "18446744073709551584 < unat sz" by (simp add: word_less_nat_alt)
  moreover have "unat (MaxUint64 div 32 + 1 :: u64) = 576460752303423488" by (simp add: MaxUint64_def)
  ultimately show ?thesis using True unat_lt_u64 [of sz] by (simp add: toWordSize_def)
next
  case False
  have "unat (MaxUint64 - 31) = 18446744073709551584" by (simp add: MaxUint64_def)
  with False have "unat sz \<le> 18446744073709551584" by (simp add: word_less_nat_alt)
  then have "unat (sz + 31) = unat sz + 31" by (simp add: unat_add_u64)
  with False show ?thesis by (simp add: toWordSize_def unat_div)
qed

lemma unat_mem_words:
  assumes "unat sz \<le> 0x1FFFFFFFE0"
  defines "w \<equiv> (unat sz + 31) div 32"
  shows "unat (toWordSize sz * 32) = w * 32" "w \<le> 0xFFFFFFFF"
    "unat (toWordSize sz * MemoryGas + toWordSize sz * toWordSize sz div QuadCoeffDiv) = mem_fee w"
proof -
  show w: "w \<le> 0xFFFFFFFF" using assms by simp
  have t: "unat (toWordSize sz) = w" by (simp add: unat_toWordSize w_def)
  show "unat (toWordSize sz * 32) = w * 32" using w by (simp add: unat_mult_u64 t)
  have "w * w \<le> 0xFFFFFFFF * 0xFFFFFFFF" using w by (intro mult_le_mono)
  then have "unat (toWordSize sz * toWordSize sz) = w * w" by (simp add: unat_mult_u64 t)
  moreover have "unat (toWordSize sz * 3) = w * 3" using w by (simp add: unat_mult_u64 t)
  ultimately show "unat (toWordSize sz * MemoryGas + toWordSize sz * toWordSize sz div QuadCoeffDiv) = mem_fee w"
    using mem_fee_bound [OF w] by (simp add: unat_add_u64 unat_div mem_fee_def)
qed

lemma memoryGasCost_ok:
  assumes m: "mem_ok m" and sz: "0 < unat sz" "unat sz \<le> 0x1FFFFFFFE0"
  defines "l \<equiv> length (store m) div 32" and "w \<equiv> (unat sz + 31) div 32"
  shows "\<exists>fee m'. memoryGasCost m sz = (Inr fee, m') \<and> unat fee = mem_fee (max l w) - mem_fee l \<and>
    mem_ok (mem_Resize (toWordSize sz * 32) m') \<and>
    length (store (mem_Resize (toWordSize sz * 32) m')) = 32 * max l w"
proof -
  note W = unat_mem_words [OF sz(2), folded w_def]
  have len: "length (store m) = 32 * l" and L: "l \<le> 0xFFFFFFFF"
    using m by (auto simp: mem_ok_def l_def)
  have ul: "unat (of_nat (length (store m)) :: u64) = 32 * l"
    using len L unat_of_nat_u64 [of "32 * l"] by (simp only: len) simp
  have nz: "sz \<noteq> 0" "\<not> 0x1FFFFFFFE0 < sz" using sz by (auto simp: word_less_nat_alt)
  have lt: "(of_nat (length (store m)) < toWordSize sz * 32) \<longleftrightarrow> l < w"
    using W(1) ul by (simp add: word_less_nat_alt)
  show ?thesis
  proof (cases "l < w")
    case True
    let ?T = "toWordSize sz * MemoryGas + toWordSize sz * toWordSize sz div QuadCoeffDiv"
    have fee: "mem_fee l \<le> mem_fee w" using True by (simp add: mem_fee_mono)
    have last: "unat (lastGasCost m) = mem_fee l" using m by (simp add: mem_ok_def l_def)
    have "unat (?T - lastGasCost m) = mem_fee w - mem_fee l"
      using W(3) fee last by (subst unat_sub_u64) (simp_all add: word_le_nat_alt)
    moreover have "unat (toWordSize sz * 32 - of_nat (length (store m))) = 32 * w - 32 * l"
      using True W(1) ul by (subst unat_sub_u64) (simp_all add: word_le_nat_alt)
    ultimately show ?thesis
      using True nz lt W len
      by (simp add: memoryGasCost_def Let_def mem_Resize_def mem_ok_def max_def)
  next
    case False
    with nz lt m len show ?thesis
      by (simp add: memoryGasCost_def Let_def mem_Resize_def max_def)
  qed
qed

text \<open>
  C20: Memory is priced exactly. Under the invariant that the cached fee belongs to the current
  size, asking for \<open>sz\<close> bytes costs nothing for size zero, fails with a gas overflow above
  \<^verbatim>\<open>0x1FFFFFFFE0\<close> bytes, and otherwise costs the difference of the fees 3w + w*w/512 of the new and
  the old number of words, with no wrap-around; after the interpreter's resize the memory has the
  larger of both sizes and the invariant holds again.
\<close>

theorem memory_gas_closed_form:
  assumes "mem_ok m"
  shows "memoryGasCost m 0 = (Inr 0, m) \<and>
    (0x1FFFFFFFE0 < unat sz \<longrightarrow> memoryGasCost m sz = (Inl ErrGasUintOverflow, m)) \<and>
    (0 < unat sz \<and> unat sz \<le> 0x1FFFFFFFE0 \<longrightarrow>
       (\<exists>fee m'. memoryGasCost m sz = (Inr fee, m') \<and>
          unat fee = mem_fee (max (length (store m) div 32) ((unat sz + 31) div 32)) -
            mem_fee (length (store m) div 32) \<and>
          mem_ok (mem_Resize (toWordSize sz * 32) m') \<and>
          length (store (mem_Resize (toWordSize sz * 32) m')) =
            32 * max (length (store m) div 32) ((unat sz + 31) div 32)))"
proof (intro conjI impI)
  show "memoryGasCost m 0 = (Inr 0, m)" by (simp add: memoryGasCost_def)
next
  assume "0x1FFFFFFFE0 < unat sz"
  then have "sz \<noteq> 0" "0x1FFFFFFFE0 < sz" by (auto simp: word_less_nat_alt)
  then show "memoryGasCost m sz = (Inl ErrGasUintOverflow, m)" by (simp add: memoryGasCost_def)
qed (use memoryGasCost_ok [OF assms] in blast)

text \<open>A store of one word at offset 32 of a fresh memory: two words, six units of gas.\<close>

theorem memory_gas_closed_form_witness:
  "mem_ok NewMemory \<and> memoryGasCost NewMemory 0 = (Inr 0, NewMemory) \<and>
   (\<exists>fee m'. memoryGasCost NewMemory 64 = (Inr fee, m') \<and> unat fee = 6)"
  using memory_gas_closed_form [of NewMemory 64] by (auto simp: NewMemory_def mem_fee_def mem_ok_def)

end
