(* ===== verification/VM_Analysis.thy ===== *)
theory VM_Analysis
  imports VM_Basics
begin

unbundle bit_operations_syntax

text \<open>
  The jump destination analysis (\<^verbatim>\<open>core/vm/analysis.go\<close>): a bit vector that marks the bytes of a
  program that are data of a PUSH. The model keeps the multi-bit writes of the code, and the main
  result is that the bitmap separates instructions from push data. Positions are natural numbers:
  a program in memory is far shorter than 2^64 bytes.
\<close>

section \<open>The bit vector\<close>

type_synonym bitvec = bytes

definition set2BitsMask :: "16 word" where "set2BitsMask = 0b11"
definition set3BitsMask :: "16 word" where "set3BitsMask = 0b111"
definition set4BitsMask :: "16 word" where "set4BitsMask = 0b1111"
definition set5BitsMask :: "16 word" where "set5BitsMask = 0b11111"
definition set6BitsMask :: "16 word" where "set6BitsMask = 0b111111"
definition set7BitsMask :: "16 word" where "set7BitsMask = 0b1111111"

text \<open>\<open>bits[i] |= a\<close> and \<open>bits[i] = a\<close> with Go's bounds check.\<close>

definition bv_or :: "nat \<Rightarrow> byte \<Rightarrow> bitvec \<Rightarrow> bitvec outcome" where
  "bv_or i a bits = (if i < length bits then Ret (bits[i := bits ! i OR a]) else Panic BitmapPanic)"

definition bv_put :: "nat \<Rightarrow> byte \<Rightarrow> bitvec \<Rightarrow> bitvec outcome" where
  "bv_put i a bits = (if i < length bits then Ret (bits[i := a]) else Panic BitmapPanic)"

definition set1 :: "nat \<Rightarrow> bitvec \<Rightarrow> bitvec outcome" where
  "set1 pos bits = bv_or (pos div 8) (push_bit (pos mod 8) 1) bits"

definition setN :: "16 word \<Rightarrow> nat \<Rightarrow> bitvec \<Rightarrow> bitvec outcome" where
  "setN flag pos bits =
     (let a = push_bit (pos mod 8) flag
      in bind_outcome (bv_or (pos div 8) (ucast a) bits) (\<lambda>bits.
           let b = ucast (drop_bit 8 a) :: byte
           in if b \<noteq> 0 then bv_put (pos div 8 + 1) b bits else Ret bits))"

definition set8 :: "nat \<Rightarrow> bitvec \<Rightarrow> bitvec outcome" where
  "set8 pos bits =
     (let a = push_bit (pos mod 8) 0xFF
      in bind_outcome (bv_or (pos div 8) a bits) (bv_put (pos div 8 + 1) (NOT a)))"

definition set16 :: "nat \<Rightarrow> bitvec \<Rightarrow> bitvec outcome" where
  "set16 pos bits =
     (let a = push_bit (pos mod 8) 0xFF
      in bind_outcome (bv_or (pos div 8) a bits) (\<lambda>bits.
         bind_outcome (bv_put (pos div 8 + 1) 0xFF bits) (bv_put (pos div 8 + 2) (NOT a))))"

definition codeSegment :: "bitvec \<Rightarrow> nat \<Rightarrow> bool outcome" where
  "codeSegment bits pos =
     (if pos div 8 < length bits then Ret (drop_bit (pos mod 8) (bits ! (pos div 8)) AND 1 = 0)
      else Panic BitmapPanic)"

section \<open>The analysis\<close>

definition PUSH1 :: byte where [simp]: "PUSH1 = 0x60"

text \<open>The two inner loops: 16 and 8 positions at a time.\<close>

function push_loop16 :: "byte \<Rightarrow> nat \<Rightarrow> bitvec \<Rightarrow> (byte \<times> nat \<times> bitvec) outcome" where
  "push_loop16 numbits pc bits =
     (if 16 \<le> numbits
      then bind_outcome (set16 pc bits) (\<lambda>bits. push_loop16 (numbits - 16) (pc + 16) bits)
      else Ret (numbits, pc, bits))"
  by pat_completeness auto
termination
  by (relation "measure (\<lambda>(n, _). unat n)") (auto simp: unat_sub word_le_nat_alt)

function push_loop8 :: "byte \<Rightarrow> nat \<Rightarrow> bitvec \<Rightarrow> (byte \<times> nat \<times> bitvec) outcome" where
  "push_loop8 numbits pc bits =
     (if 8 \<le> numbits
      then bind_outcome (set8 pc bits) (\<lambda>bits. push_loop8 (numbits - 8) (pc + 8) bits)
      else Ret (numbits, pc, bits))"
  by pat_completeness auto
termination
  by (relation "measure (\<lambda>(n, _). unat n)") (auto simp: unat_sub word_le_nat_alt)

declare push_loop16.simps [simp del] push_loop8.simps [simp del]

definition push_rest :: "byte \<Rightarrow> nat \<Rightarrow> bitvec \<Rightarrow> (nat \<times> bitvec) outcome" where
  "push_rest numbits pc bits =
     (if numbits = 1 then bind_outcome (set1 pc bits) (\<lambda>bits. Ret (pc + 1, bits))
      else if numbits = 2 then bind_outcome (setN set2BitsMask pc bits) (\<lambda>bits. Ret (pc + 2, bits))
      else if numbits = 3 then bind_outcome (setN set3BitsMask pc bits) (\<lambda>bits. Ret (pc + 3, bits))
      else if numbits = 4 then bind_outcome (setN set4BitsMask pc bits) (\<lambda>bits. Ret (pc + 4, bits))
      else if numbits = 5 then bind_outcome (setN set5BitsMask pc bits) (\<lambda>bits. Ret (pc + 5, bits))
      else if numbits = 6 then bind_outcome (setN set6BitsMask pc bits) (\<lambda>bits. Ret (pc + 6, bits))
      else if numbits = 7 then bind_outcome (setN set7BitsMask pc bits) (\<lambda>bits. Ret (pc + 7, bits))
      else Ret (pc, bits))"

definition mark_push :: "byte \<Rightarrow> nat \<Rightarrow> bitvec \<Rightarrow> (nat \<times> bitvec) outcome" where
  "mark_push numbits pc bits =
     bind_outcome
       (if 8 \<le> numbits
        then bind_outcome (push_loop16 numbits pc bits) (\<lambda>(numbits, pc, bits). push_loop8 numbits pc bits)
        else Ret (numbits, pc, bits))
       (\<lambda>(numbits, pc, bits). push_rest numbits pc bits)"

text \<open>
  The outer loop. The marks only move the position forward; the guard \<open>pc < pc'\<close> states it for
  the termination of the model and is always true.
\<close>

function codeBitmapInternal :: "bytes \<Rightarrow> nat \<Rightarrow> bitvec \<Rightarrow> bitvec outcome" where
  "codeBitmapInternal code pc bits =
     (if pc < length code then
        let op = code ! pc
        in if sint op < sint PUSH1 then codeBitmapInternal code (pc + 1) bits
           else (case mark_push (op - PUSH1 + 1) (pc + 1) bits of
               Ret (pc', bits') \<Rightarrow> if pc < pc' then codeBitmapInternal code pc' bits' else Ret bits'
             | Panic p \<Rightarrow> Panic p
             | NoFuel \<Rightarrow> NoFuel)
      else Ret bits)"
  by pat_completeness auto
termination
  by (relation "measure (\<lambda>(code, pc, _). length code - pc)") auto

declare codeBitmapInternal.simps [simp del]

definition codeBitmap :: "bytes \<Rightarrow> bitvec outcome" where
  "codeBitmap code = codeBitmapInternal code 0 (replicate (length code div 8 + 1 + 4) 0)"

section \<open>Reference: where instructions start\<close>

definition push_len :: "byte \<Rightarrow> nat" where
  "push_len op = (if 0x60 \<le> unat op \<and> unat op \<le> 0x7f then unat op - 0x5f else 0)"

inductive instr_start :: "bytes \<Rightarrow> nat \<Rightarrow> bool" for code where
  first: "instr_start code 0"
| following: "instr_start code pc \<Longrightarrow> pc < length code \<Longrightarrow> instr_start code (pc + 1 + push_len (code ! pc))"

section \<open>What the writes do\<close>

definition bvbit :: "bitvec \<Rightarrow> nat \<Rightarrow> bool" where
  "bvbit bits j = bit (bits ! (j div 8)) (j mod 8)"

text \<open>\<open>marks n pos bits r\<close>: \<open>r\<close> is \<open>bits\<close> with the \<open>n\<close> positions from \<open>pos\<close> on set.\<close>

definition marks :: "nat \<Rightarrow> nat \<Rightarrow> bitvec \<Rightarrow> bitvec \<Rightarrow> bool" where
  "marks n pos bits r \<longleftrightarrow> length r = length bits \<and>
     (\<forall>j < 8 * length bits. bvbit r j \<longleftrightarrow> bvbit bits j \<or> (pos \<le> j \<and> j < pos + n))"

definition clear_from :: "nat \<Rightarrow> bitvec \<Rightarrow> bool" where
  "clear_from pos bits \<longleftrightarrow> (\<forall>j < 8 * length bits. pos \<le> j \<longrightarrow> \<not> bvbit bits j)"

lemma marks_clear: "marks n pos bits r \<Longrightarrow> clear_from pos bits \<Longrightarrow> clear_from (pos + n) r"
  by (auto simp: marks_def clear_from_def)

lemma marks_0 [simp]: "marks 0 pos bits bits"
  by (auto simp: marks_def)

lemma marks_trans: "marks n pos x y \<Longrightarrow> marks m (pos + n) y z \<Longrightarrow> marks (n + m) pos x z"
  by (auto simp: marks_def)

lemma bit_byte_ff: "bit (0xFF :: byte) k \<longleftrightarrow> k < 8"
proof -
  have "(0xFF :: byte) = mask 8" by (simp add: mask_eq_decr_exp)
  then show ?thesis by (simp only: bit_mask_iff possible_bit_word) auto
qed

lemma bit_shifted_ff: "d < 8 \<Longrightarrow> bit (push_bit b (0xFF :: byte)) d \<longleftrightarrow> b \<le> d"
  unfolding bit_push_bit_iff bit_byte_ff by auto

text \<open>The same by byte \<open>c\<close> and bit \<open>d\<close>, which leaves linear arithmetic.\<close>

lemma marksI:
  assumes "length r = length bits"
    and "\<And>c d. c < length bits \<Longrightarrow> d < 8 \<Longrightarrow>
      bit (r ! c) d \<longleftrightarrow> bit (bits ! c) d \<or> (pos \<le> 8 * c + d \<and> 8 * c + d < pos + n)"
  shows "marks n pos bits r"
proof -
  have "bvbit r j \<longleftrightarrow> bvbit bits j \<or> (pos \<le> j \<and> j < pos + n)" if "j < 8 * length bits" for j
    using assms(2) [of "j div 8" "j mod 8"] that by (auto simp: bvbit_def)
  with assms(1) show ?thesis by (simp add: marks_def)
qed

lemma clear_fromD:
  "clear_from pos bits \<Longrightarrow> c < length bits \<Longrightarrow> d < 8 \<Longrightarrow> pos \<le> 8 * c + d \<Longrightarrow> \<not> bit (bits ! c) d"
  by (auto simp: clear_from_def bvbit_def dest!: spec [of _ "8 * c + d"])

lemma pos_parts:
  fixes pos :: nat
  obtains a b where "pos = 8 * a + b" "b < 8" "pos div 8 = a" "pos mod 8 = b"
  by (rule that [of "pos div 8" "pos mod 8"]) simp_all

lemma set1_marks:
  assumes "pos < 8 * length bits"
  shows "\<exists>r. set1 pos bits = Ret r \<and> marks 1 pos bits r"
proof -
  obtain a b where p: "pos = 8 * a + b" "b < 8" "pos div 8 = a" "pos mod 8 = b" by (rule pos_parts)
  have i: "a < length bits" using assms p by simp
  have "marks 1 pos bits (bits[a := bits ! a OR push_bit b 1])"
    by (rule marksI) (use i p in \<open>auto simp: nth_list_update bit_or_iff bit_exp_iff\<close>)
  with i p show ?thesis by (simp add: set1_def bv_or_def)
qed

lemma setN_marks:
  assumes c: "clear_from pos bits" and l: "pos + n \<le> 8 * length bits" and n: "0 < n" "n \<le> 8"
  shows "\<exists>r. setN (mask n) pos bits = Ret r \<and> marks n pos bits r"
proof -
  obtain a b where p: "pos = 8 * a + b" "b < 8" "pos div 8 = a" "pos mod 8 = b" by (rule pos_parts)
  have i: "a < length bits" using l p n by simp
  let ?w = "push_bit b (mask n) :: 16 word"
  let ?lo = "ucast ?w :: byte" and ?hi = "ucast (drop_bit 8 ?w) :: byte"
  have lo: "bit ?lo d \<longleftrightarrow> b \<le> d \<and> d < b + n" if "d < 8" for d
    using that p(2) n by (auto simp: bit_ucast_iff bit_push_bit_iff bit_mask_iff)
  have hi: "bit ?hi d \<longleftrightarrow> b \<le> d + 8 \<and> d + 8 < b + n" if "d < 8" for d
    using that p(2) n by (auto simp: bit_ucast_iff bit_drop_bit_eq bit_push_bit_iff bit_mask_iff)
  let ?x = "bits[a := bits ! a OR ?lo]"
  show ?thesis
  proof (cases "?hi = 0")
    case True
    have "b + n \<le> 8"
    proof (rule ccontr)
      assume "\<not> b + n \<le> 8"
      then have "bit ?hi 0" using hi [of 0] p(2) by simp
      with True show False by simp
    qed
    then have "marks n pos bits ?x"
      by (intro marksI) (use i p lo in \<open>auto simp: nth_list_update bit_or_iff\<close>)
    with i p True show ?thesis by (simp add: setN_def Let_def bv_or_def)
  next
    case False
    have "8 < b + n"
    proof (rule ccontr)
      assume "\<not> 8 < b + n"
      then have "\<not> bit ?hi d" if "d < 8" for d using hi [OF that] by simp
      then have "?hi = 0" by (intro bit_word_eqI) simp
      with False show False by simp
    qed
    then have i1: "a + 1 < length bits" using l p n by simp
    have "marks n pos bits (?x[a + 1 := ?hi])"
    proof (rule marksI)
      fix e d :: nat assume e: "e < length bits" and d: "d < 8"
      have "\<not> bit (bits ! (a + 1)) d" using clear_fromD [OF c i1 d] p by simp
      with e d i i1 p n lo [OF d] hi [OF d]
      show "bit (?x[a + 1 := ?hi] ! e) d \<longleftrightarrow> bit (bits ! e) d \<or> (pos \<le> 8 * e + d \<and> 8 * e + d < pos + n)"
        by (auto simp: nth_list_update bit_or_iff)
    qed simp
    with i i1 p False show ?thesis by (simp add: setN_def Let_def bv_or_def bv_put_def)
  qed
qed

lemma set8_marks:
  assumes c: "clear_from pos bits" and l: "pos div 8 + 1 < length bits"
  shows "\<exists>r. set8 pos bits = Ret r \<and> marks 8 pos bits r"
proof -
  obtain a b where p: "pos = 8 * a + b" "b < 8" "pos div 8 = a" "pos mod 8 = b" by (rule pos_parts)
  have i: "a < length bits" "a + 1 < length bits" using l p by simp_all
  let ?r = "bits[a := bits ! a OR push_bit b 0xFF, a + 1 := NOT (push_bit b 0xFF)]"
  have "marks 8 pos bits ?r"
  proof (rule marksI)
    fix e d :: nat assume e: "e < length bits" and d: "d < 8"
    have "\<not> bit (bits ! (a + 1)) d" using clear_fromD [OF c i(2) d] p by simp
    with e d i p show "bit (?r ! e) d \<longleftrightarrow> bit (bits ! e) d \<or> (pos \<le> 8 * e + d \<and> 8 * e + d < pos + 8)"
      by (auto simp: nth_list_update bit_or_iff bit_not_iff bit_shifted_ff)
  qed simp
  with i p show ?thesis by (simp add: set8_def Let_def bv_or_def bv_put_def)
qed

lemma set16_marks:
  assumes c: "clear_from pos bits" and l: "pos div 8 + 2 < length bits"
  shows "\<exists>r. set16 pos bits = Ret r \<and> marks 16 pos bits r"
proof -
  obtain a b where p: "pos = 8 * a + b" "b < 8" "pos div 8 = a" "pos mod 8 = b" by (rule pos_parts)
  have i: "a < length bits" "a + 1 < length bits" "a + 2 < length bits" using l p by simp_all
  let ?r = "bits[a := bits ! a OR push_bit b 0xFF, a + 1 := 0xFF, a + 2 := NOT (push_bit b 0xFF)]"
  have "marks 16 pos bits ?r"
  proof (rule marksI)
    fix e d :: nat assume e: "e < length bits" and d: "d < 8"
    have "\<not> bit (bits ! (a + 1)) d" "\<not> bit (bits ! (a + 2)) d"
      using clear_fromD [OF c i(2) d] clear_fromD [OF c i(3) d] p by simp_all
    moreover have "bit (0xFF :: byte) d" using d by (simp only: bit_byte_ff)
    ultimately show "bit (?r ! e) d \<longleftrightarrow> bit (bits ! e) d \<or> (pos \<le> 8 * e + d \<and> 8 * e + d < pos + 16)"
      using e d i p by (auto simp: nth_list_update bit_or_iff bit_not_iff bit_shifted_ff)
  qed simp
  with i p show ?thesis by (simp add: set16_def Let_def bv_or_def bv_put_def)
qed

section \<open>Marking the data of one PUSH\<close>

text \<open>Room for \<open>n\<close> more marks in a bitmap for a program of \<open>len\<close> bytes.\<close>

definition room :: "nat \<Rightarrow> nat \<Rightarrow> nat \<Rightarrow> bitvec \<Rightarrow> bool" where
  "room len n pos bits \<longleftrightarrow> clear_from pos bits \<and> length bits = len div 8 + 5 \<and> pos + n \<le> len + 32"

lemma room_step: "room len (n + m) pos bits \<Longrightarrow> marks n pos bits r \<Longrightarrow> room len m (pos + n) r"
  using marks_clear [of n pos bits r] by (simp add: room_def marks_def)

lemma push_loop16_marks:
  "room len (unat n) pos bits \<Longrightarrow>
   \<exists>r k. push_loop16 n pos bits = Ret (n - of_nat k, pos + k, r) \<and> marks k pos bits r \<and>
     k \<le> unat n \<and> unat n - k < 16 \<and> room len (unat n - k) (pos + k) r"
proof (induction n pos bits rule: push_loop16.induct)
  case (1 n pos bits)
  show ?case
  proof (cases "16 \<le> n")
    case True
    then have u: "16 \<le> unat n" "unat (n - 16) = unat n - 16"
      by (simp_all add: word_le_nat_alt unat_sub)
    have "pos div 8 + 2 < length bits" using "1.prems" u(1) by (simp add: room_def) arith
    moreover have "clear_from pos bits" using "1.prems" by (simp add: room_def)
    ultimately obtain r where r: "set16 pos bits = Ret r" "marks 16 pos bits r"
      using set16_marks by blast
    have "room len (16 + (unat n - 16)) pos bits" using "1.prems" u(1) by simp
    from room_step [OF this r(2)] have "room len (unat (n - 16)) (pos + 16) r" using u by simp
    from "1.IH" [OF True this] obtain s k where
      s: "push_loop16 (n - 16) (pos + 16) r = Ret (n - 16 - of_nat k, pos + 16 + k, s)"
        "marks k (pos + 16) r s" "k \<le> unat (n - 16)" "unat (n - 16) - k < 16"
        "room len (unat (n - 16) - k) (pos + 16 + k) s" by blast
    have "push_loop16 n pos bits = Ret (n - of_nat (16 + k), pos + (16 + k), s)"
      using True r(1) s(1) by (subst push_loop16.simps) (simp add: algebra_simps)
    moreover have "marks (16 + k) pos bits s" by (rule marks_trans [OF r(2) s(2)])
    ultimately show ?thesis using s u
      by (intro exI [of _ s] exI [of _ "16 + k"]) (simp add: ac_simps)
  next
    case False
    then have "unat n < 16" by (simp add: word_le_nat_alt)
    with False "1.prems" show ?thesis
      by (intro exI [of _ bits] exI [of _ 0]) (simp add: push_loop16.simps)
  qed
qed

lemma push_loop8_marks:
  "room len (unat n) pos bits \<Longrightarrow>
   \<exists>r k. push_loop8 n pos bits = Ret (n - of_nat k, pos + k, r) \<and> marks k pos bits r \<and>
     k \<le> unat n \<and> unat n - k < 8 \<and> room len (unat n - k) (pos + k) r"
proof (induction n pos bits rule: push_loop8.induct)
  case (1 n pos bits)
  show ?case
  proof (cases "8 \<le> n")
    case True
    then have u: "8 \<le> unat n" "unat (n - 8) = unat n - 8"
      by (simp_all add: word_le_nat_alt unat_sub)
    have "pos div 8 + 1 < length bits" using "1.prems" u(1) by (simp add: room_def) arith
    moreover have "clear_from pos bits" using "1.prems" by (simp add: room_def)
    ultimately obtain r where r: "set8 pos bits = Ret r" "marks 8 pos bits r"
      using set8_marks by blast
    have "room len (8 + (unat n - 8)) pos bits" using "1.prems" u(1) by simp
    from room_step [OF this r(2)] have "room len (unat (n - 8)) (pos + 8) r" using u by simp
    from "1.IH" [OF True this] obtain s k where
      s: "push_loop8 (n - 8) (pos + 8) r = Ret (n - 8 - of_nat k, pos + 8 + k, s)"
        "marks k (pos + 8) r s" "k \<le> unat (n - 8)" "unat (n - 8) - k < 8"
        "room len (unat (n - 8) - k) (pos + 8 + k) s" by blast
    have "push_loop8 n pos bits = Ret (n - of_nat (8 + k), pos + (8 + k), s)"
      using True r(1) s(1) by (subst push_loop8.simps) (simp add: algebra_simps)
    moreover have "marks (8 + k) pos bits s" by (rule marks_trans [OF r(2) s(2)])
    ultimately show ?thesis using s u
      by (intro exI [of _ s] exI [of _ "8 + k"]) (simp add: ac_simps)
  next
    case False
    then have "unat n < 8" by (simp add: word_le_nat_alt)
    with False "1.prems" show ?thesis
      by (intro exI [of _ bits] exI [of _ 0]) (simp add: push_loop8.simps)
  qed
qed

lemma push_rest_marks:
  assumes r: "room len (unat n) pos bits" and n: "unat n < 8"
  shows "\<exists>r. push_rest n pos bits = Ret (pos + unat n, r) \<and> marks (unat n) pos bits r"
proof -
  have l: "pos + unat n \<le> 8 * length bits" using r by (simp add: room_def) arith
  have c: "clear_from pos bits" using r by (simp add: room_def)
  have m: "set2BitsMask = mask 2" "set3BitsMask = mask 3" "set4BitsMask = mask 4"
    "set5BitsMask = mask 5" "set6BitsMask = mask 6" "set7BitsMask = mask 7"
    by (simp_all add: set2BitsMask_def set3BitsMask_def set4BitsMask_def set5BitsMask_def
        set6BitsMask_def set7BitsMask_def mask_eq_decr_exp)
  have w: "n = of_nat (unat n)" by simp
  consider "unat n = 0" | "unat n = 1" | "unat n = 2" | "unat n = 3" | "unat n = 4" | "unat n = 5"
    | "unat n = 6" | "unat n = 7" using n by linarith
  then show ?thesis
  proof cases
    case 1
    with w have "n = 0" by simp
    then show ?thesis by (simp add: push_rest_def)
  next
    case 2
    with w have "n = 1" by simp
    with set1_marks [of pos bits] l show ?thesis by (auto simp: push_rest_def)
  qed (use w setN_marks [OF c l] m in \<open>auto simp: push_rest_def\<close>)
qed

lemma mark_push_marks:
  assumes "room len (unat n) pos bits"
  shows "\<exists>r. mark_push n pos bits = Ret (pos + unat n, r) \<and> marks (unat n) pos bits r"
proof (cases "8 \<le> n")
  case True
  from push_loop16_marks [OF assms] obtain r k where
    r: "push_loop16 n pos bits = Ret (n - of_nat k, pos + k, r)" "marks k pos bits r" "k \<le> unat n"
      "room len (unat n - k) (pos + k) r" by blast
  have uk: "unat (n - of_nat k) = unat n - k"
    using r(3) unat_byte_less [of n] by (subst unat_sub) (simp_all add: word_le_nat_alt unat_of_nat)
  with r(4) have "room len (unat (n - of_nat k)) (pos + k) r" by simp
  from push_loop8_marks [OF this] obtain s l where
    s: "push_loop8 (n - of_nat k) (pos + k) r = Ret (n - of_nat k - of_nat l, pos + k + l, s)"
      "marks l (pos + k) r s" "l \<le> unat n - k" "unat n - k - l < 8"
      "room len (unat n - k - l) (pos + k + l) s" unfolding uk by blast
  have ul: "unat (n - of_nat k - of_nat l) = unat n - k - l"
    using s(3) uk unat_byte_less [of n] by (subst unat_sub) (simp_all add: word_le_nat_alt unat_of_nat)
  from push_rest_marks [of len "n - of_nat k - of_nat l" "pos + k + l" s] s(4,5) obtain t where
    t: "push_rest (n - of_nat k - of_nat l) (pos + k + l) s = Ret (pos + unat n, t)"
      "marks (unat n - k - l) (pos + k + l) s t" using r(3) s(3) unfolding ul by auto
  have "marks (k + l) pos bits s" by (rule marks_trans [OF r(2) s(2)])
  from marks_trans [OF this, of "unat n - k - l" t] t(2) r(3) s(3)
  have "marks (unat n) pos bits t" by (simp add: add.assoc)
  with True r(1) s(1) t(1) show ?thesis by (simp add: mark_push_def)
next
  case False
  then have "unat n < 8" by (simp add: word_le_nat_alt)
  with push_rest_marks [OF assms] False show ?thesis by (simp add: mark_push_def)
qed

section \<open>The analysis finds the instructions\<close>

lemma byte_sign:
  assumes "n < 256"
  shows "(int n + 128) mod 256 - 128 = (if n < 128 then int n else int n - 256)"
proof (cases "n < 128")
  case False
  then have "(int n - 128) mod 256 = int n - 128" using assms by (intro mod_pos_pos_trivial) auto
  then have "(int n + 128) mod 256 = int n - 128" using mod_add_self2 [of "int n - 128" 256] by (simp add: add.commute)
  with False show ?thesis by simp
qed simp

lemma push_len_op:
  "\<not> sint op < sint PUSH1 \<Longrightarrow> push_len op = unat (op - PUSH1 + 1) \<and> 0 < push_len op \<and> push_len op \<le> 32"
  "sint op < sint PUSH1 \<Longrightarrow> push_len op = 0"
proof -
  have s: "sint op = (if unat op < 128 then int (unat op) else int (unat op) - 256)" for op :: byte
  proof -
    have u: "uint op = int (unat op)" by simp
    have "sint op = (uint op + 128) mod 256 - 128"
      by (simp add: sint_uint signed_take_bit_eq_take_bit_shift take_bit_eq_mod)
    also have "\<dots> = (if unat op < 128 then int (unat op) else int (unat op) - 256)"
      unfolding u using unat_byte_less [of op] by (rule byte_sign)
    finally show ?thesis .
  qed
  have p: "sint PUSH1 = 96" by (simp add: s)
  show "\<not> sint op < sint PUSH1 \<Longrightarrow> push_len op = unat (op - PUSH1 + 1) \<and> 0 < push_len op \<and> push_len op \<le> 32"
  proof -
    assume "\<not> sint op < sint PUSH1"
    then have r: "96 \<le> unat op" "unat op < 128" using unat_byte_less [of op] by (auto simp: s p simp del: of_nat_unat split: if_splits)
    have "unat (op - PUSH1 + 1) = unat op - 95"
      using r by (simp add: unat_sub word_le_nat_alt)
    with r show ?thesis by (simp add: push_len_def)
  qed
  show "push_len op = 0" if "sint op < sint PUSH1"
    using that unat_byte_less [of op] by (auto simp: s p push_len_def simp del: of_nat_unat split: if_splits)
qed

lemma instr_start_next:
  "instr_start code pc \<Longrightarrow> instr_start code i \<Longrightarrow> pc < i \<Longrightarrow> pc + 1 + push_len (code ! pc) \<le> i"
proof (induction i arbitrary: pc rule: less_induct)
  case (less i)
  from less.prems(2) show ?case
  proof cases
    case first
    with less.prems show ?thesis by simp
  next
    case (following q)
    have "pc < q \<or> pc = q" using less.IH [of pc q] less.prems following by force
    then show ?thesis using less.IH [of q pc] less.prems following by force
  qed
qed

lemma codeBitmapInternal_spec:
  "\<lbrakk>instr_start code pc; clear_from pc bits; length bits = length code div 8 + 5;
    \<forall>i < length code. i < pc \<longrightarrow> bvbit bits i = (\<not> instr_start code i)\<rbrakk> \<Longrightarrow>
   \<exists>r. codeBitmapInternal code pc bits = Ret r \<and> length r = length code div 8 + 5 \<and>
     (\<forall>i < length code. bvbit r i = (\<not> instr_start code i))"
proof (induction code pc bits rule: codeBitmapInternal.induct)
  case (1 code pc bits)
  let ?op = "code ! pc"
  show ?case
  proof (cases "pc < length code")
    case False
    with "1.prems" show ?thesis by (subst codeBitmapInternal.simps) auto
  next
    case pc: True
    then have unset: "\<not> bvbit bits pc" using "1.prems"(2,3) by (simp add: clear_from_def)
    have start: "instr_start code (pc + 1 + push_len ?op)"
      by (rule following [OF "1.prems"(1) pc])
    show ?thesis
    proof (cases "sint ?op < sint PUSH1")
      case True
      then have "instr_start code (pc + 1)" using start push_len_op(2) [OF True] by simp
      moreover have "clear_from (pc + 1) bits" using "1.prems"(2) by (simp add: clear_from_def)
      moreover have "\<forall>i < length code. i < pc + 1 \<longrightarrow> bvbit bits i = (\<not> instr_start code i)"
        using "1.prems"(1,4) unset by (auto simp: less_Suc_eq)
      ultimately show ?thesis
        using "1.IH"(1) [OF pc refl True] "1.prems"(3) pc True
        by (subst codeBitmapInternal.simps) (simp add: Let_def)
    next
      case False
      note pl = push_len_op(1) [OF False]
      have "room (length code) (push_len ?op) (pc + 1) bits"
        using "1.prems"(2,3) pl pc by (auto simp: room_def clear_from_def)
      with pl have "room (length code) (unat (?op - PUSH1 + 1)) (pc + 1) bits" by metis
      from mark_push_marks [OF this] pl obtain r where
        r: "mark_push (?op - PUSH1 + 1) (pc + 1) bits = Ret (pc + 1 + push_len ?op, r)"
          "marks (push_len ?op) (pc + 1) bits r" by metis
      have len: "length r = length code div 8 + 5" using r(2) "1.prems"(3) by (simp add: marks_def)
      have "clear_from (pc + 1) bits" using "1.prems"(2) by (simp add: clear_from_def)
      from marks_clear [OF r(2) this] have c: "clear_from (pc + 1 + push_len ?op) r" .
      have "bvbit r i = (\<not> instr_start code i)" if i: "i < length code" "i < pc + 1 + push_len ?op" for i
      proof -
        have "bvbit r i \<longleftrightarrow> bvbit bits i \<or> pc + 1 \<le> i"
          using r(2) i "1.prems"(3) by (auto simp: marks_def)
        moreover have "pc < i \<Longrightarrow> \<not> instr_start code i"
          using instr_start_next [OF "1.prems"(1), of i] i by force
        ultimately show ?thesis
          using "1.prems"(1,4) unset i by (cases "i = pc") (auto simp: not_less_eq_eq less_Suc_eq)
      qed
      with start c len r(1) pc False "1.IH"(2) [OF pc refl False r(1) refl] show ?thesis
        by (subst codeBitmapInternal.simps) (simp add: Let_def)
    qed
  qed
qed

lemma codeBitmap_spec:
  "\<exists>r. codeBitmap code = Ret r \<and> length r = length code div 8 + 5 \<and>
     (\<forall>i < length code. codeSegment r i = Ret (instr_start code i))"
proof -
  let ?z = "replicate (length code div 8 + 1 + 4) 0 :: bitvec"
  have z: "\<not> bvbit ?z j" if "j < 8 * length ?z" for j
  proof -
    have "j div 8 < length code div 8 + 1 + 4" using that by auto
    then show ?thesis by (simp add: bvbit_def nth_replicate del: replicate.simps)
  qed
  then have "clear_from 0 ?z" by (simp add: clear_from_def)
  moreover have "length ?z = length code div 8 + 5" by simp
  ultimately obtain r where r: "codeBitmap code = Ret r" "length r = length code div 8 + 5"
    "\<forall>i < length code. bvbit r i = (\<not> instr_start code i)"
    using codeBitmapInternal_spec [OF first, of ?z code] unfolding codeBitmap_def by auto
  have "codeSegment r i = Ret (instr_start code i)" if i: "i < length code" for i
  proof -
    have "i div 8 < length r" using i r(2) by (simp add: div_le_mono less_Suc_eq_le trans_le_add1)
    moreover have "(drop_bit (i mod 8) (r ! (i div 8)) AND 1 = 0) \<longleftrightarrow> \<not> bvbit r i"
      by (simp add: bvbit_def and_one_eq odd_iff_mod_2_eq_one bit_iff_odd_drop_bit flip: even_iff_mod_2_eq_zero)
    ultimately show ?thesis using r(3) i by (simp add: codeSegment_def)
  qed
  with r show ?thesis by blast
qed

text \<open>
  C19: The analysis agrees with a reference definition of where instructions start. For every
  program the code scan with its one, two, eight and sixteen bit writes ends without an index
  error, the bitmap has five bytes more than one per eight code bytes, and a position inside the
  program is reported as code exactly when an instruction starts there.
\<close>

theorem codeBitmap_finds_instructions:
  "\<exists>bits. codeBitmap code = Ret bits \<and> length bits = length code div 8 + 5 \<and>
     {i. i < length code \<and> codeSegment bits i = Ret True} = {i. i < length code \<and> instr_start code i} \<and>
     {i. i < length code \<and> codeSegment bits i = Ret False} = {i. i < length code \<and> \<not> instr_start code i}"
  using codeBitmap_spec [of code] by auto

end
