(* ===== verification/VM_Contract.thy ===== *)
theory VM_Contract
  imports VM_Analysis
begin

text \<open>
  The contract under execution (\<^verbatim>\<open>core/vm/contract.go\<close>). The map of jump destination analyses is
  shared by reference between a contract and the contracts it calls; at any time one such map is
  live, so it is a component of the machine state that the methods take and return.
\<close>

section \<open>State\<close>

text \<open>
  The caller of a contract is an account or another contract. Of a contract only what is read
  through the reference is kept: its address, its caller's address and its value, none of which
  change once the contract runs.
\<close>

datatype ContractRef =
    AccountRef Address
  | ContractPtr Address Address "int option"

fun ref_Address :: "ContractRef \<Rightarrow> Address" where
  "ref_Address (AccountRef a) = a"
| "ref_Address (ContractPtr a _ _) = a"

type_synonym jumpdests = "Hash \<rightharpoonup> bitvec"

record Contract =
  CallerAddress :: Address
  caller :: ContractRef
  self :: ContractRef
  analysis :: "bitvec option"
  Code :: bytes
  CodeHash :: Hash
  CodeAddr :: "Address option"
  Input :: bytes
  Gas :: u64
  ct_value :: "int option"

section \<open>Operations\<close>

definition NewContract :: "ContractRef \<Rightarrow> ContractRef \<Rightarrow> int option \<Rightarrow> u64 \<Rightarrow> jumpdests \<Rightarrow> Contract \<times> jumpdests" where
  "NewContract clr object v gas jd =
     (\<lparr>CallerAddress = ref_Address clr, caller = clr, self = object, analysis = None, Code = [],
       CodeHash = 0, CodeAddr = None, Input = [], Gas = gas, ct_value = v\<rparr>,
      case clr of ContractPtr _ _ _ \<Rightarrow> jd | AccountRef _ \<Rightarrow> Map.empty)"

definition isCode :: "u64 \<Rightarrow> Contract \<Rightarrow> jumpdests \<Rightarrow> (bool \<times> Contract \<times> jumpdests) outcome" where
  "isCode udest c jd =
     (case analysis c of
        Some a \<Rightarrow> bind_outcome (codeSegment a (unat udest)) (\<lambda>b. Ret (b, c, jd))
      | None \<Rightarrow>
          if CodeHash c \<noteq> 0 then
            bind_outcome
              (case jd (CodeHash c) of
                 Some a \<Rightarrow> Ret (a, jd)
               | None \<Rightarrow> bind_outcome (codeBitmap (Code c)) (\<lambda>a. Ret (a, jd(CodeHash c \<mapsto> a))))
              (\<lambda>(a, jd). bind_outcome (codeSegment a (unat udest)) (\<lambda>b.
                 Ret (b, c\<lparr>analysis := Some a\<rparr>, jd)))
          else
            bind_outcome (codeBitmap (Code c)) (\<lambda>a.
              bind_outcome (codeSegment a (unat udest)) (\<lambda>b.
                Ret (b, c\<lparr>analysis := Some a\<rparr>, jd))))"

definition JUMPDEST :: byte where [simp]: "JUMPDEST = 0x5b"

definition validJumpdest ::
  "uint256_lib \<Rightarrow> u256 \<Rightarrow> Contract \<Rightarrow> jumpdests \<Rightarrow> (bool \<times> Contract \<times> jumpdests) outcome" where
  "validJumpdest U dest c jd =
     (case u_Uint64WithOverflow U dest of
        (udest, overflow) \<Rightarrow>
          if overflow \<or> of_nat (length (Code c)) \<le> udest then Ret (False, c, jd)
          else if Code c ! unat udest \<noteq> JUMPDEST then Ret (False, c, jd)
          else isCode udest c jd)"

definition AsDelegate :: "Contract \<Rightarrow> Contract outcome" where
  "AsDelegate c =
     (case caller c of
        ContractPtr _ ca v \<Rightarrow> Ret (c\<lparr>CallerAddress := ca, ct_value := v\<rparr>)
      | AccountRef _ \<Rightarrow> Panic NilPanic)"

definition STOP :: byte where [simp]: "STOP = 0"

definition GetOp :: "u64 \<Rightarrow> Contract \<Rightarrow> byte" where
  "GetOp n c = (if n < of_nat (length (Code c)) then Code c ! unat n else STOP)"

definition Caller :: "Contract \<Rightarrow> Address" where
  [simp]: "Caller c = CallerAddress c"

definition UseGas :: "u64 \<Rightarrow> Contract \<Rightarrow> bool \<times> Contract" where
  "UseGas gas c = (if Gas c < gas then (False, c) else (True, c\<lparr>Gas := Gas c - gas\<rparr>))"

definition ct_Address :: "Contract \<Rightarrow> Address" where
  "ct_Address c = ref_Address (self c)"

definition SetCallCode :: "Address \<Rightarrow> Hash \<Rightarrow> bytes \<Rightarrow> Contract \<Rightarrow> Contract" where
  "SetCallCode addr hash code c = c\<lparr>Code := code, CodeHash := hash, CodeAddr := Some addr\<rparr>"

record codeAndHash =
  cah_code :: bytes
  cah_hash :: Hash

definition cah_Hash :: "(bytes \<Rightarrow> Hash) \<Rightarrow> codeAndHash \<Rightarrow> Hash \<times> codeAndHash" where
  "cah_Hash keccak c =
     (let c1 = (if cah_hash c = 0 then c\<lparr>cah_hash := keccak (cah_code c)\<rparr> else c) in (cah_hash c1, c1))"

definition SetCodeOptionalHash :: "Address \<Rightarrow> codeAndHash \<Rightarrow> Contract \<Rightarrow> Contract" where
  "SetCodeOptionalHash addr ch c =
     c\<lparr>Code := cah_code ch, CodeHash := cah_hash ch, CodeAddr := Some addr\<rparr>"

text \<open>The reference a contract passes to its callees.\<close>

definition contract_ref :: "Contract \<Rightarrow> ContractRef" where
  "contract_ref c = ContractPtr (ct_Address c) (CallerAddress c) (ct_value c)"

section \<open>Lemmas\<close>

lemma UseGas_True: "UseGas g c = (True, c') \<longleftrightarrow> g \<le> Gas c \<and> c' = c\<lparr>Gas := Gas c - g\<rparr>"
  by (auto simp: UseGas_def)

lemma UseGas_cases:
  "fst (UseGas g c) \<longleftrightarrow> g \<le> Gas c" "\<not> fst (UseGas g c) \<Longrightarrow> snd (UseGas g c) = c"
  "g \<le> Gas c \<Longrightarrow> unat (Gas (snd (UseGas g c))) = unat (Gas c) - unat g"
  "unat (Gas (snd (UseGas g c))) \<le> unat (Gas c)"
proof -
  show "fst (UseGas g c) \<longleftrightarrow> g \<le> Gas c" "\<not> fst (UseGas g c) \<Longrightarrow> snd (UseGas g c) = c"
    by (auto simp: UseGas_def)
  show u: "g \<le> Gas c \<Longrightarrow> unat (Gas (snd (UseGas g c))) = unat (Gas c) - unat g"
    by (auto simp: UseGas_def unat_sub_u64)
  show "unat (Gas (snd (UseGas g c))) \<le> unat (Gas c)"
    using u by (cases "g \<le> Gas c") (auto simp: UseGas_def)
qed

text \<open>The cached analyses belong to the code.\<close>

definition cache_ok :: "Contract \<Rightarrow> jumpdests \<Rightarrow> bool" where
  "cache_ok c jd \<longleftrightarrow> (\<forall>a. analysis c = Some a \<longrightarrow> codeBitmap (Code c) = Ret a) \<and>
     (\<forall>a. jd (CodeHash c) = Some a \<longrightarrow> codeBitmap (Code c) = Ret a)"

lemma isCode_spec:
  assumes "cache_ok c jd" "unat d < length (Code c)"
  shows "\<exists>a jd'. isCode d c jd = Ret (instr_start (Code c) (unat d), c\<lparr>analysis := Some a\<rparr>, jd') \<and>
    cache_ok (c\<lparr>analysis := Some a\<rparr>) jd'"
proof -
  from codeBitmap_spec [of "Code c"] obtain a where a: "codeBitmap (Code c) = Ret a"
    "\<forall>i < length (Code c). codeSegment a i = Ret (instr_start (Code c) i)" by blast
  show ?thesis
  proof (cases "analysis c")
    case (Some b)
    then have "b = a" using assms(1) a(1) by (simp add: cache_ok_def)
    then have "isCode d c jd = Ret (instr_start (Code c) (unat d), c\<lparr>analysis := Some a\<rparr>, jd)"
      using Some a(2) assms(2) by (simp add: isCode_def)
    with assms(1) a(1) show ?thesis by (auto simp: cache_ok_def)
  next
    case None
    show ?thesis
    proof (cases "CodeHash c \<noteq> 0 \<and> jd (CodeHash c) = None")
      case True
      with None a assms(2) have "isCode d c jd =
          Ret (instr_start (Code c) (unat d), c\<lparr>analysis := Some a\<rparr>, jd(CodeHash c \<mapsto> a))"
        by (simp add: isCode_def)
      with a(1) show ?thesis by (auto simp: cache_ok_def)
    next
      case False
      then have "isCode d c jd = Ret (instr_start (Code c) (unat d), c\<lparr>analysis := Some a\<rparr>, jd)"
        using None a assms by (auto simp: isCode_def cache_ok_def split: option.splits)
      with assms(1) a(1) show ?thesis by (auto simp: cache_ok_def)
    qed
  qed
qed

text \<open>
  C18: A jump destination is accepted exactly when it lies inside the program, holds the byte
  JUMPDEST and is the start of an instruction, that is, not data of a preceding PUSH. This holds
  whichever of the caches the answer comes from, as long as what they hold belongs to the code,
  and the check leaves them in that condition; it never runs over the end of the bitmap.
\<close>

theorem validJumpdest_correct:
  assumes "uint256_ok U" "cache_ok c jd" "length (Code c) < 2 ^ 63"
  shows "\<exists>c' jd'. validJumpdest U dest c jd =
      Ret (unat dest < length (Code c) \<and> Code c ! unat dest = JUMPDEST \<and>
           instr_start (Code c) (unat dest), c', jd') \<and>
    cache_ok c' jd' \<and> (\<exists>a. c' = c\<lparr>analysis := a\<rparr>)"
proof -
  have u: "u_Uint64WithOverflow U dest = (ucast dest, \<not> unat dest < 2 ^ 64)"
    using assms(1) by (simp add: uint256_ok_def)
  have l: "unat (of_nat (length (Code c)) :: u64) = length (Code c)"
    using assms(3) by (simp add: unat_of_nat)
  show ?thesis
  proof (cases "unat dest < 2 ^ 64")
    case False
    then have "validJumpdest U dest c jd = Ret (False, c, jd)" by (simp add: validJumpdest_def u)
    moreover have "\<not> unat dest < length (Code c)" using False assms(3) by simp
    ultimately show ?thesis using assms(2) by (auto intro: exI [of _ "analysis c"])
  next
    case True
    then have d: "unat (ucast dest :: u64) = unat dest"
      by (simp add: unsigned_ucast_eq take_bit_nat_eq_self)
    have le: "of_nat (length (Code c)) \<le> (ucast dest :: u64) \<longleftrightarrow> \<not> unat dest < length (Code c)"
      using l d by (simp add: word_le_nat_alt not_less)
    show ?thesis
    proof (cases "unat dest < length (Code c) \<and> Code c ! unat dest = JUMPDEST")
      case False
      then have "validJumpdest U dest c jd = Ret (False, c, jd)"
        using True le d by (auto simp: validJumpdest_def u)
      with False assms(2) show ?thesis by (auto intro: exI [of _ "analysis c"])
    next
      case ok: True
      then have "validJumpdest U dest c jd = isCode (ucast dest) c jd"
        using True le d by (simp add: validJumpdest_def u)
      with isCode_spec [OF assms(2), of "ucast dest"] ok d show ?thesis by auto
    qed
  qed
qed

text \<open>The program PUSH1 0x5b JUMPDEST: byte 1 is data, byte 2 is a destination.\<close>

definition jump_demo :: Contract where
  "jump_demo = SetCallCode 1 7 [0x60, 0x5b, 0x5b] (fst (NewContract (AccountRef 1) (AccountRef 2) None 0 Map.empty))"

theorem validJumpdest_correct_witness:
  "\<exists>c' jd' c'' jd''. validJumpdest word_uint256 2 jump_demo Map.empty = Ret (True, c', jd') \<and>
     validJumpdest word_uint256 1 jump_demo Map.empty = Ret (False, c'', jd'')"
proof -
  have code: "Code jump_demo = [0x60, 0x5b, 0x5b]" "cache_ok jump_demo Map.empty"
    by (simp_all add: jump_demo_def SetCallCode_def NewContract_def cache_ok_def)
  have pl: "push_len 0x60 = 1" by (simp add: push_len_def)
  have s2: "instr_start [0x60, 0x5b, 0x5b] 2"
    using following [OF first, of "[0x60, 0x5b, 0x5b]"] pl by (simp add: numeral_2_eq_2)
  have s1: "\<not> instr_start [0x60, 0x5b, 0x5b] 1"
    using instr_start_next [OF first, of "[0x60, 0x5b, 0x5b]" 1] pl by auto
  show ?thesis
    using validJumpdest_correct [OF word_uint256_ok code(2), of 2]
      validJumpdest_correct [OF word_uint256_ok code(2), of 1] s1 s2 by (auto simp: code)
qed

end
