(* ===== verification/VM_Precompiles.thy ===== *)
theory VM_Precompiles
  imports VM_Contract
begin

unbundle bit_operations_syntax

text \<open>
  The precompiled contracts of the rule sets up to Shanghai (\<^verbatim>\<open>core/vm/contracts.go\<close>): their gas,
  their input parsing and their error paths. Elliptic curve arithmetic, public key recovery, the
  Blake2b compression function, RIPEMD-160 and Keccak are arguments, collected in the record
  \<open>crypto_lib\<close>; points of the curve groups are opaque. SHA-256 and \<^verbatim>\<open>big.Int\<close> arithmetic belong to the
  standard library and are defined. The BLS12-381 contracts are in no active rule set and are left
  out.
\<close>

section \<open>Cryptographic primitives\<close>

typedecl G1
typedecl G2

record crypto_lib =
  cl_Keccak256 :: "bytes \<Rightarrow> Hash"
  cl_ripemd160 :: "bytes \<Rightarrow> bytes"
  cl_Ecrecover :: "bytes \<Rightarrow> bytes \<Rightarrow> bytes option"
  cl_G1_Unmarshal :: "bytes \<Rightarrow> string + G1"
  cl_G1_Marshal :: "G1 \<Rightarrow> bytes"
  cl_G1_Add :: "G1 \<Rightarrow> G1 \<Rightarrow> G1"
  cl_G1_ScalarMult :: "G1 \<Rightarrow> nat \<Rightarrow> G1"
  cl_G2_Unmarshal :: "bytes \<Rightarrow> string + G2"
  cl_PairingCheck :: "G1 list \<Rightarrow> G2 list \<Rightarrow> bool"
  cl_blake2b_F :: "u64 list \<Rightarrow> u64 list \<Rightarrow> u64 list \<Rightarrow> bool \<Rightarrow> 32 word \<Rightarrow> u64 list"

subsection \<open>SHA-256 (crypto/sha256)\<close>

definition sha256_K :: "32 word list" where
  "sha256_K =
    [0x428a2f98, 0x71374491, 0xb5c0fbcf, 0xe9b5dba5, 0x3956c25b, 0x59f111f1, 0x923f82a4, 0xab1c5ed5,
     0xd807aa98, 0x12835b01, 0x243185be, 0x550c7dc3, 0x72be5d74, 0x80deb1fe, 0x9bdc06a7, 0xc19bf174,
     0xe49b69c1, 0xefbe4786, 0x0fc19dc6, 0x240ca1cc, 0x2de92c6f, 0x4a7484aa, 0x5cb0a9dc, 0x76f988da,
     0x983e5152, 0xa831c66d, 0xb00327c8, 0xbf597fc7, 0xc6e00bf3, 0xd5a79147, 0x06ca6351, 0x14292967,
     0x27b70a85, 0x2e1b2138, 0x4d2c6dfc, 0x53380d13, 0x650a7354, 0x766a0abb, 0x81c2c92e, 0x92722c85,
     0xa2bfe8a1, 0xa81a664b, 0xc24b8b70, 0xc76c51a3, 0xd192e819, 0xd6990624, 0xf40e3585, 0x106aa070,
     0x19a4c116, 0x1e376c08, 0x2748774c, 0x34b0bcb5, 0x391c0cb3, 0x4ed8aa4a, 0x5b9cca4f, 0x682e6ff3,
     0x748f82ee, 0x78a5636f, 0x84c87814, 0x8cc70208, 0x90befffa, 0xa4506ceb, 0xbef9a3f7, 0xc67178f2]"

definition sha256_init :: "32 word list" where
  "sha256_init = [0x6a09e667, 0xbb67ae85, 0x3c6ef372, 0xa54ff53a, 0x510e527f, 0x9b05688c, 0x1f83d9ab, 0x5be0cd19]"

definition rotr32 :: "nat \<Rightarrow> 32 word \<Rightarrow> 32 word" where
  "rotr32 n x = drop_bit n x OR push_bit (32 - n) x"

text \<open>The message schedule, newest word first.\<close>

fun sha256_schedule :: "nat \<Rightarrow> 32 word list \<Rightarrow> 32 word list" where
  "sha256_schedule 0 w = w"
| "sha256_schedule (Suc n) w =
     (let s0 = rotr32 7 (w ! 14) XOR rotr32 18 (w ! 14) XOR drop_bit 3 (w ! 14);
          s1 = rotr32 17 (w ! 1) XOR rotr32 19 (w ! 1) XOR drop_bit 10 (w ! 1)
      in sha256_schedule n ((w ! 15 + s0 + w ! 6 + s1) # w))"

fun sha256_round :: "32 word \<times> 32 word \<Rightarrow> 32 word list \<Rightarrow> 32 word list" where
  "sha256_round (k, w) [a, b, c, d, e, f, g, h] =
     (let s1 = rotr32 6 e XOR rotr32 11 e XOR rotr32 25 e;
          ch = (e AND f) XOR (NOT e AND g);
          t1 = h + s1 + ch + k + w;
          s0 = rotr32 2 a XOR rotr32 13 a XOR rotr32 22 a;
          maj = (a AND b) XOR (a AND c) XOR (b AND c)
      in [t1 + s0 + maj, a, b, c, d + t1, e, f, g])"
| "sha256_round _ st = st"

fun words32 :: "bytes \<Rightarrow> 32 word list" where
  "words32 (a # b # c # d # r) = of_nat (be_nat [a, b, c, d]) # words32 r"
| "words32 _ = []"

definition sha256_block :: "32 word list \<Rightarrow> bytes \<Rightarrow> 32 word list" where
  "sha256_block st blk =
     (let ws = rev (sha256_schedule 48 (rev (words32 blk)))
      in map2 (+) st (fold sha256_round (zip sha256_K ws) st))"

fun sha256_blocks :: "nat \<Rightarrow> 32 word list \<Rightarrow> bytes \<Rightarrow> 32 word list" where
  "sha256_blocks 0 st bs = st"
| "sha256_blocks (Suc n) st bs = sha256_blocks n (sha256_block st (take 64 bs)) (drop 64 bs)"

definition sha256_Sum256 :: "bytes \<Rightarrow> bytes" where
  "sha256_Sum256 m =
     (let z = (119 - length m mod 64) mod 64;
          p = m @ [0x80] @ replicate z 0 @ be_bytes 8 (8 * length m)
      in concat (map (\<lambda>w. be_bytes 4 (unat w)) (sha256_blocks (length p div 64) sha256_init p)))"

subsection \<open>Signature values (crypto/crypto.go)\<close>

definition secp256k1N :: nat where
  "secp256k1N = 0xfffffffffffffffffffffffffffffffebaaedce6af48a03bbfd25e8cd0364141"

definition secp256k1halfN :: nat where
  "secp256k1halfN = secp256k1N div 2"

definition ValidateSignatureValues :: "byte \<Rightarrow> nat \<Rightarrow> nat \<Rightarrow> bool \<Rightarrow> bool" where
  "ValidateSignatureValues v r s homestead =
     (if r < 1 \<or> s < 1 then False
      else if homestead \<and> secp256k1halfN < s then False
      else r < secp256k1N \<and> s < secp256k1N \<and> (v = 0 \<or> v = 1))"

section \<open>The contracts\<close>

datatype PrecompiledContract =
    ecrecover
  | sha256hash
  | ripemd160hash
  | dataCopy
  | bigModExp bool
  | bn256AddByzantium
  | bn256AddIstanbul
  | bn256ScalarMulByzantium
  | bn256ScalarMulIstanbul
  | bn256PairingByzantium
  | bn256PairingIstanbul
  | blake2F

definition PrecompiledContractsHomestead :: "(Address \<times> PrecompiledContract) list" where
  "PrecompiledContractsHomestead = [(1, ecrecover), (2, sha256hash), (3, ripemd160hash), (4, dataCopy)]"

definition PrecompiledContractsByzantium :: "(Address \<times> PrecompiledContract) list" where
  "PrecompiledContractsByzantium =
     [(1, ecrecover), (2, sha256hash), (3, ripemd160hash), (4, dataCopy), (5, bigModExp False),
      (6, bn256AddByzantium), (7, bn256ScalarMulByzantium), (8, bn256PairingByzantium)]"

definition PrecompiledContractsIstanbul :: "(Address \<times> PrecompiledContract) list" where
  "PrecompiledContractsIstanbul =
     [(1, ecrecover), (2, sha256hash), (3, ripemd160hash), (4, dataCopy), (5, bigModExp False),
      (6, bn256AddIstanbul), (7, bn256ScalarMulIstanbul), (8, bn256PairingIstanbul), (9, blake2F)]"

definition PrecompiledContractsBerlin :: "(Address \<times> PrecompiledContract) list" where
  "PrecompiledContractsBerlin =
     [(1, ecrecover), (2, sha256hash), (3, ripemd160hash), (4, dataCopy), (5, bigModExp True),
      (6, bn256AddIstanbul), (7, bn256ScalarMulIstanbul), (8, bn256PairingIstanbul), (9, blake2F)]"

subsection \<open>Big integers\<close>

fun big_Bytes :: "nat \<Rightarrow> bytes" where
  "big_Bytes n = (if n = 0 then [] else big_Bytes (n div 256) @ [of_nat (n mod 256)])"

declare big_Bytes.simps [simp del]

definition bytes_at :: "nat \<Rightarrow> nat \<Rightarrow> bytes \<Rightarrow> bytes" where
  "bytes_at i n b = take n (drop i b)"

subsection \<open>Modular exponentiation\<close>

definition modexpMultComplexity :: "nat \<Rightarrow> int" where
  "modexpMultComplexity x =
     (if x \<le> 64 then int (x * x)
      else if x \<le> 1024 then int (x * x) div 4 + (96 * int x - 3072)
      else int (x * x) div 16 + (480 * int x - 199680))"

text \<open>\<open>BitLen() > 64\<close> and \<open>Uint64()\<close> of a non-negative integer.\<close>

definition cap_u64 :: "int \<Rightarrow> u64" where
  "cap_u64 gas = (if 2 ^ 64 \<le> gas then MaxUint64 else of_int gas)"

definition big_read :: "bytes \<Rightarrow> u64 \<Rightarrow> u64 \<Rightarrow> nat outcome" where
  "big_read input start sz = bind_outcome (getData input start sz) (\<lambda>b. Ret (be_nat b))"

definition bigModExp_RequiredGas :: "bool \<Rightarrow> bytes \<Rightarrow> u64 outcome" where
  "bigModExp_RequiredGas eip2565 input =
     bind_outcome (big_read input 0 32) (\<lambda>baseLen.
     bind_outcome (big_read input 32 32) (\<lambda>expLen.
     bind_outcome (big_read input 64 32) (\<lambda>modLen.
     let input = (if 96 < length input then drop 96 input else []) in
     bind_outcome
       (if length input \<le> baseLen then Ret 0
        else if 32 < expLen then big_read input (of_nat baseLen) 32
        else big_read input (of_nat baseLen) (of_nat expLen)) (\<lambda>expHead.
     let msb = (if 0 < bit_len expHead then bit_len expHead - 1 else 0);
         adjExpLen = (if 32 < expLen then 8 * (expLen - 32) else 0) + msb;
         gas = max modLen baseLen
     in if eip2565 then
          let gas = (gas + 7) div 8;
              gas = gas * gas * max adjExpLen 1 div 3
          in Ret (if 2 ^ 64 \<le> gas then MaxUint64 else if gas < 200 then 200 else of_nat gas)
        else Ret (cap_u64 (modexpMultComplexity gas * int (max adjExpLen 1) div 20))))))"

definition bigModExp_Run :: "bytes \<Rightarrow> bytes outcome" where
  "bigModExp_Run input =
     bind_outcome (big_read input 0 32) (\<lambda>baseLen.
     bind_outcome (big_read input 32 32) (\<lambda>expLen.
     bind_outcome (big_read input 64 32) (\<lambda>modLen.
     let baseLen = of_nat baseLen :: u64; expLen = of_nat expLen :: u64; modLen = of_nat modLen :: u64;
         input = (if 96 < length input then drop 96 input else [])
     in if baseLen = 0 \<and> modLen = 0 then Ret []
        else
          bind_outcome (big_read input 0 baseLen) (\<lambda>base.
          bind_outcome (big_read input baseLen expLen) (\<lambda>exp.
          bind_outcome (big_read input (baseLen + expLen) modLen) (\<lambda>modulus.
          if bit_len modulus = 0 then Ret (LeftPadBytes [] (nat (sint modLen)))
          else if bit_len base = 1 then Ret (LeftPadBytes (big_Bytes (base mod modulus)) (nat (sint modLen)))
          else Ret (LeftPadBytes (big_Bytes (base ^ exp mod modulus)) (nat (sint modLen)))))))))"

subsection \<open>Gas\<close>

definition words_gas :: "bytes \<Rightarrow> u64 \<Rightarrow> u64 \<Rightarrow> u64" where
  "words_gas input per_word base = of_nat (length input + 31) div 32 * per_word + base"

definition blake2FInputLength :: nat where
  [simp]: "blake2FInputLength = 213"

definition sha256hash_RequiredGas :: "bytes \<Rightarrow> u64" where
  "sha256hash_RequiredGas input = words_gas input Sha256PerWordGas Sha256BaseGas"

definition ripemd160hash_RequiredGas :: "bytes \<Rightarrow> u64" where
  "ripemd160hash_RequiredGas input = words_gas input Ripemd160PerWordGas Ripemd160BaseGas"

definition dataCopy_RequiredGas :: "bytes \<Rightarrow> u64" where
  "dataCopy_RequiredGas input = words_gas input IdentityPerWordGas IdentityBaseGas"

definition bn256PairingByzantium_RequiredGas :: "bytes \<Rightarrow> u64" where
  "bn256PairingByzantium_RequiredGas input =
     Bn256PairingBaseGasByzantium + of_nat (length input div 192) * Bn256PairingPerPointGasByzantium"

definition bn256PairingIstanbul_RequiredGas :: "bytes \<Rightarrow> u64" where
  "bn256PairingIstanbul_RequiredGas input =
     Bn256PairingBaseGasIstanbul + of_nat (length input div 192) * Bn256PairingPerPointGasIstanbul"

definition blake2F_RequiredGas :: "bytes \<Rightarrow> u64" where
  "blake2F_RequiredGas input =
     (if length input \<noteq> blake2FInputLength then 0 else of_nat (be_nat (take 4 input)))"

definition RequiredGas :: "PrecompiledContract \<Rightarrow> bytes \<Rightarrow> u64 outcome" where
  "RequiredGas p input =
     (case p of
        ecrecover \<Rightarrow> Ret EcrecoverGas
      | sha256hash \<Rightarrow> Ret (sha256hash_RequiredGas input)
      | ripemd160hash \<Rightarrow> Ret (ripemd160hash_RequiredGas input)
      | dataCopy \<Rightarrow> Ret (dataCopy_RequiredGas input)
      | bigModExp eip2565 \<Rightarrow> bigModExp_RequiredGas eip2565 input
      | bn256AddByzantium \<Rightarrow> Ret Bn256AddGasByzantium
      | bn256AddIstanbul \<Rightarrow> Ret Bn256AddGasIstanbul
      | bn256ScalarMulByzantium \<Rightarrow> Ret Bn256ScalarMulGasByzantium
      | bn256ScalarMulIstanbul \<Rightarrow> Ret Bn256ScalarMulGasIstanbul
      | bn256PairingByzantium \<Rightarrow> Ret (bn256PairingByzantium_RequiredGas input)
      | bn256PairingIstanbul \<Rightarrow> Ret (bn256PairingIstanbul_RequiredGas input)
      | blake2F \<Rightarrow> Ret (blake2F_RequiredGas input))"

subsection \<open>Execution\<close>

definition ecrecover_Run :: "crypto_lib \<Rightarrow> bytes \<Rightarrow> bytes" where
  "ecrecover_Run K input =
     (let input = RightPadBytes input 128;
          r = be_nat (bytes_at 64 32 input);
          s = be_nat (bytes_at 96 32 input);
          v = input ! 63 - 27
      in if \<not> allZero (bytes_at 32 31 input) \<or> \<not> ValidateSignatureValues v r s False then []
         else let sig = bytes_at 64 64 input @ [v]
              in (case cl_Ecrecover K (take 32 input) sig of
                    None \<Rightarrow> []
                  | Some pubKey \<Rightarrow>
                      LeftPadBytes (drop 12 (hash_bytes (cl_Keccak256 K (drop 1 pubKey)))) 32))"

definition ripemd160hash_Run :: "crypto_lib \<Rightarrow> bytes \<Rightarrow> bytes" where
  "ripemd160hash_Run K input = LeftPadBytes (cl_ripemd160 K input) 32"

definition newCurvePoint :: "crypto_lib \<Rightarrow> bytes \<Rightarrow> vm_error + G1" where
  "newCurvePoint K blob = (case cl_G1_Unmarshal K blob of Inl e \<Rightarrow> Inl (ErrPrecompile e) | Inr p \<Rightarrow> Inr p)"

definition newTwistPoint :: "crypto_lib \<Rightarrow> bytes \<Rightarrow> vm_error + G2" where
  "newTwistPoint K blob = (case cl_G2_Unmarshal K blob of Inl e \<Rightarrow> Inl (ErrPrecompile e) | Inr p \<Rightarrow> Inr p)"

definition runBn256Add :: "crypto_lib \<Rightarrow> bytes \<Rightarrow> (vm_error + bytes) outcome" where
  "runBn256Add K input =
     bind_outcome (getData input 0 64) (\<lambda>b1.
       case newCurvePoint K b1 of
         Inl e \<Rightarrow> Ret (Inl e)
       | Inr x \<Rightarrow>
           bind_outcome (getData input 64 64) (\<lambda>b2.
             case newCurvePoint K b2 of
               Inl e \<Rightarrow> Ret (Inl e)
             | Inr y \<Rightarrow> Ret (Inr (cl_G1_Marshal K (cl_G1_Add K x y)))))"

definition runBn256ScalarMul :: "crypto_lib \<Rightarrow> bytes \<Rightarrow> (vm_error + bytes) outcome" where
  "runBn256ScalarMul K input =
     bind_outcome (getData input 0 64) (\<lambda>b1.
       case newCurvePoint K b1 of
         Inl e \<Rightarrow> Ret (Inl e)
       | Inr p \<Rightarrow>
           bind_outcome (getData input 64 32) (\<lambda>b2.
             Ret (Inr (cl_G1_Marshal K (cl_G1_ScalarMult K p (be_nat b2))))))"

definition true32Byte :: bytes where
  "true32Byte = replicate 31 0 @ [1]"

definition false32Byte :: bytes where
  "false32Byte = replicate 32 0"

definition errBadPairingInput :: vm_error where
  "errBadPairingInput = ErrPrecompile ''bad elliptic curve pairing size''"

fun pairing_points :: "crypto_lib \<Rightarrow> nat \<Rightarrow> bytes \<Rightarrow> G1 list \<Rightarrow> G2 list \<Rightarrow> vm_error + G1 list \<times> G2 list" where
  "pairing_points K 0 input cs ts = Inr (cs, ts)"
| "pairing_points K (Suc n) input cs ts =
     (case newCurvePoint K (bytes_at 0 64 input) of
        Inl e \<Rightarrow> Inl e
      | Inr c \<Rightarrow>
          (case newTwistPoint K (bytes_at 64 128 input) of
             Inl e \<Rightarrow> Inl e
           | Inr t \<Rightarrow> pairing_points K n (drop 192 input) (cs @ [c]) (ts @ [t])))"

definition runBn256Pairing :: "crypto_lib \<Rightarrow> bytes \<Rightarrow> vm_error + bytes" where
  "runBn256Pairing K input =
     (if 0 < length input mod 192 then Inl errBadPairingInput
      else (case pairing_points K (length input div 192) input [] [] of
              Inl e \<Rightarrow> Inl e
            | Inr (cs, ts) \<Rightarrow> Inr (if cl_PairingCheck K cs ts then true32Byte else false32Byte)))"

definition le_u64 :: "bytes \<Rightarrow> u64" where
  "le_u64 b = of_nat (be_nat (rev b))"

definition put_le_u64 :: "u64 \<Rightarrow> bytes" where
  "put_le_u64 w = rev (be_bytes 8 (unat w))"

definition blake2F_Run :: "crypto_lib \<Rightarrow> bytes \<Rightarrow> vm_error + bytes" where
  "blake2F_Run K input =
     (if length input \<noteq> blake2FInputLength then Inl (ErrPrecompile ''invalid input length'')
      else if input ! 212 \<noteq> 0 \<and> input ! 212 \<noteq> 1 then Inl (ErrPrecompile ''invalid final flag'')
      else let rounds = of_nat (be_nat (bytes_at 0 4 input));
               final = (input ! 212 = 1);
               h = map (\<lambda>i. le_u64 (bytes_at (4 + i * 8) 8 input)) [0..<8];
               m = map (\<lambda>i. le_u64 (bytes_at (68 + i * 8) 8 input)) [0..<16];
               t = [le_u64 (bytes_at 196 8 input), le_u64 (bytes_at 204 8 input)]
           in Inr (concat (map put_le_u64 (cl_blake2b_F K h m t final rounds))))"

definition Run_precompile :: "crypto_lib \<Rightarrow> PrecompiledContract \<Rightarrow> bytes \<Rightarrow> (vm_error + bytes) outcome" where
  "Run_precompile K p input =
     (case p of
        ecrecover \<Rightarrow> Ret (Inr (ecrecover_Run K input))
      | sha256hash \<Rightarrow> Ret (Inr (sha256_Sum256 input))
      | ripemd160hash \<Rightarrow> Ret (Inr (ripemd160hash_Run K input))
      | dataCopy \<Rightarrow> Ret (Inr input)
      | bigModExp _ \<Rightarrow> bind_outcome (bigModExp_Run input) (\<lambda>b. Ret (Inr b))
      | bn256AddByzantium \<Rightarrow> runBn256Add K input
      | bn256AddIstanbul \<Rightarrow> runBn256Add K input
      | bn256ScalarMulByzantium \<Rightarrow> runBn256ScalarMul K input
      | bn256ScalarMulIstanbul \<Rightarrow> runBn256ScalarMul K input
      | bn256PairingByzantium \<Rightarrow> Ret (runBn256Pairing K input)
      | bn256PairingIstanbul \<Rightarrow> Ret (runBn256Pairing K input)
      | blake2F \<Rightarrow> Ret (blake2F_Run K input))"

text \<open>Result, remaining gas and error; the output of a failed run is nil.\<close>

definition RunPrecompiledContract ::
  "crypto_lib \<Rightarrow> PrecompiledContract \<Rightarrow> bytes \<Rightarrow> u64 \<Rightarrow> (bytes \<times> u64 \<times> vm_error option) outcome" where
  "RunPrecompiledContract K p input suppliedGas =
     bind_outcome (RequiredGas p input) (\<lambda>gasCost.
       if suppliedGas < gasCost then Ret ([], 0, Some ErrOutOfGas)
       else bind_outcome (Run_precompile K p input) (\<lambda>r.
         case r of
           Inl e \<Rightarrow> Ret ([], suppliedGas - gasCost, Some e)
         | Inr output \<Rightarrow> Ret (output, suppliedGas - gasCost, None)))"

end
