(* ===== verification/VM_Gas.thy ===== *)
theory VM_Gas
  imports VM_Interface VM_Precompiles
begin

text \<open>
  The state of the virtual machine and its dynamic gas functions (\<^verbatim>\<open>core/vm/gas_table.go\<close>,
  \<^verbatim>\<open>core/vm/operations_acl.go\<close>). The machine is parametric in the type of the state behind the
  interface \<^verbatim>\<open>vm.StateDB\<close>.
\<close>

section \<open>Configuration and state\<close>

text \<open>
  What stays fixed during the execution of a transaction: the operations of the state and of the
  libraries, the block and transaction context (\<^verbatim>\<open>BlockContext\<close>, \<^verbatim>\<open>TxContext\<close>), the chain rules and
  the options of \<^verbatim>\<open>Config\<close>. No tracer is configured.
\<close>

record 'st vm_cfg =
  sops :: "'st StateDB_ops"
  ulib :: uint256_lib
  clib :: crypto_lib
  GetHash :: "u64 \<Rightarrow> Hash"
  Coinbase :: Address
  BlockGasLimit :: u64
  BlockNumber :: int
  BlockTime :: u64
  Difficulty :: int
  BaseFee :: "int option"
  Random :: "Hash option"
  Origin :: Address
  GasPrice :: int
  vm_ChainID :: "int option"
  chainRules :: Rules
  EnablePreimageRecording :: bool

text \<open>
  The mutable part: the fields of \<^verbatim>\<open>EVM\<close> and \<^verbatim>\<open>EVMInterpreter\<close> and the live map of jump
  destination analyses. The flag \<^verbatim>\<open>abort\<close> may be set by another goroutine at any time, so
  \<open>aborts\<close> lists the values that the successive reads of the flag will return (false when it is
  exhausted).
\<close>

record 'st EVM =
  evm_StateDB :: 'st
  depth :: nat
  callGasTemp :: u64
  readOnly :: bool
  returnData :: bytes
  evm_jumpdests :: jumpdests
  aborts :: "bool list"

text \<open>A query of the state, which may fill its caches, and an update.\<close>

definition ask :: "('st \<Rightarrow> 'a \<times> 'st) \<Rightarrow> 'st EVM \<Rightarrow> 'a \<times> 'st EVM" where
  "ask q e = (case q (evm_StateDB e) of (x, s) \<Rightarrow> (x, e\<lparr>evm_StateDB := s\<rparr>))"

definition upd :: "('st \<Rightarrow> 'st) \<Rightarrow> 'st EVM \<Rightarrow> 'st EVM" where
  "upd f e = e\<lparr>evm_StateDB := f (evm_StateDB e)\<rparr>"

definition upd_panic :: "panic \<Rightarrow> ('st \<Rightarrow> 'st option) \<Rightarrow> 'st EVM \<Rightarrow> 'st EVM outcome" where
  "upd_panic p f e = bind_outcome (or_panic p (f (evm_StateDB e))) (\<lambda>s. Ret (e\<lparr>evm_StateDB := s\<rparr>))"

type_synonym 'st gas_result = "((vm_error + u64) \<times> 'st EVM \<times> Contract \<times> Memory) outcome"
type_synonym 'st gasFunc = "'st EVM \<Rightarrow> Contract \<Rightarrow> Stack \<Rightarrow> Memory \<Rightarrow> u64 \<Rightarrow> 'st gas_result"

text \<open>\<open>if gas, overflow = math.SafeAdd(...); overflow { return 0, ErrGasUintOverflow }\<close>\<close>

definition checked :: "u64 \<times> bool \<Rightarrow> (u64 \<Rightarrow> 'st gas_result) \<Rightarrow> 'st EVM \<Rightarrow> Contract \<Rightarrow> Memory \<Rightarrow> 'st gas_result" where
  "checked r k e ct m = (if snd r then Ret (Inl ErrGasUintOverflow, e, ct, m) else k (fst r))"

text \<open>\<open>gas, err := memoryGasCost(mem, memorySize); if err != nil { return 0, err }\<close>\<close>

definition with_memory_gas ::
  "'st EVM \<Rightarrow> Contract \<Rightarrow> Memory \<Rightarrow> u64 \<Rightarrow> (u64 \<Rightarrow> Memory \<Rightarrow> 'st gas_result) \<Rightarrow> 'st gas_result" where
  "with_memory_gas e ct m sz k =
     (case memoryGasCost m sz of
        (Inl err, m') \<Rightarrow> Ret (Inl err, e, ct, m')
      | (Inr gas, m') \<Rightarrow> k gas m')"

section \<open>Memory and copying\<close>

definition memoryCopierGas :: "uint256_lib \<Rightarrow> nat \<Rightarrow> 'st gasFunc" where
  "memoryCopierGas U stackpos e ct st m sz =
     with_memory_gas e ct m sz (\<lambda>gas m.
       bind_outcome (stack_Back stackpos st) (\<lambda>x.
         checked (u_Uint64WithOverflow U x) (\<lambda>words.
           checked (SafeMul (toWordSize words) CopyGas) (\<lambda>words.
             checked (SafeAdd gas words) (\<lambda>gas. Ret (Inr gas, e, ct, m)) e ct m) e ct m) e ct m))"

definition gasCallDataCopy :: "uint256_lib \<Rightarrow> 'st gasFunc" where
  "gasCallDataCopy U = memoryCopierGas U 2"

definition gasCodeCopy :: "uint256_lib \<Rightarrow> 'st gasFunc" where
  "gasCodeCopy U = memoryCopierGas U 2"

definition gasExtCodeCopy :: "uint256_lib \<Rightarrow> 'st gasFunc" where
  "gasExtCodeCopy U = memoryCopierGas U 3"

definition gasReturnDataCopy :: "uint256_lib \<Rightarrow> 'st gasFunc" where
  "gasReturnDataCopy U = memoryCopierGas U 2"

definition pureMemoryGascost :: "'st gasFunc" where
  "pureMemoryGascost e ct st m sz = with_memory_gas e ct m sz (\<lambda>gas m. Ret (Inr gas, e, ct, m))"

definition makeGasLog :: "uint256_lib \<Rightarrow> u64 \<Rightarrow> 'st gasFunc" where
  "makeGasLog U n e ct st m sz =
     bind_outcome (stack_Back 1 st) (\<lambda>x.
       checked (u_Uint64WithOverflow U x) (\<lambda>requestedSize.
         with_memory_gas e ct m sz (\<lambda>gas m.
           checked (SafeAdd gas LogGas) (\<lambda>gas.
             checked (SafeAdd gas (n * LogTopicGas)) (\<lambda>gas.
               checked (SafeMul requestedSize LogDataGas) (\<lambda>memorySizeGas.
                 checked (SafeAdd gas memorySizeGas) (\<lambda>gas. Ret (Inr gas, e, ct, m)) e ct m) e ct m)
               e ct m) e ct m)) e ct m)"

definition gasKeccak256 :: "uint256_lib \<Rightarrow> 'st gasFunc" where
  "gasKeccak256 U e ct st m sz =
     with_memory_gas e ct m sz (\<lambda>gas m.
       bind_outcome (stack_Back 1 st) (\<lambda>x.
         checked (u_Uint64WithOverflow U x) (\<lambda>wordGas.
           checked (SafeMul (toWordSize wordGas) Keccak256WordGas) (\<lambda>wordGas.
             checked (SafeAdd gas wordGas) (\<lambda>gas. Ret (Inr gas, e, ct, m)) e ct m) e ct m) e ct m))"

definition gasCreate2 :: "uint256_lib \<Rightarrow> 'st gasFunc" where
  "gasCreate2 U e ct st m sz =
     with_memory_gas e ct m sz (\<lambda>gas m.
       bind_outcome (stack_Back 2 st) (\<lambda>x.
         checked (u_Uint64WithOverflow U x) (\<lambda>wordGas.
           checked (SafeMul (toWordSize wordGas) Keccak256WordGas) (\<lambda>wordGas.
             checked (SafeAdd gas wordGas) (\<lambda>gas. Ret (Inr gas, e, ct, m)) e ct m) e ct m) e ct m))"

definition gasCreateEip3860 :: "uint256_lib \<Rightarrow> 'st gasFunc" where
  "gasCreateEip3860 U e ct st m sz =
     with_memory_gas e ct m sz (\<lambda>gas m.
       bind_outcome (stack_Back 2 st) (\<lambda>x.
         let (size, overflow) = u_Uint64WithOverflow U x
         in checked (size, overflow \<or> MaxInitCodeSize < size) (\<lambda>size.
              let moreGas = InitCodeWordGas * ((size + 31) div 32)
              in checked (SafeAdd gas moreGas) (\<lambda>gas. Ret (Inr gas, e, ct, m)) e ct m) e ct m))"

definition gasCreate2Eip3860 :: "uint256_lib \<Rightarrow> 'st gasFunc" where
  "gasCreate2Eip3860 U e ct st m sz =
     with_memory_gas e ct m sz (\<lambda>gas m.
       bind_outcome (stack_Back 2 st) (\<lambda>x.
         let (size, overflow) = u_Uint64WithOverflow U x
         in checked (size, overflow \<or> MaxInitCodeSize < size) (\<lambda>size.
              let moreGas = (InitCodeWordGas + Keccak256WordGas) * ((size + 31) div 32)
              in checked (SafeAdd gas moreGas) (\<lambda>gas. Ret (Inr gas, e, ct, m)) e ct m) e ct m))"

definition gasExpFrontier :: "uint256_lib \<Rightarrow> 'st gasFunc" where
  "gasExpFrontier U e ct st m sz =
     bind_outcome (stack_Back 1 st) (\<lambda>x.
       let expByteLen = of_nat ((u_BitLen U x + 7) div 8)
       in checked (SafeAdd (expByteLen * ExpByteFrontier) ExpGas) (\<lambda>gas. Ret (Inr gas, e, ct, m)) e ct m)"

definition gasExpEIP158 :: "uint256_lib \<Rightarrow> 'st gasFunc" where
  "gasExpEIP158 U e ct st m sz =
     bind_outcome (stack_Back 1 st) (\<lambda>x.
       let expByteLen = of_nat ((u_BitLen U x + 7) div 8)
       in checked (SafeAdd (expByteLen * ExpByteEIP158) ExpGas) (\<lambda>gas. Ret (Inr gas, e, ct, m)) e ct m)"

section \<open>Storage writes\<close>

definition add_refund :: "'st vm_cfg \<Rightarrow> u64 \<Rightarrow> 'st EVM \<Rightarrow> 'st EVM" where
  "add_refund c g = upd (i_AddRefund (sops c) g)"

definition sub_refund :: "'st vm_cfg \<Rightarrow> u64 \<Rightarrow> 'st EVM \<Rightarrow> 'st EVM outcome" where
  "sub_refund c g = upd_panic RefundPanic (i_SubRefund (sops c) g)"

text \<open>The refunds of an update of a slot that was changed before in the transaction (case 2.2).\<close>

definition dirty_refunds ::
  "'st vm_cfg \<Rightarrow> u64 \<Rightarrow> u64 \<Rightarrow> u64 \<Rightarrow> Hash \<Rightarrow> Hash \<Rightarrow> Hash \<Rightarrow> 'st EVM \<Rightarrow> 'st EVM outcome" where
  "dirty_refunds c clearing to_empty to_existing original current v e =
     bind_outcome
       (if original \<noteq> 0 then
          if current = 0 then sub_refund c clearing e
          else if v = 0 then Ret (add_refund c clearing e)
          else Ret e
        else Ret e)
       (\<lambda>e. if original = v then
              if original = 0 then Ret (add_refund c to_empty e) else Ret (add_refund c to_existing e)
            else Ret e)"

definition gasSStore :: "'st vm_cfg \<Rightarrow> 'st gasFunc" where
  "gasSStore c e ct st m sz =
     back2 1 0 st (\<lambda>y x.
       let key = u256_hash (ulib c) x;
           (current, e) = ask (i_GetState (sops c) (ct_Address ct) key) e
       in if r_IsPetersburg (chainRules c) \<or> \<not> r_IsConstantinople (chainRules c) then
            if current = 0 \<and> u_Sign (ulib c) y \<noteq> 0 then Ret (Inr SstoreSetGas, e, ct, m)
            else if current \<noteq> 0 \<and> u_Sign (ulib c) y = 0 then
              Ret (Inr SstoreClearGas, add_refund c SstoreRefundGas e, ct, m)
            else Ret (Inr SstoreResetGas, e, ct, m)
          else
            let v = u256_hash (ulib c) y
            in if current = v then Ret (Inr NetSstoreNoopGas, e, ct, m)
               else
                 let (original, e) = ask (i_GetCommittedState (sops c) (ct_Address ct) key) e
                 in if original = current then
                      if original = 0 then Ret (Inr NetSstoreInitGas, e, ct, m)
                      else Ret (Inr NetSstoreCleanGas,
                        (if v = 0 then add_refund c NetSstoreClearRefund e else e), ct, m)
                    else
                      bind_outcome
                        (dirty_refunds c NetSstoreClearRefund NetSstoreResetClearRefund NetSstoreResetRefund
                           original current v e)
                        (\<lambda>e. Ret (Inr NetSstoreDirtyGas, e, ct, m)))"

definition gasSStoreEIP2200 :: "'st vm_cfg \<Rightarrow> 'st gasFunc" where
  "gasSStoreEIP2200 c e ct st m sz =
     (if Gas ct \<le> SstoreSentryGasEIP2200 then Ret (Inl ErrSentry, e, ct, m)
      else back2 1 0 st (\<lambda>y x.
        let key = u256_hash (ulib c) x;
            (current, e) = ask (i_GetState (sops c) (ct_Address ct) key) e;
            v = u256_hash (ulib c) y
        in if current = v then Ret (Inr SloadGasEIP2200, e, ct, m)
           else
             let (original, e) = ask (i_GetCommittedState (sops c) (ct_Address ct) key) e
             in if original = current then
                  if original = 0 then Ret (Inr SstoreSetGasEIP2200, e, ct, m)
                  else Ret (Inr SstoreResetGasEIP2200,
                    (if v = 0 then add_refund c SstoreClearsScheduleRefundEIP2200 e else e), ct, m)
                else
                  bind_outcome
                    (dirty_refunds c SstoreClearsScheduleRefundEIP2200
                       (SstoreSetGasEIP2200 - SloadGasEIP2200) (SstoreResetGasEIP2200 - SloadGasEIP2200)
                       original current v e)
                    (\<lambda>e. Ret (Inr SloadGasEIP2200, e, ct, m))))"

definition makeGasSStoreFunc :: "u64 \<Rightarrow> 'st vm_cfg \<Rightarrow> 'st gasFunc" where
  "makeGasSStoreFunc clearingRefund c e ct st m sz =
     (if Gas ct \<le> SstoreSentryGasEIP2200 then Ret (Inl ErrSentry, e, ct, m)
      else back2 1 0 st (\<lambda>y x.
        let slot = u256_hash (ulib c) x;
            (current, e) = ask (i_GetState (sops c) (ct_Address ct) slot) e;
            (addrPresent, slotPresent) = i_SlotInAccessList (sops c) (ct_Address ct) slot (evm_StateDB e);
            cost = (if \<not> slotPresent then ColdSloadCostEIP2929 else 0);
            e = (if \<not> slotPresent then upd (i_AddSlotToAccessList (sops c) (ct_Address ct) slot) e else e)
        in if \<not> slotPresent \<and> \<not> addrPresent then Panic AccessListPanic
           else
             let v = u256_hash (ulib c) y
             in if current = v then Ret (Inr (cost + WarmStorageReadCostEIP2929), e, ct, m)
                else
                  let (original, e) = ask (i_GetCommittedState (sops c) (ct_Address ct) slot) e
                  in if original = current then
                       if original = 0 then Ret (Inr (cost + SstoreSetGasEIP2200), e, ct, m)
                       else Ret (Inr (cost + (SstoreResetGasEIP2200 - ColdSloadCostEIP2929)),
                         (if v = 0 then add_refund c clearingRefund e else e), ct, m)
                     else
                       bind_outcome
                         (dirty_refunds c clearingRefund
                            (SstoreSetGasEIP2200 - WarmStorageReadCostEIP2929)
                            (SstoreResetGasEIP2200 - ColdSloadCostEIP2929 - WarmStorageReadCostEIP2929)
                            original current v e)
                         (\<lambda>e. Ret (Inr (cost + WarmStorageReadCostEIP2929), e, ct, m))))"

definition gasSStoreEIP2929 :: "'st vm_cfg \<Rightarrow> 'st gasFunc" where
  "gasSStoreEIP2929 = makeGasSStoreFunc SstoreClearsScheduleRefundEIP2200"

definition gasSStoreEIP3529 :: "'st vm_cfg \<Rightarrow> 'st gasFunc" where
  "gasSStoreEIP3529 = makeGasSStoreFunc SstoreClearsScheduleRefundEIP3529"

section \<open>Access lists\<close>

definition gasSLoadEIP2929 :: "'st vm_cfg \<Rightarrow> 'st gasFunc" where
  "gasSLoadEIP2929 c e ct st m sz =
     bind_outcome (stack_peek st) (\<lambda>loc.
       let slot = u256_hash (ulib c) loc
       in if \<not> snd (i_SlotInAccessList (sops c) (ct_Address ct) slot (evm_StateDB e)) then
            Ret (Inr ColdSloadCostEIP2929, upd (i_AddSlotToAccessList (sops c) (ct_Address ct) slot) e, ct, m)
          else Ret (Inr WarmStorageReadCostEIP2929, e, ct, m))"

definition gasExtCodeCopyEIP2929 :: "'st vm_cfg \<Rightarrow> 'st gasFunc" where
  "gasExtCodeCopyEIP2929 c e ct st m sz =
     bind_outcome (gasExtCodeCopy (ulib c) e ct st m sz) (\<lambda>(r, e, ct, m).
       case r of
         Inl err \<Rightarrow> Ret (Inl err, e, ct, m)
       | Inr gas \<Rightarrow>
           bind_outcome (stack_peek st) (\<lambda>x.
             let addr = u256_address (ulib c) x
             in if \<not> i_AddressInAccessList (sops c) addr (evm_StateDB e) then
                  let e = upd (i_AddAddressToAccessList (sops c) addr) e
                  in checked (SafeAdd gas (ColdAccountAccessCostEIP2929 - WarmStorageReadCostEIP2929))
                       (\<lambda>gas. Ret (Inr gas, e, ct, m)) e ct m
                else Ret (Inr gas, e, ct, m)))"

definition gasEip2929AccountCheck :: "'st vm_cfg \<Rightarrow> 'st gasFunc" where
  "gasEip2929AccountCheck c e ct st m sz =
     bind_outcome (stack_peek st) (\<lambda>x.
       let addr = u256_address (ulib c) x
       in if \<not> i_AddressInAccessList (sops c) addr (evm_StateDB e) then
            Ret (Inr (ColdAccountAccessCostEIP2929 - WarmStorageReadCostEIP2929),
              upd (i_AddAddressToAccessList (sops c) addr) e, ct, m)
          else Ret (Inr 0, e, ct, m))"

section \<open>Calls\<close>

text \<open>
  The last part of every call price: the gas for the callee goes to \<^verbatim>\<open>evm.callGasTemp\<close> and is
  added to the price. On an error \<^verbatim>\<open>callGas\<close> returns zero, which is stored as well.
\<close>

definition price_call :: "'st vm_cfg \<Rightarrow> u64 \<Rightarrow> u256 \<Rightarrow> 'st EVM \<Rightarrow> Contract \<Rightarrow> Memory \<Rightarrow> 'st gas_result" where
  "price_call c gas callCost e ct m =
     (case callGas (ulib c) (r_IsEIP150 (chainRules c)) (Gas ct) gas callCost of
        Inl err \<Rightarrow> Ret (Inl err, e\<lparr>callGasTemp := 0\<rparr>, ct, m)
      | Inr temp \<Rightarrow>
          let e = e\<lparr>callGasTemp := temp\<rparr>
          in checked (SafeAdd gas temp) (\<lambda>gas. Ret (Inr gas, e, ct, m)) e ct m)"

definition gasCall :: "'st vm_cfg \<Rightarrow> 'st gasFunc" where
  "gasCall c e ct st m sz =
     back2 2 1 st (\<lambda>v x.
       let transfersValue = (\<not> u_IsZero (ulib c) v);
           address = u256_address (ulib c) x;
           (new, e) =
             (if r_IsEIP158 (chainRules c) then
                if transfersValue then ask (i_Empty (sops c) address) e else (False, e)
              else (let (ex, e) = ask (i_Exist (sops c) address) e in (\<not> ex, e)));
           gas = (if new then CallNewAccountGas else 0);
           gas = (if transfersValue then gas + CallValueTransferGas else gas)
       in with_memory_gas e ct m sz (\<lambda>memoryGas m.
            checked (SafeAdd gas memoryGas) (\<lambda>gas.
              bind_outcome (stack_Back 0 st) (\<lambda>callCost. price_call c gas callCost e ct m)) e ct m))"

definition gasCallCode :: "'st vm_cfg \<Rightarrow> 'st gasFunc" where
  "gasCallCode c e ct st m sz =
     with_memory_gas e ct m sz (\<lambda>memoryGas m.
       bind_outcome (stack_Back 2 st) (\<lambda>v.
         let gas = (if u_Sign (ulib c) v \<noteq> 0 then CallValueTransferGas else 0)
         in checked (SafeAdd gas memoryGas) (\<lambda>gas.
              bind_outcome (stack_Back 0 st) (\<lambda>callCost. price_call c gas callCost e ct m)) e ct m))"

definition gasDelegateCall :: "'st vm_cfg \<Rightarrow> 'st gasFunc" where
  "gasDelegateCall c e ct st m sz =
     with_memory_gas e ct m sz (\<lambda>gas m.
       bind_outcome (stack_Back 0 st) (\<lambda>callCost. price_call c gas callCost e ct m))"

definition gasStaticCall :: "'st vm_cfg \<Rightarrow> 'st gasFunc" where
  "gasStaticCall c e ct st m sz =
     with_memory_gas e ct m sz (\<lambda>gas m.
       bind_outcome (stack_Back 0 st) (\<lambda>callCost. price_call c gas callCost e ct m))"

definition makeCallVariantGasCallEIP2929 :: "'st vm_cfg \<Rightarrow> 'st gasFunc \<Rightarrow> 'st gasFunc" where
  "makeCallVariantGasCallEIP2929 c oldCalculator e ct st m sz =
     bind_outcome (stack_Back 1 st) (\<lambda>x.
       let addr = u256_address (ulib c) x;
           warmAccess = i_AddressInAccessList (sops c) addr (evm_StateDB e);
           coldCost = ColdAccountAccessCostEIP2929 - WarmStorageReadCostEIP2929;
           e = (if warmAccess then e else upd (i_AddAddressToAccessList (sops c) addr) e);
           (afford, ct) = (if warmAccess then (True, ct) else UseGas coldCost ct)
       in if \<not> afford then Ret (Inl ErrOutOfGas, e, ct, m)
          else bind_outcome (oldCalculator e ct st m sz) (\<lambda>(r, e, ct, m).
            if warmAccess then Ret (r, e, ct, m)
            else case r of
                Inl err \<Rightarrow> Ret (Inl err, e, ct, m)
              | Inr gas \<Rightarrow> Ret (Inr (gas + coldCost), e, ct\<lparr>Gas := Gas ct + coldCost\<rparr>, m)))"

definition gasCallEIP2929 :: "'st vm_cfg \<Rightarrow> 'st gasFunc" where
  "gasCallEIP2929 c = makeCallVariantGasCallEIP2929 c (gasCall c)"

definition gasDelegateCallEIP2929 :: "'st vm_cfg \<Rightarrow> 'st gasFunc" where
  "gasDelegateCallEIP2929 c = makeCallVariantGasCallEIP2929 c (gasDelegateCall c)"

definition gasStaticCallEIP2929 :: "'st vm_cfg \<Rightarrow> 'st gasFunc" where
  "gasStaticCallEIP2929 c = makeCallVariantGasCallEIP2929 c (gasStaticCall c)"

definition gasCallCodeEIP2929 :: "'st vm_cfg \<Rightarrow> 'st gasFunc" where
  "gasCallCodeEIP2929 c = makeCallVariantGasCallEIP2929 c (gasCallCode c)"

section \<open>Self-destruction\<close>

definition refund_selfdestruct :: "'st vm_cfg \<Rightarrow> Contract \<Rightarrow> 'st EVM \<Rightarrow> 'st EVM" where
  "refund_selfdestruct c ct e =
     (let (suicided, e) = ask (i_HasSuicided (sops c) (ct_Address ct)) e
      in if \<not> suicided then add_refund c SelfdestructRefundGas e else e)"

text \<open>\<open>Empty(address) && GetBalance(contract.Address()).Sign() != 0\<close>, read from left to right.\<close>

definition endows_new :: "'st vm_cfg \<Rightarrow> Address \<Rightarrow> Contract \<Rightarrow> 'st EVM \<Rightarrow> bool \<times> 'st EVM" where
  "endows_new c address ct e =
     (let (empty, e) = ask (i_Empty (sops c) address) e
      in if empty then (let (b, e) = ask (i_GetBalance (sops c) (ct_Address ct)) e in (b \<noteq> 0, e))
         else (False, e))"

definition gasSelfdestruct :: "'st vm_cfg \<Rightarrow> 'st gasFunc" where
  "gasSelfdestruct c e ct st m sz =
     bind_outcome
       (if r_IsEIP150 (chainRules c) then
          bind_outcome (stack_Back 0 st) (\<lambda>x.
            let address = u256_address (ulib c) x;
                (new, e) =
                  (if r_IsEIP158 (chainRules c) then endows_new c address ct e
                   else (let (ex, e) = ask (i_Exist (sops c) address) e in (\<not> ex, e)))
            in Ret (SelfdestructGasEIP150 + (if new then CreateBySelfdestructGas else 0), e))
        else Ret (0, e))
       (\<lambda>(gas, e). Ret (Inr gas, refund_selfdestruct c ct e, ct, m))"

definition makeSelfdestructGasFn :: "bool \<Rightarrow> 'st vm_cfg \<Rightarrow> 'st gasFunc" where
  "makeSelfdestructGasFn refundsEnabled c e ct st m sz =
     bind_outcome (stack_peek st) (\<lambda>x.
       let address = u256_address (ulib c) x;
           warm = i_AddressInAccessList (sops c) address (evm_StateDB e);
           e = (if warm then e else upd (i_AddAddressToAccessList (sops c) address) e);
           gas = (if warm then 0 else ColdAccountAccessCostEIP2929);
           (new, e) = endows_new c address ct e;
           gas = (if new then gas + CreateBySelfdestructGas else gas);
           e = (if refundsEnabled then refund_selfdestruct c ct e else e)
       in Ret (Inr gas, e, ct, m))"

definition gasSelfdestructEIP2929 :: "'st vm_cfg \<Rightarrow> 'st gasFunc" where
  "gasSelfdestructEIP2929 = makeSelfdestructGasFn True"

definition gasSelfdestructEIP3529 :: "'st vm_cfg \<Rightarrow> 'st gasFunc" where
  "gasSelfdestructEIP3529 = makeSelfdestructGasFn False"

end
