(* ===== verification/VM_Calls.thy ===== *)
theory VM_Calls
  imports VM_Gas RLP_Raw
begin

text \<open>
  Message calls and contract creation (\<^verbatim>\<open>core/vm/evm.go\<close>), with the value transfer functions of
  \<^verbatim>\<open>core/evm.go\<close> that every block context is built with and the address derivation of
  \<^verbatim>\<open>crypto/crypto.go\<close>. The interpreter's \<^verbatim>\<open>Run\<close>, which is mutually recursive with the calls, is
  an argument; the theory \<open>VM_Interpreter\<close> ties the knot.
\<close>

type_synonym 'st runner =
  "Contract \<Rightarrow> bytes \<Rightarrow> bool \<Rightarrow> 'st EVM \<Rightarrow> ((bytes \<times> vm_error option) \<times> Contract \<times> 'st EVM) outcome"

type_synonym 'st call_result = "((bytes \<times> u64 \<times> vm_error option) \<times> 'st EVM) outcome"

type_synonym 'st create_result = "((bytes \<times> Address \<times> u64 \<times> vm_error option) \<times> 'st EVM) outcome"

section \<open>Value transfer (core/evm.go)\<close>

definition CanTransfer :: "'st vm_cfg \<Rightarrow> Address \<Rightarrow> int \<Rightarrow> 'st EVM \<Rightarrow> bool \<times> 'st EVM" where
  "CanTransfer c addr amount e =
     (let (b, e) = ask (i_GetBalance (sops c) addr) e in (amount \<le> b, e))"

definition Transfer :: "'st vm_cfg \<Rightarrow> Address \<Rightarrow> Address \<Rightarrow> int \<Rightarrow> 'st EVM \<Rightarrow> 'st EVM" where
  "Transfer c sender recipient amount e =
     upd (i_AddBalance (sops c) recipient amount) (upd (i_SubBalance (sops c) sender amount) e)"

section \<open>New contract addresses (crypto/crypto.go)\<close>

definition CreateAddress :: "crypto_lib \<Rightarrow> Address \<Rightarrow> u64 \<Rightarrow> Address outcome" where
  "CreateAddress K b nonce =
     bind_outcome (or_panic SlicePanic (EncodeToBytes (RList [RBytes (address_bytes b), RUint nonce])))
       (\<lambda>data. Ret (BytesToAddress (drop 12 (hash_bytes (cl_Keccak256 K data)))))"

definition CreateAddress2 :: "crypto_lib \<Rightarrow> Address \<Rightarrow> bytes \<Rightarrow> bytes \<Rightarrow> Address" where
  "CreateAddress2 K b salt inithash =
     BytesToAddress (drop 12 (hash_bytes (cl_Keccak256 K ([0xff] @ address_bytes b @ salt @ inithash))))"

section \<open>Calls\<close>

definition precompile :: "Rules \<Rightarrow> Address \<Rightarrow> PrecompiledContract option" where
  "precompile r addr =
     map_of (if r_IsBerlin r then PrecompiledContractsBerlin
             else if r_IsIstanbul r then PrecompiledContractsIstanbul
             else if r_IsByzantium r then PrecompiledContractsByzantium
             else PrecompiledContractsHomestead) addr"

text \<open>The common end of the calls: on an error revert, and consume the gas unless it is a REVERT.\<close>

definition conclude :: "'st vm_cfg \<Rightarrow> nat \<Rightarrow> bytes \<times> u64 \<times> vm_error option \<Rightarrow> 'st EVM \<Rightarrow> 'st call_result" where
  "conclude c snapshot r e =
     (case r of (ret, gas, err) \<Rightarrow>
        if err \<noteq> None then
          bind_outcome (upd_panic SnapshotPanic (i_RevertToSnapshot (sops c) snapshot) e) (\<lambda>e.
            Ret ((ret, (if err \<noteq> Some ErrExecutionReverted then 0 else gas), err), e))
        else Ret ((ret, gas, err), e))"

definition run_precompile :: "'st vm_cfg \<Rightarrow> PrecompiledContract \<Rightarrow> bytes \<Rightarrow> u64 \<Rightarrow> 'st EVM \<Rightarrow> 'st call_result" where
  "run_precompile c p input gas e =
     bind_outcome (RunPrecompiledContract (clib c) p input gas) (\<lambda>r. Ret (r, e))"

definition run_contract :: "'st runner \<Rightarrow> Contract \<Rightarrow> bytes \<Rightarrow> bool \<Rightarrow> 'st EVM \<Rightarrow> 'st call_result" where
  "run_contract run ct input ro e =
     bind_outcome (run ct input ro e) (\<lambda>((ret, err), ct, e). Ret ((ret, Gas ct, err), e))"

definition new_contract ::
  "ContractRef \<Rightarrow> ContractRef \<Rightarrow> int option \<Rightarrow> u64 \<Rightarrow> 'st EVM \<Rightarrow> Contract \<times> 'st EVM" where
  "new_contract clr object v gas e =
     (case NewContract clr object v gas (evm_jumpdests e) of (ct, jd) \<Rightarrow> (ct, e\<lparr>evm_jumpdests := jd\<rparr>))"

definition evm_Call ::
  "'st vm_cfg \<Rightarrow> 'st runner \<Rightarrow> ContractRef \<Rightarrow> Address \<Rightarrow> bytes \<Rightarrow> u64 \<Rightarrow> int \<Rightarrow> 'st EVM \<Rightarrow> 'st call_result" where
  "evm_Call c run clr addr input gas v e =
     (if unat CallCreateDepth < depth e then Ret (([], gas, Some ErrDepth), e)
      else
        let (can, e) = (if v \<noteq> 0 then CanTransfer c (ref_Address clr) v e else (True, e))
        in if \<not> can then Ret (([], gas, Some ErrInsufficientBalance), e)
           else
             let (snapshot, e) = ask (i_Snapshot (sops c)) e;
                 p = precompile (chainRules c) addr;
                 (ex, e) = ask (i_Exist (sops c) addr) e
             in if \<not> ex \<and> p = None \<and> r_IsEIP158 (chainRules c) \<and> v = 0 then Ret (([], gas, None), e)
                else
                  let e = (if ex then e else upd (i_CreateAccount (sops c) addr) e);
                      e = Transfer c (ref_Address clr) addr v e
                  in bind_outcome
                       (case p of
                          Some p \<Rightarrow> run_precompile c p input gas e
                        | None \<Rightarrow>
                            let (code, e) = ask (i_GetCode (sops c) addr) e
                            in if length code = 0 then Ret (([], gas, None), e)
                               else
                                 let (ct, e) = new_contract clr (AccountRef addr) (Some v) gas e;
                                     (h, e) = ask (i_GetCodeHash (sops c) addr) e
                                 in run_contract run (SetCallCode addr h code ct) input False e)
                       (\<lambda>(r, e). conclude c snapshot r e))"

text \<open>Loading the code of an address into a contract: \<open>SetCallCode(&addr, GetCodeHash(addr), GetCode(addr))\<close>.\<close>

definition load_code :: "'st vm_cfg \<Rightarrow> Address \<Rightarrow> Contract \<Rightarrow> 'st EVM \<Rightarrow> Contract \<times> 'st EVM" where
  "load_code c addr ct e =
     (let (h, e) = ask (i_GetCodeHash (sops c) addr) e;
          (code, e) = ask (i_GetCode (sops c) addr) e
      in (SetCallCode addr h code ct, e))"

definition evm_CallCode ::
  "'st vm_cfg \<Rightarrow> 'st runner \<Rightarrow> ContractRef \<Rightarrow> Address \<Rightarrow> bytes \<Rightarrow> u64 \<Rightarrow> int \<Rightarrow> 'st EVM \<Rightarrow> 'st call_result" where
  "evm_CallCode c run clr addr input gas v e =
     (if unat CallCreateDepth < depth e then Ret (([], gas, Some ErrDepth), e)
      else
        let (can, e) = CanTransfer c (ref_Address clr) v e
        in if \<not> can then Ret (([], gas, Some ErrInsufficientBalance), e)
           else
             let (snapshot, e) = ask (i_Snapshot (sops c)) e
             in bind_outcome
                  (case precompile (chainRules c) addr of
                     Some p \<Rightarrow> run_precompile c p input gas e
                   | None \<Rightarrow>
                       let (ct, e) = new_contract clr (AccountRef (ref_Address clr)) (Some v) gas e;
                           (ct, e) = load_code c addr ct e
                       in run_contract run ct input False e)
                  (\<lambda>(r, e). conclude c snapshot r e))"

definition evm_DelegateCall ::
  "'st vm_cfg \<Rightarrow> 'st runner \<Rightarrow> ContractRef \<Rightarrow> Address \<Rightarrow> bytes \<Rightarrow> u64 \<Rightarrow> 'st EVM \<Rightarrow> 'st call_result" where
  "evm_DelegateCall c run clr addr input gas e =
     (if unat CallCreateDepth < depth e then Ret (([], gas, Some ErrDepth), e)
      else
        let (snapshot, e) = ask (i_Snapshot (sops c)) e
        in bind_outcome
             (case precompile (chainRules c) addr of
                Some p \<Rightarrow> run_precompile c p input gas e
              | None \<Rightarrow>
                  let (ct, e) = new_contract clr (AccountRef (ref_Address clr)) None gas e
                  in bind_outcome (AsDelegate ct) (\<lambda>ct.
                       let (ct, e) = load_code c addr ct e in run_contract run ct input False e))
             (\<lambda>(r, e). conclude c snapshot r e))"

definition evm_StaticCall ::
  "'st vm_cfg \<Rightarrow> 'st runner \<Rightarrow> ContractRef \<Rightarrow> Address \<Rightarrow> bytes \<Rightarrow> u64 \<Rightarrow> 'st EVM \<Rightarrow> 'st call_result" where
  "evm_StaticCall c run clr addr input gas e =
     (if unat CallCreateDepth < depth e then Ret (([], gas, Some ErrDepth), e)
      else
        let (snapshot, e) = ask (i_Snapshot (sops c)) e;
            e = upd (i_AddBalance (sops c) addr 0) e
        in bind_outcome
             (case precompile (chainRules c) addr of
                Some p \<Rightarrow> run_precompile c p input gas e
              | None \<Rightarrow>
                  let (ct, e) = new_contract clr (AccountRef addr) (Some 0) gas e;
                      (ct, e) = load_code c addr ct e
                  in run_contract run ct input True e)
             (\<lambda>(r, e). conclude c snapshot r e))"

section \<open>Creation\<close>

text \<open>The checks on the code a creation returned, in the order of the source.\<close>

definition deployment_error :: "'st vm_cfg \<Rightarrow> bytes \<Rightarrow> vm_error option \<Rightarrow> vm_error option" where
  "deployment_error c ret err =
     (let err = (if err = None \<and> r_IsEIP158 (chainRules c) \<and> MaxCodeSize < length ret
                 then Some ErrMaxCodeSizeExceeded else err)
      in if err = None \<and> 1 \<le> length ret \<and> ret ! 0 = 0xEF \<and> r_IsLondon (chainRules c)
         then Some ErrInvalidCode else err)"

definition store_code ::
  "'st vm_cfg \<Rightarrow> Address \<Rightarrow> bytes \<Rightarrow> vm_error option \<Rightarrow> Contract \<Rightarrow> 'st EVM \<Rightarrow> vm_error option \<times> Contract \<times> 'st EVM" where
  "store_code c address ret err ct e =
     (if err = None then
        let createDataGas = of_nat (length ret) * CreateDataGas;
            (ok, ct) = UseGas createDataGas ct
        in if ok then (None, ct, upd (i_SetCode (sops c) address ret) e)
           else (Some ErrCodeStoreOutOfGas, ct, e)
      else (err, ct, e))"

definition evm_create ::
  "'st vm_cfg \<Rightarrow> 'st runner \<Rightarrow> ContractRef \<Rightarrow> codeAndHash \<Rightarrow> u64 \<Rightarrow> int \<Rightarrow> Address \<Rightarrow> 'st EVM \<Rightarrow> 'st create_result" where
  "evm_create c run clr ch gas v address e =
     (if unat CallCreateDepth < depth e then Ret (([], 0, gas, Some ErrDepth), e)
      else
        let (can, e) = CanTransfer c (ref_Address clr) v e
        in if \<not> can then Ret (([], 0, gas, Some ErrInsufficientBalance), e)
           else
             let (nonce, e) = ask (i_GetNonce (sops c) (ref_Address clr)) e
             in if nonce + 1 < nonce then Ret (([], 0, gas, Some ErrNonceUintOverflow), e)
                else
                  let e = upd (i_SetNonce (sops c) (ref_Address clr) (nonce + 1)) e;
                      e = (if r_IsBerlin (chainRules c) then upd (i_AddAddressToAccessList (sops c) address) e else e);
                      (contractHash, e) = ask (i_GetCodeHash (sops c) address) e;
                      (n, e) = ask (i_GetNonce (sops c) address) e
                  in if n \<noteq> 0 \<or> (contractHash \<noteq> 0 \<and> contractHash \<noteq> cl_Keccak256 (clib c) []) then
                       Ret (([], 0, 0, Some ErrContractAddressCollision), e)
                     else
                       let (snapshot, e) = ask (i_Snapshot (sops c)) e;
                           e = upd (i_CreateAccount (sops c) address) e;
                           e = (if r_IsEIP158 (chainRules c) then upd (i_SetNonce (sops c) address 1) e else e);
                           e = Transfer c (ref_Address clr) address v e;
                           (ct, e) = new_contract clr (AccountRef address) (Some v) gas e;
                           ct = SetCodeOptionalHash address ch ct
                       in bind_outcome (run ct [] False e) (\<lambda>((ret, err), ct, e).
                            let err = deployment_error c ret err;
                                (err, ct, e) = store_code c address ret err ct e
                            in if err \<noteq> None \<and> (r_IsHomestead (chainRules c) \<or> err \<noteq> Some ErrCodeStoreOutOfGas) then
                                 bind_outcome (upd_panic SnapshotPanic (i_RevertToSnapshot (sops c) snapshot) e) (\<lambda>e.
                                   let ct = (if err \<noteq> Some ErrExecutionReverted then snd (UseGas (Gas ct) ct) else ct)
                                   in Ret ((ret, address, Gas ct, err), e))
                               else Ret ((ret, address, Gas ct, err), e)))"

definition evm_Create ::
  "'st vm_cfg \<Rightarrow> 'st runner \<Rightarrow> ContractRef \<Rightarrow> bytes \<Rightarrow> u64 \<Rightarrow> int \<Rightarrow> 'st EVM \<Rightarrow> 'st create_result" where
  "evm_Create c run clr code gas v e =
     (let (nonce, e) = ask (i_GetNonce (sops c) (ref_Address clr)) e
      in bind_outcome (CreateAddress (clib c) (ref_Address clr) nonce) (\<lambda>contractAddr.
           evm_create c run clr \<lparr>cah_code = code, cah_hash = 0\<rparr> gas v contractAddr e))"

definition evm_Create2 ::
  "'st vm_cfg \<Rightarrow> 'st runner \<Rightarrow> ContractRef \<Rightarrow> bytes \<Rightarrow> u64 \<Rightarrow> int \<Rightarrow> u256 \<Rightarrow> 'st EVM \<Rightarrow> 'st create_result" where
  "evm_Create2 c run clr code gas endowment salt e =
     (let (h, ch) = cah_Hash (cl_Keccak256 (clib c)) \<lparr>cah_code = code, cah_hash = 0\<rparr>;
          contractAddr = CreateAddress2 (clib c) (ref_Address clr) (u_Bytes32 (ulib c) salt) (hash_bytes h)
      in evm_create c run clr ch gas endowment contractAddr e)"

end
