(* ===== verification/VM_Instructions.thy ===== *)
theory VM_Instructions
  imports VM_Calls
begin

text \<open>
  The instructions (\<^verbatim>\<open>core/vm/instructions.go\<close> and the new ones of \<^verbatim>\<open>core/vm/eips.go\<close>), each a
  function of the frame it runs in: the program counter, the machine, and the contract, operand
  stack and memory of the \<^verbatim>\<open>ScopeContext\<close>. Where the code peeks at the top of the stack and
  writes through the pointer, the model pops the operand and pushes the result.
\<close>

section \<open>Frames\<close>

record 'st frame =
  fr_pc :: u64
  fr_evm :: "'st EVM"
  fr_contract :: Contract
  fr_stack :: Stack
  fr_mem :: Memory

type_synonym 'st exec_result = "((bytes \<times> vm_error option) \<times> 'st frame) outcome"
type_synonym 'st executionFunc = "'st runner \<Rightarrow> 'st frame \<Rightarrow> 'st exec_result"

definition proceed :: "'st frame \<Rightarrow> 'st exec_result" where
  "proceed fr = Ret (([], None), fr)"

definition fail :: "vm_error \<Rightarrow> 'st frame \<Rightarrow> 'st exec_result" where
  "fail err fr = Ret (([], Some err), fr)"

definition push_value :: "u256 \<Rightarrow> 'st frame \<Rightarrow> 'st exec_result" where
  "push_value v fr = proceed (fr\<lparr>fr_stack := stack_push v (fr_stack fr)\<rparr>)"

definition unop :: "(u256 \<Rightarrow> u256) \<Rightarrow> 'st executionFunc" where
  "unop f run fr = pop1 (fr_stack fr) (\<lambda>x st. push_value (f x) (fr\<lparr>fr_stack := st\<rparr>))"

definition binop :: "(u256 \<Rightarrow> u256 \<Rightarrow> u256) \<Rightarrow> 'st executionFunc" where
  "binop f run fr = pop2 (fr_stack fr) (\<lambda>x y st. push_value (f x y) (fr\<lparr>fr_stack := st\<rparr>))"

definition ternop :: "(u256 \<Rightarrow> u256 \<Rightarrow> u256 \<Rightarrow> u256) \<Rightarrow> 'st executionFunc" where
  "ternop f run fr = pop3 (fr_stack fr) (\<lambda>x y z st. push_value (f x y z) (fr\<lparr>fr_stack := st\<rparr>))"

definition of_flag :: "bool \<Rightarrow> u256" where
  "of_flag b = (if b then 1 else 0)"

section \<open>Arithmetic, comparison and bit operations\<close>

definition opAdd :: "'st vm_cfg \<Rightarrow> 'st executionFunc" where "opAdd c = binop (\<lambda>x y. u_Add (ulib c) x y)"
definition opSub :: "'st vm_cfg \<Rightarrow> 'st executionFunc" where "opSub c = binop (\<lambda>x y. u_Sub (ulib c) x y)"
definition opMul :: "'st vm_cfg \<Rightarrow> 'st executionFunc" where "opMul c = binop (\<lambda>x y. u_Mul (ulib c) x y)"
definition opDiv :: "'st vm_cfg \<Rightarrow> 'st executionFunc" where "opDiv c = binop (\<lambda>x y. u_Div (ulib c) x y)"
definition opSdiv :: "'st vm_cfg \<Rightarrow> 'st executionFunc" where "opSdiv c = binop (\<lambda>x y. u_SDiv (ulib c) x y)"
definition opMod :: "'st vm_cfg \<Rightarrow> 'st executionFunc" where "opMod c = binop (\<lambda>x y. u_Mod (ulib c) x y)"
definition opSmod :: "'st vm_cfg \<Rightarrow> 'st executionFunc" where "opSmod c = binop (\<lambda>x y. u_SMod (ulib c) x y)"
definition opExp :: "'st vm_cfg \<Rightarrow> 'st executionFunc" where
  "opExp c = binop (\<lambda>base exponent. u_Exp (ulib c) base exponent)"
definition opSignExtend :: "'st vm_cfg \<Rightarrow> 'st executionFunc" where
  "opSignExtend c = binop (\<lambda>b num. u_ExtendSign (ulib c) num b)"
definition opNot :: "'st vm_cfg \<Rightarrow> 'st executionFunc" where "opNot c = unop (u_Not (ulib c))"
definition opLt :: "'st vm_cfg \<Rightarrow> 'st executionFunc" where "opLt c = binop (\<lambda>x y. of_flag (u_Lt (ulib c) x y))"
definition opGt :: "'st vm_cfg \<Rightarrow> 'st executionFunc" where "opGt c = binop (\<lambda>x y. of_flag (u_Gt (ulib c) x y))"
definition opSlt :: "'st vm_cfg \<Rightarrow> 'st executionFunc" where "opSlt c = binop (\<lambda>x y. of_flag (u_Slt (ulib c) x y))"
definition opSgt :: "'st vm_cfg \<Rightarrow> 'st executionFunc" where "opSgt c = binop (\<lambda>x y. of_flag (u_Sgt (ulib c) x y))"
definition opEq :: "'st vm_cfg \<Rightarrow> 'st executionFunc" where "opEq c = binop (\<lambda>x y. of_flag (u_Eq (ulib c) x y))"
definition opIszero :: "'st vm_cfg \<Rightarrow> 'st executionFunc" where "opIszero c = unop (\<lambda>x. of_flag (u_IsZero (ulib c) x))"
definition opAnd :: "'st vm_cfg \<Rightarrow> 'st executionFunc" where "opAnd c = binop (\<lambda>x y. u_And (ulib c) x y)"
definition opOr :: "'st vm_cfg \<Rightarrow> 'st executionFunc" where "opOr c = binop (\<lambda>x y. u_Or (ulib c) x y)"
definition opXor :: "'st vm_cfg \<Rightarrow> 'st executionFunc" where "opXor c = binop (\<lambda>x y. u_Xor (ulib c) x y)"
definition opByte :: "'st vm_cfg \<Rightarrow> 'st executionFunc" where "opByte c = binop (\<lambda>th v. u_Byte (ulib c) v th)"

definition opAddmod :: "'st vm_cfg \<Rightarrow> 'st executionFunc" where
  "opAddmod c = ternop (\<lambda>x y z. if u_IsZero (ulib c) z then 0 else u_AddMod (ulib c) x y z)"

definition opMulmod :: "'st vm_cfg \<Rightarrow> 'st executionFunc" where
  "opMulmod c = ternop (\<lambda>x y z. u_MulMod (ulib c) x y z)"

definition opSHL :: "'st vm_cfg \<Rightarrow> 'st executionFunc" where
  "opSHL c = binop (\<lambda>shift v.
     if u_LtUint64 (ulib c) shift 256 then u_Lsh (ulib c) v (u_Uint64 (ulib c) shift) else 0)"

definition opSHR :: "'st vm_cfg \<Rightarrow> 'st executionFunc" where
  "opSHR c = binop (\<lambda>shift v.
     if u_LtUint64 (ulib c) shift 256 then u_Rsh (ulib c) v (u_Uint64 (ulib c) shift) else 0)"

definition opSAR :: "'st vm_cfg \<Rightarrow> 'st executionFunc" where
  "opSAR c = binop (\<lambda>shift v.
     if u_GtUint64 (ulib c) shift 256 then if 0 \<le> u_Sign (ulib c) v then 0 else - 1
     else u_SRsh (ulib c) v (u_Uint64 (ulib c) shift))"

section \<open>Hashing and the environment\<close>

definition opKeccak256 :: "'st vm_cfg \<Rightarrow> 'st executionFunc" where
  "opKeccak256 c run fr =
     pop2 (fr_stack fr) (\<lambda>offset sz st.
       bind_outcome (mem_GetPtr (sint (u_Uint64 (ulib c) offset)) (sint (u_Uint64 (ulib c) sz)) (fr_mem fr)) (\<lambda>data.
         let h = cl_Keccak256 (clib c) data;
             e = (if EnablePreimageRecording c then upd (i_AddPreimage (sops c) h data) (fr_evm fr) else fr_evm fr)
         in push_value (u_SetBytes (ulib c) (hash_bytes h)) (fr\<lparr>fr_stack := st, fr_evm := e\<rparr>)))"

definition push_address :: "'st vm_cfg \<Rightarrow> Address \<Rightarrow> 'st frame \<Rightarrow> 'st exec_result" where
  "push_address c a = push_value (u_SetBytes (ulib c) (address_bytes a))"

text \<open>\<open>uint256.FromBig(nil)\<close> is nil, and pushing it dereferences the nil pointer.\<close>

definition push_big :: "'st vm_cfg \<Rightarrow> int option \<Rightarrow> 'st frame \<Rightarrow> 'st exec_result" where
  "push_big c v fr =
     (case v of None \<Rightarrow> Panic NilPanic | Some x \<Rightarrow> push_value (u_FromBig (ulib c) x) fr)"

definition opAddress :: "'st vm_cfg \<Rightarrow> 'st executionFunc" where
  "opAddress c run fr = push_address c (ct_Address (fr_contract fr)) fr"

definition opBalance :: "'st vm_cfg \<Rightarrow> 'st executionFunc" where
  "opBalance c run fr =
     pop1 (fr_stack fr) (\<lambda>slot st.
       let (b, e) = ask (i_GetBalance (sops c) (u256_address (ulib c) slot)) (fr_evm fr)
       in push_value (u_FromBig (ulib c) b) (fr\<lparr>fr_stack := st, fr_evm := e\<rparr>))"

definition opOrigin :: "'st vm_cfg \<Rightarrow> 'st executionFunc" where
  "opOrigin c run fr = push_address c (Origin c) fr"

definition opCaller :: "'st vm_cfg \<Rightarrow> 'st executionFunc" where
  "opCaller c run fr = push_address c (Caller (fr_contract fr)) fr"

definition opCallValue :: "'st vm_cfg \<Rightarrow> 'st executionFunc" where
  "opCallValue c run fr = push_big c (ct_value (fr_contract fr)) fr"

definition opCallDataLoad :: "'st vm_cfg \<Rightarrow> 'st executionFunc" where
  "opCallDataLoad c run fr =
     pop1 (fr_stack fr) (\<lambda>x st.
       case u_Uint64WithOverflow (ulib c) x of
         (o64, overflow) \<Rightarrow>
           if \<not> overflow then
             bind_outcome (getData (Input (fr_contract fr)) o64 32) (\<lambda>data.
               push_value (u_SetBytes (ulib c) data) (fr\<lparr>fr_stack := st\<rparr>))
           else push_value 0 (fr\<lparr>fr_stack := st\<rparr>))"

definition push_len64 :: "'st vm_cfg \<Rightarrow> nat \<Rightarrow> 'st frame \<Rightarrow> 'st exec_result" where
  "push_len64 c n = push_value (u_SetUint64 (ulib c) (of_nat n))"

definition opCallDataSize :: "'st vm_cfg \<Rightarrow> 'st executionFunc" where
  "opCallDataSize c run fr = push_len64 c (length (Input (fr_contract fr))) fr"

text \<open>An offset that does not fit 64 bits reads as the largest 64-bit number.\<close>

definition offset64 :: "uint256_lib \<Rightarrow> u256 \<Rightarrow> u64" where
  "offset64 U x = (case u_Uint64WithOverflow U x of (o64, overflow) \<Rightarrow> if overflow then - 1 else o64)"

definition write_mem :: "u64 \<Rightarrow> u64 \<Rightarrow> bytes \<Rightarrow> 'st frame \<Rightarrow> 'st exec_result" where
  "write_mem off sz data fr =
     bind_outcome (mem_Set off sz data (fr_mem fr)) (\<lambda>m. proceed (fr\<lparr>fr_mem := m\<rparr>))"

definition opCallDataCopy :: "'st vm_cfg \<Rightarrow> 'st executionFunc" where
  "opCallDataCopy c run fr =
     pop3 (fr_stack fr) (\<lambda>memOffset dataOffset len st.
       bind_outcome (getData (Input (fr_contract fr)) (offset64 (ulib c) dataOffset) (u_Uint64 (ulib c) len)) (\<lambda>data.
         write_mem (u_Uint64 (ulib c) memOffset) (u_Uint64 (ulib c) len) data (fr\<lparr>fr_stack := st\<rparr>)))"

definition opReturnDataSize :: "'st vm_cfg \<Rightarrow> 'st executionFunc" where
  "opReturnDataSize c run fr = push_len64 c (length (returnData (fr_evm fr))) fr"

definition opReturnDataCopy :: "'st vm_cfg \<Rightarrow> 'st executionFunc" where
  "opReturnDataCopy c run fr =
     pop3 (fr_stack fr) (\<lambda>memOffset dataOffset len st.
       let fr = fr\<lparr>fr_stack := st\<rparr>;
           data = returnData (fr_evm fr);
           (o64, overflow) = u_Uint64WithOverflow (ulib c) dataOffset
       in if overflow then fail ErrReturnDataOutOfBounds fr
          else
            let (end64, overflow) = u_Uint64WithOverflow (ulib c) (u_Add (ulib c) dataOffset len)
            in if overflow \<or> of_nat (length data) < end64 then fail ErrReturnDataOutOfBounds fr
               else if end64 < o64 then Panic SlicePanic
               else write_mem (u_Uint64 (ulib c) memOffset) (u_Uint64 (ulib c) len)
                      (take (unat end64 - unat o64) (drop (unat o64) data)) fr)"

definition opExtCodeSize :: "'st vm_cfg \<Rightarrow> 'st executionFunc" where
  "opExtCodeSize c run fr =
     pop1 (fr_stack fr) (\<lambda>slot st.
       let (n, e) = ask (i_GetCodeSize (sops c) (u256_address (ulib c) slot)) (fr_evm fr)
       in push_value (u_SetUint64 (ulib c) (of_int n)) (fr\<lparr>fr_stack := st, fr_evm := e\<rparr>))"

definition opCodeSize :: "'st vm_cfg \<Rightarrow> 'st executionFunc" where
  "opCodeSize c run fr = push_len64 c (length (Code (fr_contract fr))) fr"

definition opCodeCopy :: "'st vm_cfg \<Rightarrow> 'st executionFunc" where
  "opCodeCopy c run fr =
     pop3 (fr_stack fr) (\<lambda>memOffset codeOffset len st.
       bind_outcome (getData (Code (fr_contract fr)) (offset64 (ulib c) codeOffset) (u_Uint64 (ulib c) len)) (\<lambda>codeCopy.
         write_mem (u_Uint64 (ulib c) memOffset) (u_Uint64 (ulib c) len) codeCopy (fr\<lparr>fr_stack := st\<rparr>)))"

definition opExtCodeCopy :: "'st vm_cfg \<Rightarrow> 'st executionFunc" where
  "opExtCodeCopy c run fr =
     pop4 (fr_stack fr) (\<lambda>a memOffset codeOffset len st.
       let (code, e) = ask (i_GetCode (sops c) (u256_address (ulib c) a)) (fr_evm fr)
       in bind_outcome (getData code (offset64 (ulib c) codeOffset) (u_Uint64 (ulib c) len)) (\<lambda>codeCopy.
            write_mem (u_Uint64 (ulib c) memOffset) (u_Uint64 (ulib c) len) codeCopy
              (fr\<lparr>fr_stack := st, fr_evm := e\<rparr>)))"

definition opExtCodeHash :: "'st vm_cfg \<Rightarrow> 'st executionFunc" where
  "opExtCodeHash c run fr =
     pop1 (fr_stack fr) (\<lambda>slot st.
       let address = u256_address (ulib c) slot;
           (empty, e) = ask (i_Empty (sops c) address) (fr_evm fr)
       in if empty then push_value 0 (fr\<lparr>fr_stack := st, fr_evm := e\<rparr>)
          else let (h, e) = ask (i_GetCodeHash (sops c) address) e
               in push_value (u_SetBytes (ulib c) (hash_bytes h)) (fr\<lparr>fr_stack := st, fr_evm := e\<rparr>))"

definition opGasprice :: "'st vm_cfg \<Rightarrow> 'st executionFunc" where
  "opGasprice c run fr = push_big c (Some (GasPrice c)) fr"

definition opBlockhash :: "'st vm_cfg \<Rightarrow> 'st executionFunc" where
  "opBlockhash c = unop (\<lambda>num.
     case u_Uint64WithOverflow (ulib c) num of
       (num64, overflow) \<Rightarrow>
         if overflow then 0
         else let upper = of_int (BlockNumber c) :: u64;
                  lower = (if upper < 257 then 0 else upper - 256)
              in if lower \<le> num64 \<and> num64 < upper then u_SetBytes (ulib c) (hash_bytes (GetHash c num64)) else 0)"

definition opCoinbase :: "'st vm_cfg \<Rightarrow> 'st executionFunc" where
  "opCoinbase c run fr = push_address c (Coinbase c) fr"

definition opTimestamp :: "'st vm_cfg \<Rightarrow> 'st executionFunc" where
  "opTimestamp c run fr = push_value (u_SetUint64 (ulib c) (BlockTime c)) fr"

definition opNumber :: "'st vm_cfg \<Rightarrow> 'st executionFunc" where
  "opNumber c run fr = push_big c (Some (BlockNumber c)) fr"

definition opDifficulty :: "'st vm_cfg \<Rightarrow> 'st executionFunc" where
  "opDifficulty c run fr = push_big c (Some (Difficulty c)) fr"

definition opRandom :: "'st vm_cfg \<Rightarrow> 'st executionFunc" where
  "opRandom c run fr =
     (case Random c of None \<Rightarrow> Panic NilPanic | Some h \<Rightarrow> push_value (u_SetBytes (ulib c) (hash_bytes h)) fr)"

definition opGasLimit :: "'st vm_cfg \<Rightarrow> 'st executionFunc" where
  "opGasLimit c run fr = push_value (u_SetUint64 (ulib c) (BlockGasLimit c)) fr"

definition opSelfBalance :: "'st vm_cfg \<Rightarrow> 'st executionFunc" where
  "opSelfBalance c run fr =
     (let (b, e) = ask (i_GetBalance (sops c) (ct_Address (fr_contract fr))) (fr_evm fr)
      in push_big c (Some b) (fr\<lparr>fr_evm := e\<rparr>))"

definition opChainID :: "'st vm_cfg \<Rightarrow> 'st executionFunc" where
  "opChainID c run fr = push_big c (vm_ChainID c) fr"

definition opBaseFee :: "'st vm_cfg \<Rightarrow> 'st executionFunc" where
  "opBaseFee c run fr = push_big c (BaseFee c) fr"

section \<open>Stack, memory, storage and flow\<close>

definition opPop :: "'st executionFunc" where
  "opPop run fr = pop1 (fr_stack fr) (\<lambda>x st. proceed (fr\<lparr>fr_stack := st\<rparr>))"

definition opMload :: "'st vm_cfg \<Rightarrow> 'st executionFunc" where
  "opMload c run fr =
     pop1 (fr_stack fr) (\<lambda>v st.
       bind_outcome (mem_GetPtr (sint (u_Uint64 (ulib c) v)) 32 (fr_mem fr)) (\<lambda>data.
         push_value (u_SetBytes (ulib c) data) (fr\<lparr>fr_stack := st\<rparr>)))"

definition opMstore :: "'st vm_cfg \<Rightarrow> 'st executionFunc" where
  "opMstore c run fr =
     pop2 (fr_stack fr) (\<lambda>mStart v st.
       bind_outcome (mem_Set32 (ulib c) (u_Uint64 (ulib c) mStart) v (fr_mem fr)) (\<lambda>m.
         proceed (fr\<lparr>fr_stack := st, fr_mem := m\<rparr>)))"

definition opMstore8 :: "'st vm_cfg \<Rightarrow> 'st executionFunc" where
  "opMstore8 c run fr =
     pop2 (fr_stack fr) (\<lambda>off v st.
       let i = unat (u_Uint64 (ulib c) off); m = fr_mem fr
       in if i < length (store m) then
            proceed (fr\<lparr>fr_stack := st, fr_mem := m\<lparr>store := (store m)[i := ucast (u_Uint64 (ulib c) v)]\<rparr>\<rparr>)
          else Panic MemoryPanic)"

definition opSload :: "'st vm_cfg \<Rightarrow> 'st executionFunc" where
  "opSload c run fr =
     pop1 (fr_stack fr) (\<lambda>loc st.
       let (v, e) = ask (i_GetState (sops c) (ct_Address (fr_contract fr)) (u256_hash (ulib c) loc)) (fr_evm fr)
       in push_value (u_SetBytes (ulib c) (hash_bytes v)) (fr\<lparr>fr_stack := st, fr_evm := e\<rparr>))"

definition opSstore :: "'st vm_cfg \<Rightarrow> 'st executionFunc" where
  "opSstore c run fr =
     (if readOnly (fr_evm fr) then fail ErrWriteProtection fr
      else pop2 (fr_stack fr) (\<lambda>loc v st.
        proceed (fr\<lparr>fr_stack := st,
          fr_evm := upd (i_SetState (sops c) (ct_Address (fr_contract fr)) (u256_hash (ulib c) loc)
                          (u256_hash (ulib c) v)) (fr_evm fr)\<rparr>)))"

definition opTload :: "'st vm_cfg \<Rightarrow> 'st executionFunc" where
  "opTload c run fr =
     pop1 (fr_stack fr) (\<lambda>loc st.
       let v = i_GetTransientState (sops c) (ct_Address (fr_contract fr)) (u256_hash (ulib c) loc)
                 (evm_StateDB (fr_evm fr))
       in push_value (u_SetBytes (ulib c) (hash_bytes v)) (fr\<lparr>fr_stack := st\<rparr>))"

definition opTstore :: "'st vm_cfg \<Rightarrow> 'st executionFunc" where
  "opTstore c run fr =
     (if readOnly (fr_evm fr) then fail ErrWriteProtection fr
      else pop2 (fr_stack fr) (\<lambda>loc v st.
        proceed (fr\<lparr>fr_stack := st,
          fr_evm := upd (i_SetTransientState (sops c) (ct_Address (fr_contract fr)) (u256_hash (ulib c) loc)
                          (u256_hash (ulib c) v)) (fr_evm fr)\<rparr>)))"

text \<open>One read of the flag \<^verbatim>\<open>abort\<close>.\<close>

definition abort_Load :: "'st EVM \<Rightarrow> bool \<times> 'st EVM" where
  "abort_Load e = (case aborts e of [] \<Rightarrow> (False, e) | b # bs \<Rightarrow> (b, e\<lparr>aborts := bs\<rparr>))"

definition jump_to :: "'st vm_cfg \<Rightarrow> u256 \<Rightarrow> 'st frame \<Rightarrow> 'st exec_result" where
  "jump_to c pos fr =
     bind_outcome (validJumpdest (ulib c) pos (fr_contract fr) (evm_jumpdests (fr_evm fr))) (\<lambda>(ok, ct, jd).
       let fr = fr\<lparr>fr_contract := ct, fr_evm := (fr_evm fr)\<lparr>evm_jumpdests := jd\<rparr>\<rparr>
       in if \<not> ok then fail ErrInvalidJump fr
          else proceed (fr\<lparr>fr_pc := u_Uint64 (ulib c) pos - 1\<rparr>))"

definition opJump :: "'st vm_cfg \<Rightarrow> 'st executionFunc" where
  "opJump c run fr =
     (let (aborted, e) = abort_Load (fr_evm fr); fr = fr\<lparr>fr_evm := e\<rparr>
      in if aborted then fail errStopToken fr
         else pop1 (fr_stack fr) (\<lambda>pos st. jump_to c pos (fr\<lparr>fr_stack := st\<rparr>)))"

definition opJumpi :: "'st vm_cfg \<Rightarrow> 'st executionFunc" where
  "opJumpi c run fr =
     (let (aborted, e) = abort_Load (fr_evm fr); fr = fr\<lparr>fr_evm := e\<rparr>
      in if aborted then fail errStopToken fr
         else pop2 (fr_stack fr) (\<lambda>pos cond st.
           if \<not> u_IsZero (ulib c) cond then jump_to c pos (fr\<lparr>fr_stack := st\<rparr>)
           else proceed (fr\<lparr>fr_stack := st\<rparr>)))"

definition opJumpdest :: "'st executionFunc" where
  "opJumpdest run fr = proceed fr"

definition opPc :: "'st vm_cfg \<Rightarrow> 'st executionFunc" where
  "opPc c run fr = push_value (u_SetUint64 (ulib c) (fr_pc fr)) fr"

definition opMsize :: "'st vm_cfg \<Rightarrow> 'st executionFunc" where
  "opMsize c run fr = push_len64 c (mem_Len (fr_mem fr)) fr"

definition opGas :: "'st vm_cfg \<Rightarrow> 'st executionFunc" where
  "opGas c run fr = push_value (u_SetUint64 (ulib c) (Gas (fr_contract fr))) fr"

section \<open>Creation and calls\<close>

definition big_of :: "'st vm_cfg \<Rightarrow> u256 \<Rightarrow> int" where
  "big_of c v = (if \<not> u_IsZero (ulib c) v then u_ToBig (ulib c) v else 0)"

definition add_gas :: "u64 \<Rightarrow> Contract \<Rightarrow> Contract" where
  "add_gas g ct = ct\<lparr>Gas := Gas ct + g\<rparr>"

text \<open>The end of both creations: the stack item, the returned gas and the return data buffer.\<close>

definition end_create :: "u256 \<Rightarrow> u64 \<Rightarrow> bytes \<Rightarrow> vm_error option \<Rightarrow> 'st frame \<Rightarrow> 'st exec_result" where
  "end_create stackvalue returnGas res suberr fr =
     (let fr = fr\<lparr>fr_stack := stack_push stackvalue (fr_stack fr), fr_contract := add_gas returnGas (fr_contract fr)\<rparr>
      in if suberr = Some ErrExecutionReverted
         then Ret ((res, None), fr\<lparr>fr_evm := (fr_evm fr)\<lparr>returnData := res\<rparr>\<rparr>)
         else Ret (([], None), fr\<lparr>fr_evm := (fr_evm fr)\<lparr>returnData := []\<rparr>\<rparr>))"

definition opCreate :: "'st vm_cfg \<Rightarrow> 'st executionFunc" where
  "opCreate c run fr =
     (if readOnly (fr_evm fr) then fail ErrWriteProtection fr
      else pop3 (fr_stack fr) (\<lambda>v offset sz st.
        bind_outcome (mem_GetCopy (sint (u_Uint64 (ulib c) offset)) (sint (u_Uint64 (ulib c) sz)) (fr_mem fr)) (\<lambda>input.
          let gas = Gas (fr_contract fr);
              gas = (if r_IsEIP150 (chainRules c) then gas - gas div 64 else gas);
              ct = snd (UseGas gas (fr_contract fr))
          in bind_outcome (evm_Create c run (contract_ref ct) input gas (big_of c v) (fr_evm fr))
               (\<lambda>((res, addr, returnGas, suberr), e).
                 let stackvalue =
                       (if r_IsHomestead (chainRules c) \<and> suberr = Some ErrCodeStoreOutOfGas then 0
                        else if suberr \<noteq> None \<and> suberr \<noteq> Some ErrCodeStoreOutOfGas then 0
                        else u_SetBytes (ulib c) (address_bytes addr))
                 in end_create stackvalue returnGas res suberr
                      (fr\<lparr>fr_stack := st, fr_contract := ct, fr_evm := e\<rparr>)))))"

definition opCreate2 :: "'st vm_cfg \<Rightarrow> 'st executionFunc" where
  "opCreate2 c run fr =
     (if readOnly (fr_evm fr) then fail ErrWriteProtection fr
      else pop4 (fr_stack fr) (\<lambda>endowment offset sz salt st.
        bind_outcome (mem_GetCopy (sint (u_Uint64 (ulib c) offset)) (sint (u_Uint64 (ulib c) sz)) (fr_mem fr)) (\<lambda>input.
          let gas = Gas (fr_contract fr);
              gas = gas - gas div 64;
              ct = snd (UseGas gas (fr_contract fr))
          in bind_outcome (evm_Create2 c run (contract_ref ct) input gas (big_of c endowment) salt (fr_evm fr))
               (\<lambda>((res, addr, returnGas, suberr), e).
                 let stackvalue = (if suberr \<noteq> None then 0 else u_SetBytes (ulib c) (address_bytes addr))
                 in end_create stackvalue returnGas res suberr
                      (fr\<lparr>fr_stack := st, fr_contract := ct, fr_evm := e\<rparr>)))))"

text \<open>The end of the four calls: success flag, return data to memory, returned gas, buffer.\<close>

definition end_call :: "u64 \<Rightarrow> u64 \<Rightarrow> bytes \<times> u64 \<times> vm_error option \<Rightarrow> 'st frame \<Rightarrow> 'st exec_result" where
  "end_call retOffset retSize r fr =
     (case r of (ret, returnGas, err) \<Rightarrow>
        let fr = fr\<lparr>fr_stack := stack_push (of_flag (err = None)) (fr_stack fr)\<rparr>
        in bind_outcome
             (if err = None \<or> err = Some ErrExecutionReverted then mem_Set retOffset retSize ret (fr_mem fr)
              else Ret (fr_mem fr))
             (\<lambda>m. Ret ((ret, None),
                fr\<lparr>fr_mem := m, fr_contract := add_gas returnGas (fr_contract fr),
                   fr_evm := (fr_evm fr)\<lparr>returnData := ret\<rparr>\<rparr>)))"

definition opCall :: "'st vm_cfg \<Rightarrow> 'st executionFunc" where
  "opCall c run fr =
     pop1 (fr_stack fr) (\<lambda>temp st. pop3 st (\<lambda>addr v inOffset st. pop3 st (\<lambda>inSize retOffset retSize st.
       let gas = callGasTemp (fr_evm fr); toAddr = u256_address (ulib c) addr
       in bind_outcome (mem_GetPtr (sint (u_Uint64 (ulib c) inOffset)) (sint (u_Uint64 (ulib c) inSize)) (fr_mem fr)) (\<lambda>args.
            if readOnly (fr_evm fr) \<and> \<not> u_IsZero (ulib c) v then fail ErrWriteProtection (fr\<lparr>fr_stack := st\<rparr>)
            else
              let gas = (if \<not> u_IsZero (ulib c) v then gas + CallStipend else gas)
              in bind_outcome (evm_Call c run (contract_ref (fr_contract fr)) toAddr args gas (big_of c v) (fr_evm fr))
                   (\<lambda>(r, e). end_call (u_Uint64 (ulib c) retOffset) (u_Uint64 (ulib c) retSize) r
                      (fr\<lparr>fr_stack := st, fr_evm := e\<rparr>))))))"

definition opCallCode :: "'st vm_cfg \<Rightarrow> 'st executionFunc" where
  "opCallCode c run fr =
     pop1 (fr_stack fr) (\<lambda>temp st. pop3 st (\<lambda>addr v inOffset st. pop3 st (\<lambda>inSize retOffset retSize st.
       let gas = callGasTemp (fr_evm fr); toAddr = u256_address (ulib c) addr
       in bind_outcome (mem_GetPtr (sint (u_Uint64 (ulib c) inOffset)) (sint (u_Uint64 (ulib c) inSize)) (fr_mem fr)) (\<lambda>args.
            let gas = (if \<not> u_IsZero (ulib c) v then gas + CallStipend else gas)
            in bind_outcome (evm_CallCode c run (contract_ref (fr_contract fr)) toAddr args gas (big_of c v) (fr_evm fr))
                 (\<lambda>(r, e). end_call (u_Uint64 (ulib c) retOffset) (u_Uint64 (ulib c) retSize) r
                    (fr\<lparr>fr_stack := st, fr_evm := e\<rparr>))))))"

definition opDelegateCall :: "'st vm_cfg \<Rightarrow> 'st executionFunc" where
  "opDelegateCall c run fr =
     pop3 (fr_stack fr) (\<lambda>temp addr inOffset st. pop3 st (\<lambda>inSize retOffset retSize st.
       let gas = callGasTemp (fr_evm fr); toAddr = u256_address (ulib c) addr
       in bind_outcome (mem_GetPtr (sint (u_Uint64 (ulib c) inOffset)) (sint (u_Uint64 (ulib c) inSize)) (fr_mem fr)) (\<lambda>args.
            bind_outcome (evm_DelegateCall c run (contract_ref (fr_contract fr)) toAddr args gas (fr_evm fr))
              (\<lambda>(r, e). end_call (u_Uint64 (ulib c) retOffset) (u_Uint64 (ulib c) retSize) r
                 (fr\<lparr>fr_stack := st, fr_evm := e\<rparr>)))))"

definition opStaticCall :: "'st vm_cfg \<Rightarrow> 'st executionFunc" where
  "opStaticCall c run fr =
     pop3 (fr_stack fr) (\<lambda>temp addr inOffset st. pop3 st (\<lambda>inSize retOffset retSize st.
       let gas = callGasTemp (fr_evm fr); toAddr = u256_address (ulib c) addr
       in bind_outcome (mem_GetPtr (sint (u_Uint64 (ulib c) inOffset)) (sint (u_Uint64 (ulib c) inSize)) (fr_mem fr)) (\<lambda>args.
            bind_outcome (evm_StaticCall c run (contract_ref (fr_contract fr)) toAddr args gas (fr_evm fr))
              (\<lambda>(r, e). end_call (u_Uint64 (ulib c) retOffset) (u_Uint64 (ulib c) retSize) r
                 (fr\<lparr>fr_stack := st, fr_evm := e\<rparr>)))))"

section \<open>Halting\<close>

definition opReturn :: "'st vm_cfg \<Rightarrow> 'st executionFunc" where
  "opReturn c run fr =
     pop2 (fr_stack fr) (\<lambda>offset sz st.
       bind_outcome (mem_GetPtr (sint (u_Uint64 (ulib c) offset)) (sint (u_Uint64 (ulib c) sz)) (fr_mem fr)) (\<lambda>ret.
         Ret ((ret, Some errStopToken), fr\<lparr>fr_stack := st\<rparr>)))"

definition opRevert :: "'st vm_cfg \<Rightarrow> 'st executionFunc" where
  "opRevert c run fr =
     pop2 (fr_stack fr) (\<lambda>offset sz st.
       bind_outcome (mem_GetPtr (sint (u_Uint64 (ulib c) offset)) (sint (u_Uint64 (ulib c) sz)) (fr_mem fr)) (\<lambda>ret.
         Ret ((ret, Some ErrExecutionReverted),
           fr\<lparr>fr_stack := st, fr_evm := (fr_evm fr)\<lparr>returnData := ret\<rparr>\<rparr>)))"

definition opUndefined :: "'st executionFunc" where
  "opUndefined run fr =
     (if unat (fr_pc fr) < length (Code (fr_contract fr))
      then fail (ErrInvalidOpCode (Code (fr_contract fr) ! unat (fr_pc fr))) fr else Panic SlicePanic)"

definition opStop :: "'st executionFunc" where
  "opStop run fr = fail errStopToken fr"

definition opSelfdestruct :: "'st vm_cfg \<Rightarrow> 'st executionFunc" where
  "opSelfdestruct c run fr =
     (if readOnly (fr_evm fr) then fail ErrWriteProtection fr
      else pop1 (fr_stack fr) (\<lambda>beneficiary st.
        let self = ct_Address (fr_contract fr);
            (balance, e) = ask (i_GetBalance (sops c) self) (fr_evm fr);
            e = upd (i_AddBalance (sops c) (u256_address (ulib c) beneficiary) balance) e;
            e = snd (ask (i_Suicide (sops c) self) e)
        in fail errStopToken (fr\<lparr>fr_stack := st, fr_evm := e\<rparr>)))"

section \<open>Families of instructions\<close>

fun pop_topics :: "uint256_lib \<Rightarrow> nat \<Rightarrow> Stack \<Rightarrow> (Hash list \<Rightarrow> Stack \<Rightarrow> 'a outcome) \<Rightarrow> 'a outcome" where
  "pop_topics U 0 st k = k [] st"
| "pop_topics U (Suc n) st k = pop1 st (\<lambda>x st. pop_topics U n st (\<lambda>ts. k (u256_hash U x # ts)))"

definition makeLog :: "'st vm_cfg \<Rightarrow> nat \<Rightarrow> 'st executionFunc" where
  "makeLog c n run fr =
     (if readOnly (fr_evm fr) then fail ErrWriteProtection fr
      else pop2 (fr_stack fr) (\<lambda>mStart mSize st. pop_topics (ulib c) n st (\<lambda>topics st.
        bind_outcome (mem_GetCopy (sint (u_Uint64 (ulib c) mStart)) (sint (u_Uint64 (ulib c) mSize)) (fr_mem fr)) (\<lambda>d.
          let l = \<lparr>log_Address = ct_Address (fr_contract fr), log_Topics = topics, log_Data = d,
                   log_BlockNumber = of_int (BlockNumber c), log_TxHash = 0, log_TxIndex = 0,
                   log_BlockHash = 0, log_Index = 0, log_Removed = False\<rparr>
          in proceed (fr\<lparr>fr_stack := st, fr_evm := upd (i_AddLog (sops c) l) (fr_evm fr)\<rparr>)))))"

definition opPush0 :: "'st executionFunc" where
  "opPush0 run fr = push_value 0 fr"

definition opPush1 :: "'st vm_cfg \<Rightarrow> 'st executionFunc" where
  "opPush1 c run fr =
     (let code = Code (fr_contract fr); pc = fr_pc fr + 1; fr = fr\<lparr>fr_pc := pc\<rparr>
      in if pc < of_nat (length code) then push_value (u_SetUint64 (ulib c) (ucast (code ! unat pc))) fr
         else push_value 0 fr)"

definition makePush :: "'st vm_cfg \<Rightarrow> u64 \<Rightarrow> nat \<Rightarrow> 'st executionFunc" where
  "makePush c sz pushByteSize run fr =
     (let code = Code (fr_contract fr);
          codeLen = int (length code);
          startMin = (if sint (fr_pc fr + 1) < codeLen then sint (fr_pc fr + 1) else codeLen);
          endMin = (if startMin + int pushByteSize < codeLen then startMin + int pushByteSize else codeLen)
      in if startMin < 0 then Panic SlicePanic
         else push_value
                (u_SetBytes (ulib c) (RightPadBytes (take (nat (endMin - startMin)) (drop (nat startMin) code)) pushByteSize))
                (fr\<lparr>fr_pc := fr_pc fr + sz\<rparr>))"

definition makeDup :: "nat \<Rightarrow> 'st executionFunc" where
  "makeDup n run fr = bind_outcome (stack_dup n (fr_stack fr)) (\<lambda>st. proceed (fr\<lparr>fr_stack := st\<rparr>))"

definition makeSwap :: "nat \<Rightarrow> 'st executionFunc" where
  "makeSwap n run fr = bind_outcome (stack_swap (n + 1) (fr_stack fr)) (\<lambda>st. proceed (fr\<lparr>fr_stack := st\<rparr>))"

end
