(* ===== verification/VM_Interpreter.thy ===== *)
theory VM_Interpreter
  imports VM_Instructions
begin

text \<open>
  The jump tables of all forks (\<^verbatim>\<open>core/vm/{jump_table,jump_table_export,stack_table,eips}.go\<close>) and
  the interpreter (\<^verbatim>\<open>core/vm/interpreter.go\<close>). Tables map every opcode byte to its operation. The
  interpreter loop runs on fuel, which also bounds the nesting of calls: a callee gets the fuel
  its caller has left.
\<close>

section \<open>Operations\<close>

definition maxStack :: "nat \<Rightarrow> nat \<Rightarrow> nat" where
  "maxStack pops push = unat StackLimit + pops - push"

definition minStack :: "nat \<Rightarrow> nat \<Rightarrow> nat" where
  "minStack pops push = pops"

definition minSwapStack :: "nat \<Rightarrow> nat" where "minSwapStack n = minStack n n"
definition maxSwapStack :: "nat \<Rightarrow> nat" where "maxSwapStack n = maxStack n n"
definition minDupStack :: "nat \<Rightarrow> nat" where "minDupStack n = minStack n (n + 1)"
definition maxDupStack :: "nat \<Rightarrow> nat" where "maxDupStack n = maxStack n (n + 1)"

record 'st operation =
  execute :: "'st executionFunc"
  constantGas :: u64
  dynamicGas :: "'st gasFunc option"
  op_minStack :: nat
  op_maxStack :: nat
  memorySize :: "memorySizeFunc option"

type_synonym 'st JumpTable = "byte \<Rightarrow> 'st operation"

text \<open>The two shapes of table entries: with a constant price only, and with a dynamic price.\<close>

definition static :: "'st executionFunc \<Rightarrow> u64 \<Rightarrow> nat \<Rightarrow> nat \<Rightarrow> 'st operation" where
  "static f gas pops push =
     \<lparr>execute = f, constantGas = gas, dynamicGas = None, op_minStack = minStack pops push,
      op_maxStack = maxStack pops push, memorySize = None\<rparr>"

definition dynamic ::
  "'st executionFunc \<Rightarrow> u64 \<Rightarrow> nat \<Rightarrow> nat \<Rightarrow> 'st gasFunc \<Rightarrow> memorySizeFunc option \<Rightarrow> 'st operation" where
  "dynamic f gas pops push g ms =
     \<lparr>execute = f, constantGas = gas, dynamicGas = Some g, op_minStack = minStack pops push,
      op_maxStack = maxStack pops push, memorySize = ms\<rparr>"

text \<open>The check of a new table; \<open>None\<close> is the panic for memory without a dynamic price.\<close>

definition validate :: "'st JumpTable \<Rightarrow> 'st JumpTable option" where
  "validate jt =
     (if list_all (\<lambda>i. \<not> (memorySize (jt (of_nat i)) \<noteq> None \<and> dynamicGas (jt (of_nat i)) = None)) [0..<256]
      then Some jt else None)"

section \<open>The Frontier instruction set\<close>

definition frontier_arith :: "'st vm_cfg \<Rightarrow> (byte \<times> 'st operation) list" where
  "frontier_arith c =
    [(0x00, static opStop 0 0 0), \<comment> \<open>STOP\<close>
     (0x01, static (opAdd c) GasFastestStep 2 1), \<comment> \<open>ADD\<close>
     (0x02, static (opMul c) GasFastStep 2 1), \<comment> \<open>MUL\<close>
     (0x03, static (opSub c) GasFastestStep 2 1), \<comment> \<open>SUB\<close>
     (0x04, static (opDiv c) GasFastStep 2 1), \<comment> \<open>DIV\<close>
     (0x05, static (opSdiv c) GasFastStep 2 1), \<comment> \<open>SDIV\<close>
     (0x06, static (opMod c) GasFastStep 2 1), \<comment> \<open>MOD\<close>
     (0x07, static (opSmod c) GasFastStep 2 1), \<comment> \<open>SMOD\<close>
     (0x08, static (opAddmod c) GasMidStep 3 1), \<comment> \<open>ADDMOD\<close>
     (0x09, static (opMulmod c) GasMidStep 3 1), \<comment> \<open>MULMOD\<close>
     (0x0a, dynamic (opExp c) 0 2 1 (gasExpFrontier (ulib c)) None), \<comment> \<open>EXP\<close>
     (0x0b, static (opSignExtend c) GasFastStep 2 1), \<comment> \<open>SIGNEXTEND\<close>
     (0x10, static (opLt c) GasFastestStep 2 1), \<comment> \<open>LT\<close>
     (0x11, static (opGt c) GasFastestStep 2 1), \<comment> \<open>GT\<close>
     (0x12, static (opSlt c) GasFastestStep 2 1), \<comment> \<open>SLT\<close>
     (0x13, static (opSgt c) GasFastestStep 2 1), \<comment> \<open>SGT\<close>
     (0x14, static (opEq c) GasFastestStep 2 1), \<comment> \<open>EQ\<close>
     (0x15, static (opIszero c) GasFastestStep 1 1), \<comment> \<open>ISZERO\<close>
     (0x16, static (opAnd c) GasFastestStep 2 1), \<comment> \<open>AND\<close>
     (0x18, static (opXor c) GasFastestStep 2 1), \<comment> \<open>XOR\<close>
     (0x17, static (opOr c) GasFastestStep 2 1), \<comment> \<open>OR\<close>
     (0x19, static (opNot c) GasFastestStep 1 1), \<comment> \<open>NOT\<close>
     (0x1a, static (opByte c) GasFastestStep 2 1)]" \<comment> \<open>BYTE\<close>

definition frontier_env :: "'st vm_cfg \<Rightarrow> (byte \<times> 'st operation) list" where
  "frontier_env c =
    [(0x20, dynamic (opKeccak256 c) Keccak256Gas 2 1 (gasKeccak256 (ulib c)) (Some (memoryKeccak256 (ulib c)))), \<comment> \<open>KECCAK256\<close>
     (0x30, static (opAddress c) GasQuickStep 0 1), \<comment> \<open>ADDRESS\<close>
     (0x31, static (opBalance c) BalanceGasFrontier 1 1), \<comment> \<open>BALANCE\<close>
     (0x32, static (opOrigin c) GasQuickStep 0 1), \<comment> \<open>ORIGIN\<close>
     (0x33, static (opCaller c) GasQuickStep 0 1), \<comment> \<open>CALLER\<close>
     (0x34, static (opCallValue c) GasQuickStep 0 1), \<comment> \<open>CALLVALUE\<close>
     (0x35, static (opCallDataLoad c) GasFastestStep 1 1), \<comment> \<open>CALLDATALOAD\<close>
     (0x36, static (opCallDataSize c) GasQuickStep 0 1), \<comment> \<open>CALLDATASIZE\<close>
     (0x37, dynamic (opCallDataCopy c) GasFastestStep 3 0 (gasCallDataCopy (ulib c)) (Some (memoryCallDataCopy (ulib c)))), \<comment> \<open>CALLDATACOPY\<close>
     (0x38, static (opCodeSize c) GasQuickStep 0 1), \<comment> \<open>CODESIZE\<close>
     (0x39, dynamic (opCodeCopy c) GasFastestStep 3 0 (gasCodeCopy (ulib c)) (Some (memoryCodeCopy (ulib c)))), \<comment> \<open>CODECOPY\<close>
     (0x3a, static (opGasprice c) GasQuickStep 0 1), \<comment> \<open>GASPRICE\<close>
     (0x3b, static (opExtCodeSize c) ExtcodeSizeGasFrontier 1 1), \<comment> \<open>EXTCODESIZE\<close>
     (0x3c, dynamic (opExtCodeCopy c) ExtcodeCopyBaseFrontier 4 0 (gasExtCodeCopy (ulib c)) (Some (memoryExtCodeCopy (ulib c)))), \<comment> \<open>EXTCODECOPY\<close>
     (0x40, static (opBlockhash c) GasExtStep 1 1), \<comment> \<open>BLOCKHASH\<close>
     (0x41, static (opCoinbase c) GasQuickStep 0 1), \<comment> \<open>COINBASE\<close>
     (0x42, static (opTimestamp c) GasQuickStep 0 1), \<comment> \<open>TIMESTAMP\<close>
     (0x43, static (opNumber c) GasQuickStep 0 1), \<comment> \<open>NUMBER\<close>
     (0x44, static (opDifficulty c) GasQuickStep 0 1), \<comment> \<open>DIFFICULTY\<close>
     (0x45, static (opGasLimit c) GasQuickStep 0 1)]" \<comment> \<open>GASLIMIT\<close>

definition frontier_flow :: "'st vm_cfg \<Rightarrow> (byte \<times> 'st operation) list" where
  "frontier_flow c =
    [(0x50, static opPop GasQuickStep 1 0), \<comment> \<open>POP\<close>
     (0x51, dynamic (opMload c) GasFastestStep 1 1 pureMemoryGascost (Some (memoryMLoad (ulib c)))), \<comment> \<open>MLOAD\<close>
     (0x52, dynamic (opMstore c) GasFastestStep 2 0 pureMemoryGascost (Some (memoryMStore (ulib c)))), \<comment> \<open>MSTORE\<close>
     (0x53, dynamic (opMstore8 c) GasFastestStep 2 0 pureMemoryGascost (Some (memoryMStore8 (ulib c)))), \<comment> \<open>MSTORE8\<close>
     (0x54, static (opSload c) SloadGasFrontier 1 1), \<comment> \<open>SLOAD\<close>
     (0x55, dynamic (opSstore c) 0 2 0 (gasSStore c) None), \<comment> \<open>SSTORE\<close>
     (0x56, static (opJump c) GasMidStep 1 0), \<comment> \<open>JUMP\<close>
     (0x57, static (opJumpi c) GasSlowStep 2 0), \<comment> \<open>JUMPI\<close>
     (0x58, static (opPc c) GasQuickStep 0 1), \<comment> \<open>PC\<close>
     (0x59, static (opMsize c) GasQuickStep 0 1), \<comment> \<open>MSIZE\<close>
     (0x5a, static (opGas c) GasQuickStep 0 1), \<comment> \<open>GAS\<close>
     (0x5b, static opJumpdest JumpdestGas 0 0)]" \<comment> \<open>JUMPDEST\<close>

definition frontier_system :: "'st vm_cfg \<Rightarrow> (byte \<times> 'st operation) list" where
  "frontier_system c =
    [(0xa0, dynamic (makeLog c 0) 0 2 0 (makeGasLog (ulib c) 0) (Some (memoryLog (ulib c)))), \<comment> \<open>LOG0\<close>
     (0xa1, dynamic (makeLog c 1) 0 3 0 (makeGasLog (ulib c) 1) (Some (memoryLog (ulib c)))), \<comment> \<open>LOG1\<close>
     (0xa2, dynamic (makeLog c 2) 0 4 0 (makeGasLog (ulib c) 2) (Some (memoryLog (ulib c)))), \<comment> \<open>LOG2\<close>
     (0xa3, dynamic (makeLog c 3) 0 5 0 (makeGasLog (ulib c) 3) (Some (memoryLog (ulib c)))), \<comment> \<open>LOG3\<close>
     (0xa4, dynamic (makeLog c 4) 0 6 0 (makeGasLog (ulib c) 4) (Some (memoryLog (ulib c)))), \<comment> \<open>LOG4\<close>
     (0xf0, dynamic (opCreate c) CreateGas 3 1 pureMemoryGascost (Some (memoryCreate (ulib c)))), \<comment> \<open>CREATE\<close>
     (0xf1, dynamic (opCall c) CallGasFrontier 7 1 (gasCall c) (Some (memoryCall (ulib c)))), \<comment> \<open>CALL\<close>
     (0xf2, dynamic (opCallCode c) CallGasFrontier 7 1 (gasCallCode c) (Some (memoryCall (ulib c)))), \<comment> \<open>CALLCODE\<close>
     (0xf3, dynamic (opReturn c) 0 2 0 pureMemoryGascost (Some (memoryReturn (ulib c)))), \<comment> \<open>RETURN\<close>
     (0xff, dynamic (opSelfdestruct c) 0 1 0 (gasSelfdestruct c) None)]" \<comment> \<open>SELFDESTRUCT\<close>

definition frontier_push :: "'st vm_cfg \<Rightarrow> (byte \<times> 'st operation) list" where
  "frontier_push c =
     (0x60, static (opPush1 c) GasFastestStep 0 1) #
     map (\<lambda>n. (of_nat (0x5f + n), static (makePush c (of_nat n) n) GasFastestStep 0 1)) [2..<33]"

definition frontier_dup :: "(byte \<times> 'st operation) list" where
  "frontier_dup =
     map (\<lambda>n. (of_nat (0x7f + n),
       \<lparr>execute = makeDup n, constantGas = GasFastestStep, dynamicGas = None,
        op_minStack = minDupStack n, op_maxStack = maxDupStack n, memorySize = None\<rparr>)) [1..<17]"

definition frontier_swap :: "(byte \<times> 'st operation) list" where
  "frontier_swap =
     map (\<lambda>n. (of_nat (0x8f + n),
       \<lparr>execute = makeSwap n, constantGas = GasFastestStep, dynamicGas = None,
        op_minStack = minSwapStack (n + 1), op_maxStack = maxSwapStack (n + 1), memorySize = None\<rparr>)) [1..<17]"

definition undefined_operation :: "'st operation" where
  "undefined_operation =
     \<lparr>execute = opUndefined, constantGas = 0, dynamicGas = None, op_minStack = 0,
      op_maxStack = maxStack 0 0, memorySize = None\<rparr>"

definition frontier_table :: "'st vm_cfg \<Rightarrow> (byte \<times> 'st operation) list" where
  "frontier_table c =
     frontier_arith c @ frontier_env c @ frontier_flow c @ frontier_push c @ frontier_dup @
     frontier_swap @ frontier_system c"

definition newFrontierInstructionSet :: "'st vm_cfg \<Rightarrow> 'st JumpTable" where
  "newFrontierInstructionSet c op =
     (case map_of (frontier_table c) op of Some entry \<Rightarrow> entry | None \<Rightarrow> undefined_operation)"

section \<open>Changes by EIP (eips.go)\<close>

definition set_gas :: "byte \<Rightarrow> u64 \<Rightarrow> 'st JumpTable \<Rightarrow> 'st JumpTable" where
  "set_gas op g jt = jt(op := (jt op)\<lparr>constantGas := g\<rparr>)"

definition set_dynamic :: "byte \<Rightarrow> 'st gasFunc \<Rightarrow> 'st JumpTable \<Rightarrow> 'st JumpTable" where
  "set_dynamic op g jt = jt(op := (jt op)\<lparr>dynamicGas := Some g\<rparr>)"

definition enable1884 :: "'st vm_cfg \<Rightarrow> 'st JumpTable \<Rightarrow> 'st JumpTable" where
  "enable1884 c jt =
     (set_gas 0x3f ExtcodeHashGasEIP1884 (set_gas 0x31 BalanceGasEIP1884 (set_gas 0x54 SloadGasEIP1884 jt)))
       (0x47 := static (opSelfBalance c) GasFastStep 0 1)"

definition enable1344 :: "'st vm_cfg \<Rightarrow> 'st JumpTable \<Rightarrow> 'st JumpTable" where
  "enable1344 c jt = jt(0x46 := static (opChainID c) GasQuickStep 0 1)"

definition enable2200 :: "'st vm_cfg \<Rightarrow> 'st JumpTable \<Rightarrow> 'st JumpTable" where
  "enable2200 c jt = set_dynamic 0x55 (gasSStoreEIP2200 c) (set_gas 0x54 SloadGasEIP2200 jt)"

text \<open>A warm price and a new dynamic price, as \<open>enable2929\<close> sets them in pairs.\<close>

definition reprice :: "byte \<Rightarrow> u64 \<Rightarrow> 'st gasFunc \<Rightarrow> 'st JumpTable \<Rightarrow> 'st JumpTable" where
  "reprice op g d jt = set_dynamic op d (set_gas op g jt)"

definition enable2929 :: "'st vm_cfg \<Rightarrow> 'st JumpTable \<Rightarrow> 'st JumpTable" where
  "enable2929 c jt =
     fold (\<lambda>(op, g, d). reprice op g d)
       [(0x54, 0, gasSLoadEIP2929 c),
        (0x3c, WarmStorageReadCostEIP2929, gasExtCodeCopyEIP2929 c),
        (0x3b, WarmStorageReadCostEIP2929, gasEip2929AccountCheck c),
        (0x3f, WarmStorageReadCostEIP2929, gasEip2929AccountCheck c),
        (0x31, WarmStorageReadCostEIP2929, gasEip2929AccountCheck c),
        (0xf1, WarmStorageReadCostEIP2929, gasCallEIP2929 c),
        (0xf2, WarmStorageReadCostEIP2929, gasCallCodeEIP2929 c),
        (0xfa, WarmStorageReadCostEIP2929, gasStaticCallEIP2929 c),
        (0xf4, WarmStorageReadCostEIP2929, gasDelegateCallEIP2929 c),
        (0xff, SelfdestructGasEIP150, gasSelfdestructEIP2929 c)]
       (set_dynamic 0x55 (gasSStoreEIP2929 c) jt)"

definition enable3529 :: "'st vm_cfg \<Rightarrow> 'st JumpTable \<Rightarrow> 'st JumpTable" where
  "enable3529 c jt = set_dynamic 0xff (gasSelfdestructEIP3529 c) (set_dynamic 0x55 (gasSStoreEIP3529 c) jt)"

definition enable3198 :: "'st vm_cfg \<Rightarrow> 'st JumpTable \<Rightarrow> 'st JumpTable" where
  "enable3198 c jt = jt(0x48 := static (opBaseFee c) GasQuickStep 0 1)"

definition enable1153 :: "'st vm_cfg \<Rightarrow> 'st JumpTable \<Rightarrow> 'st JumpTable" where
  "enable1153 c jt =
     jt(0xb3 := static (opTload c) WarmStorageReadCostEIP2929 1 1,
        0xb4 := static (opTstore c) WarmStorageReadCostEIP2929 2 0)"

definition enable3855 :: "'st JumpTable \<Rightarrow> 'st JumpTable" where
  "enable3855 jt = jt(0x5f := static opPush0 GasQuickStep 0 1)"

definition enable3860 :: "'st vm_cfg \<Rightarrow> 'st JumpTable \<Rightarrow> 'st JumpTable" where
  "enable3860 c jt =
     set_dynamic 0xf5 (gasCreate2Eip3860 (ulib c)) (set_dynamic 0xf0 (gasCreateEip3860 (ulib c)) jt)"

definition activators :: "'st vm_cfg \<Rightarrow> (int \<times> ('st JumpTable \<Rightarrow> 'st JumpTable)) list" where
  "activators c =
     [(3855, enable3855), (3860, enable3860 c), (3529, enable3529 c), (3198, enable3198 c),
      (2929, enable2929 c), (2200, enable2200 c), (1884, enable1884 c), (1344, enable1344 c),
      (1153, enable1153 c)]"

definition EnableEIP :: "'st vm_cfg \<Rightarrow> int \<Rightarrow> 'st JumpTable \<Rightarrow> 'st JumpTable option" where
  "EnableEIP c eipNum jt =
     (case map_of (activators c) eipNum of None \<Rightarrow> None | Some enablerFn \<Rightarrow> Some (enablerFn jt))"

definition ValidEip :: "'st vm_cfg \<Rightarrow> int \<Rightarrow> bool" where
  "ValidEip c eipNum = (map_of (activators c) eipNum \<noteq> None)"

section \<open>The later instruction sets\<close>

text \<open>
  Each is the previous one with its changes. The source passes every new table through
  \<open>validate\<close>, which returns its argument or panics; that it never panics on these tables is
  shown in \<open>VM_Tables\<close>.
\<close>

definition newHomesteadInstructionSet :: "'st vm_cfg \<Rightarrow> 'st JumpTable" where
  "newHomesteadInstructionSet c =
     (newFrontierInstructionSet c)
       (0xf4 := dynamic (opDelegateCall c) CallGasFrontier 6 1 (gasDelegateCall c) (Some (memoryDelegateCall (ulib c))))"

definition newTangerineWhistleInstructionSet :: "'st vm_cfg \<Rightarrow> 'st JumpTable" where
  "newTangerineWhistleInstructionSet c =
     fold (\<lambda>(op, g). set_gas op g)
       [(0x31, BalanceGasEIP150), (0x3b, ExtcodeSizeGasEIP150), (0x54, SloadGasEIP150),
        (0x3c, ExtcodeCopyBaseEIP150), (0xf1, CallGasEIP150), (0xf2, CallGasEIP150), (0xf4, CallGasEIP150)]
       (newHomesteadInstructionSet c)"

definition newSpuriousDragonInstructionSet :: "'st vm_cfg \<Rightarrow> 'st JumpTable" where
  "newSpuriousDragonInstructionSet c =
     set_dynamic 0x0a (gasExpEIP158 (ulib c)) (newTangerineWhistleInstructionSet c)"

definition newByzantiumInstructionSet :: "'st vm_cfg \<Rightarrow> 'st JumpTable" where
  "newByzantiumInstructionSet c =
     (newSpuriousDragonInstructionSet c)
       (0xfa := dynamic (opStaticCall c) CallGasEIP150 6 1 (gasStaticCall c) (Some (memoryStaticCall (ulib c))),
        0x3d := static (opReturnDataSize c) GasQuickStep 0 1,
        0x3e := dynamic (opReturnDataCopy c) GasFastestStep 3 0 (gasReturnDataCopy (ulib c)) (Some (memoryReturnDataCopy (ulib c))),
        0xfd := dynamic (opRevert c) 0 2 0 pureMemoryGascost (Some (memoryRevert (ulib c))))"

definition newConstantinopleInstructionSet :: "'st vm_cfg \<Rightarrow> 'st JumpTable" where
  "newConstantinopleInstructionSet c =
     (newByzantiumInstructionSet c)
       (0x1b := static (opSHL c) GasFastestStep 2 1,
        0x1c := static (opSHR c) GasFastestStep 2 1,
        0x1d := static (opSAR c) GasFastestStep 2 1,
        0x3f := static (opExtCodeHash c) ExtcodeHashGasConstantinople 1 1,
        0xf5 := dynamic (opCreate2 c) Create2Gas 4 1 (gasCreate2 (ulib c)) (Some (memoryCreate2 (ulib c))))"

definition newIstanbulInstructionSet :: "'st vm_cfg \<Rightarrow> 'st JumpTable" where
  "newIstanbulInstructionSet c = enable2200 c (enable1884 c (enable1344 c (newConstantinopleInstructionSet c)))"

definition newBerlinInstructionSet :: "'st vm_cfg \<Rightarrow> 'st JumpTable" where
  "newBerlinInstructionSet c = enable2929 c (newIstanbulInstructionSet c)"

definition newLondonInstructionSet :: "'st vm_cfg \<Rightarrow> 'st JumpTable" where
  "newLondonInstructionSet c = enable3198 c (enable3529 c (newBerlinInstructionSet c))"

definition newMergeInstructionSet :: "'st vm_cfg \<Rightarrow> 'st JumpTable" where
  "newMergeInstructionSet c = (newLondonInstructionSet c)(0x44 := static (opRandom c) GasQuickStep 0 1)"

definition newShanghaiInstructionSet :: "'st vm_cfg \<Rightarrow> 'st JumpTable" where
  "newShanghaiInstructionSet c = enable3860 c (enable3855 (newMergeInstructionSet c))"

text \<open>The table an interpreter starts with.\<close>

definition fork_table :: "'st vm_cfg \<Rightarrow> 'st JumpTable" where
  "fork_table c =
     (let r = chainRules c
      in if r_IsShanghai r then newShanghaiInstructionSet c
         else if r_IsMerge r then newMergeInstructionSet c
         else if r_IsLondon r then newLondonInstructionSet c
         else if r_IsBerlin r then newBerlinInstructionSet c
         else if r_IsIstanbul r then newIstanbulInstructionSet c
         else if r_IsConstantinople r then newConstantinopleInstructionSet c
         else if r_IsByzantium r then newByzantiumInstructionSet c
         else if r_IsEIP158 r then newSpuriousDragonInstructionSet c
         else if r_IsEIP150 r then newTangerineWhistleInstructionSet c
         else if r_IsHomestead r then newHomesteadInstructionSet c
         else newFrontierInstructionSet c)"

text \<open>
  The interpreter's table and the extra EIPs that could be enabled. Tables are values here, so the
  deep copy the source makes before it changes a shared table is the identity.
\<close>

definition NewEVMInterpreter :: "'st vm_cfg \<Rightarrow> int list \<Rightarrow> 'st JumpTable \<times> int list" where
  "NewEVMInterpreter c eips =
     foldl (\<lambda>(jt, extra) eip.
         case EnableEIP c eip jt of None \<Rightarrow> (jt, extra) | Some jt' \<Rightarrow> (jt', extra @ [eip]))
       (fork_table c, []) eips"

text \<open>\<^verbatim>\<open>jump_table_export.go\<close>: the table of a rule set, with the errors for the undefined forks.\<close>

definition LookupInstructionSet :: "'st vm_cfg \<Rightarrow> Rules \<Rightarrow> 'st JumpTable \<times> string option" where
  "LookupInstructionSet c r =
     (if r_IsPrague r then (newShanghaiInstructionSet c, Some ''prague-fork not defined yet'')
      else if r_IsCancun r then (newShanghaiInstructionSet c, Some ''cancun-fork not defined yet'')
      else if r_IsShanghai r then (newShanghaiInstructionSet c, None)
      else if r_IsMerge r then (newMergeInstructionSet c, None)
      else if r_IsLondon r then (newLondonInstructionSet c, None)
      else if r_IsBerlin r then (newBerlinInstructionSet c, None)
      else if r_IsIstanbul r then (newIstanbulInstructionSet c, None)
      else if r_IsConstantinople r then (newConstantinopleInstructionSet c, None)
      else if r_IsByzantium r then (newByzantiumInstructionSet c, None)
      else if r_IsEIP158 r then (newSpuriousDragonInstructionSet c, None)
      else if r_IsEIP150 r then (newTangerineWhistleInstructionSet c, None)
      else if r_IsHomestead r then (newHomesteadInstructionSet c, None)
      else (newFrontierInstructionSet c, None))"

definition HasCost :: "'st operation \<Rightarrow> bool" where
  "HasCost op \<longleftrightarrow> dynamicGas op \<noteq> None \<or> constantGas op \<noteq> 0"

section \<open>The interpreter loop\<close>

datatype 'st step_result =
    Halt "bytes \<times> vm_error option" "'st frame"
  | Next "'st frame"

text \<open>The memory size an operation asks for, in bytes rounded up to words; \<open>None\<close> is an overflow.\<close>

definition required_memory :: "'st operation \<Rightarrow> Stack \<Rightarrow> u64 option outcome" where
  "required_memory op st =
     (case memorySize op of
        None \<Rightarrow> Ret (Some 0)
      | Some f \<Rightarrow> bind_outcome (f st) (\<lambda>(memSize, overflow).
          if overflow then Ret None
          else let (sz, overflow) = SafeMul (toWordSize memSize) 32
               in Ret (if overflow then None else Some sz)))"

text \<open>The dynamic price and the memory expansion of one operation.\<close>

definition charge_dynamic :: "'st operation \<Rightarrow> 'st frame \<Rightarrow> (vm_error option \<times> 'st frame) outcome" where
  "charge_dynamic op fr =
     (case dynamicGas op of
        None \<Rightarrow> Ret (None, fr)
      | Some g \<Rightarrow>
          bind_outcome (required_memory op (fr_stack fr)) (\<lambda>ms.
            case ms of
              None \<Rightarrow> Ret (Some ErrGasUintOverflow, fr)
            | Some sz \<Rightarrow>
                bind_outcome (g (fr_evm fr) (fr_contract fr) (fr_stack fr) (fr_mem fr) sz) (\<lambda>(r, e, ct, m).
                  let fr = fr\<lparr>fr_evm := e, fr_contract := ct, fr_mem := m\<rparr>
                  in case r of
                       Inl err \<Rightarrow> Ret (Some ErrOutOfGas, fr)
                     | Inr dynamicCost \<Rightarrow>
                         let (ok, ct) = UseGas dynamicCost ct
                         in if \<not> ok then Ret (Some ErrOutOfGas, fr)
                            else Ret (None, fr\<lparr>fr_contract := ct,
                                   fr_mem := (if 0 < sz then mem_Resize sz m else m)\<rparr>))))"

text \<open>One turn of the loop.\<close>

definition interp_step :: "'st JumpTable \<Rightarrow> 'st runner \<Rightarrow> 'st frame \<Rightarrow> 'st step_result outcome" where
  "interp_step jt run fr =
     (let operation = jt (GetOp (fr_pc fr) (fr_contract fr));
          sLen = length (fr_stack fr)
      in if sLen < op_minStack operation then
           Ret (Halt ([], Some (ErrStackUnderflow sLen (op_minStack operation))) fr)
         else if op_maxStack operation < sLen then
           Ret (Halt ([], Some (ErrStackOverflow sLen (op_maxStack operation))) fr)
         else
           let (ok, ct) = UseGas (constantGas operation) (fr_contract fr)
           in if \<not> ok then Ret (Halt ([], Some ErrOutOfGas) fr)
              else
                bind_outcome (charge_dynamic operation (fr\<lparr>fr_contract := ct\<rparr>)) (\<lambda>(err, fr).
                  if err \<noteq> None then Ret (Halt ([], err) fr)
                  else
                    bind_outcome (execute operation run fr) (\<lambda>((res, err), fr).
                      if err \<noteq> None then Ret (Halt (res, err) fr)
                      else Ret (Next (fr\<lparr>fr_pc := fr_pc fr + 1\<rparr>)))))"

text \<open>\<^verbatim>\<open>Run\<close> around the loop: depth, write protection and the deferred resets.\<close>

definition run_frame ::
  "('st frame \<Rightarrow> ((bytes \<times> vm_error option) \<times> 'st frame) outcome) \<Rightarrow> 'st runner" where
  "run_frame loop ct input ro e =
     (let reset = (ro \<and> \<not> readOnly e);
          e = e\<lparr>depth := depth e + 1, readOnly := (readOnly e \<or> ro), returnData := []\<rparr>
      in bind_outcome
           (if length (Code ct) = 0 then Ret (([], None), ct, e)
            else
              bind_outcome
                (loop \<lparr>fr_pc = 0, fr_evm = e, fr_contract = ct\<lparr>Input := input\<rparr>, fr_stack = [], fr_mem = NewMemory\<rparr>)
                (\<lambda>((res, err), fr).
                   Ret ((res, if err = Some errStopToken then None else err), fr_contract fr, fr_evm fr)))
           (\<lambda>(r, ct, e).
              Ret (r, ct, e\<lparr>depth := depth e - 1, readOnly := (if reset then False else readOnly e)\<rparr>)))"

primrec interp_loop ::
  "'st JumpTable \<Rightarrow> nat \<Rightarrow> 'st frame \<Rightarrow> ((bytes \<times> vm_error option) \<times> 'st frame) outcome" where
  "interp_loop jt 0 fr = NoFuel"
| "interp_loop jt (Suc n) fr =
     bind_outcome (interp_step jt (run_frame (interp_loop jt n)) fr) (\<lambda>r.
       case r of Halt res fr' \<Rightarrow> Ret (res, fr') | Next fr' \<Rightarrow> interp_loop jt n fr')"

definition interp_Run :: "'st JumpTable \<Rightarrow> nat \<Rightarrow> 'st runner" where
  "interp_Run jt n = run_frame (interp_loop jt n)"

section \<open>The machine\<close>

definition NewEVM :: "'st vm_cfg \<Rightarrow> ChainConfig \<Rightarrow> 'st vm_cfg" where
  "NewEVM c cc =
     c\<lparr>vm_ChainID := cc_ChainID cc,
       chainRules := chain_Rules cc (BlockNumber c) (Random c \<noteq> None) (BlockTime c)\<rparr>"

definition new_machine :: "'st \<Rightarrow> 'st EVM" where
  "new_machine s =
     \<lparr>evm_StateDB = s, depth = 0, callGasTemp = 0, readOnly = False, returnData = [],
      evm_jumpdests = Map.empty, aborts = []\<rparr>"

end
