(* ===== verification/State_Transition.thy ===== *)
theory State_Transition
  imports Transactions VM_Interpreter
begin

text \<open>
  Applying a message to the state (\<^verbatim>\<open>core/state_transition.go\<close>, \<^verbatim>\<open>core/gaspool.go\<close>,
  \<^verbatim>\<open>core/error.go\<close>): intrinsic gas, the checks before execution, buying gas, the call or creation
  itself, the refund and the payment of the fee recipient. A \<^verbatim>\<open>*big.Int\<close> that the code compares
  with nil is an option; following a nil pointer panics.
\<close>

section \<open>Errors and the gas pool\<close>

datatype core_error =
    ErrNonceTooLow
  | ErrNonceTooHigh
  | ErrNonceMax
  | ErrGasLimitReached
  | ErrInsufficientFundsForTransfer
  | ErrMaxInitCodeSize
  | ErrInsufficientFunds
  | ErrIntrinsicOverflow \<comment> \<open>\<^verbatim>\<open>core.ErrGasUintOverflow\<close>\<close>
  | ErrIntrinsicGas
  | ErrTipAboveFeeCap
  | ErrTipVeryHigh
  | ErrFeeCapVeryHigh
  | ErrFeeCapTooLow
  | ErrSenderNoEOA
  | ErrSender \<comment> \<open>the sender of a transaction cannot be recovered\<close>

type_synonym GasPool = u64

definition gp_AddGas :: "u64 \<Rightarrow> GasPool \<Rightarrow> GasPool outcome" where
  "gp_AddGas amount p = (if MaxUint64 - amount < p then Panic GasPoolPanic else Ret (p + amount))"

definition gp_SubGas :: "u64 \<Rightarrow> GasPool \<Rightarrow> GasPool option" where
  "gp_SubGas amount p = (if p < amount then None else Some (p - amount))"

section \<open>Messages\<close>

record Message =
  msg_To :: "Address option"
  msg_From :: Address
  msg_Nonce :: u64
  msg_Value :: int
  msg_GasLimit :: u64
  msg_GasPrice :: int
  msg_GasFeeCap :: "int option"
  msg_GasTipCap :: "int option"
  msg_Data :: bytes
  msg_AccessList :: AccessList
  msg_SkipAccountChecks :: bool

text \<open>The sender is recovered from the signature by \<open>Sender\<close>; \<open>None\<close> is its error.\<close>

definition TransactionToMessage ::
  "(Transaction \<Rightarrow> Address option) \<Rightarrow> Transaction \<Rightarrow> int option \<Rightarrow> core_error + Message" where
  "TransactionToMessage Sender tx baseFee =
     (let d = inner tx;
          gasPrice = (case baseFee of
                        None \<Rightarrow> tx_gasPrice d
                      | Some bf \<Rightarrow> BigMin (tx_gasTipCap d + bf) (tx_gasFeeCap d))
      in case Sender tx of
           None \<Rightarrow> Inl ErrSender
         | Some from \<Rightarrow>
             Inr \<lparr>msg_To = tx_to d, msg_From = from, msg_Nonce = tx_nonce d, msg_Value = tx_value d,
                  msg_GasLimit = tx_gas d, msg_GasPrice = gasPrice, msg_GasFeeCap = Some (tx_gasFeeCap d),
                  msg_GasTipCap = Some (tx_gasTipCap d), msg_Data = tx_data d,
                  msg_AccessList = tx_accessList d, msg_SkipAccountChecks = False\<rparr>)"

section \<open>Intrinsic gas\<close>

definition core_toWordSize :: "u64 \<Rightarrow> u64" where
  "core_toWordSize sz = (if MaxUint64 - 31 < sz then MaxUint64 div 32 + 1 else (sz + 31) div 32)"

definition IntrinsicGas :: "bytes \<Rightarrow> AccessList \<Rightarrow> bool \<Rightarrow> bool \<Rightarrow> bool \<Rightarrow> bool \<Rightarrow> core_error + u64" where
  "IntrinsicGas data accessList isContractCreation isHomestead isEIP2028 isEIP3860 =
     (let gas = (if isContractCreation \<and> isHomestead then TxGasContractCreation else TxGas);
          dataLen = of_nat (length data) :: u64;
          r = (if 0 < dataLen then
                 let nz = of_nat (length (filter (\<lambda>byt. byt \<noteq> 0) data));
                     nonZeroGas = (if isEIP2028 then TxDataNonZeroGasEIP2028 else TxDataNonZeroGasFrontier)
                 in if (MaxUint64 - gas) div nonZeroGas < nz then Inl ErrIntrinsicOverflow
                    else
                      let gas = gas + nz * nonZeroGas;
                          z = dataLen - nz
                      in if (MaxUint64 - gas) div TxDataZeroGas < z then Inl ErrIntrinsicOverflow
                         else
                           let gas = gas + z * TxDataZeroGas
                           in if isContractCreation \<and> isEIP3860 then
                                let lenWords = core_toWordSize dataLen
                                in if (MaxUint64 - gas) div InitCodeWordGas < lenWords
                                   then Inl ErrIntrinsicOverflow
                                   else Inr (gas + lenWords * InitCodeWordGas)
                              else Inr gas
               else Inr gas)
      in case r of
           Inl err \<Rightarrow> Inl err
         | Inr gas \<Rightarrow>
             Inr (gas + of_nat (length accessList) * TxAccessListAddressGas
                      + of_nat (StorageKeys accessList) * TxAccessListStorageKeyGas))"

section \<open>The transition\<close>

record StateTransition =
  st_gp :: GasPool
  gasRemaining :: u64
  initialGas :: u64

definition NewStateTransition :: "GasPool \<Rightarrow> StateTransition" where
  "NewStateTransition p = \<lparr>st_gp = p, gasRemaining = 0, initialGas = 0\<rparr>"

definition st_gasUsed :: "StateTransition \<Rightarrow> u64" where
  "st_gasUsed st = initialGas st - gasRemaining st"

definition buyGas ::
  "'st vm_cfg \<Rightarrow> Message \<Rightarrow> StateTransition \<Rightarrow> 'st EVM \<Rightarrow> core_error option \<times> StateTransition \<times> 'st EVM" where
  "buyGas c msg st e =
     (let mgval = uint (msg_GasLimit msg) * msg_GasPrice msg;
          balanceCheck = (case msg_GasFeeCap msg of
                            None \<Rightarrow> mgval
                          | Some feeCap \<Rightarrow> uint (msg_GasLimit msg) * feeCap + msg_Value msg);
          (have, e) = ask (i_GetBalance (sops c) (msg_From msg)) e
      in if have < balanceCheck then (Some ErrInsufficientFunds, st, e)
         else case gp_SubGas (msg_GasLimit msg) (st_gp st) of
                None \<Rightarrow> (Some ErrGasLimitReached, st, e)
              | Some p \<Rightarrow>
                  (None,
                   st\<lparr>st_gp := p, gasRemaining := gasRemaining st + msg_GasLimit msg,
                      initialGas := msg_GasLimit msg\<rparr>,
                   upd (i_SubBalance (sops c) (msg_From msg) mgval) e))"

text \<open>The checks of nonce and sender; \<open>cl_Keccak256 _ []\<close> is \<^verbatim>\<open>types.EmptyCodeHash\<close>.\<close>

definition check_account :: "'st vm_cfg \<Rightarrow> Message \<Rightarrow> 'st EVM \<Rightarrow> core_error option \<times> 'st EVM" where
  "check_account c msg e =
     (let (stNonce, e) = ask (i_GetNonce (sops c) (msg_From msg)) e;
          msgNonce = msg_Nonce msg
      in if stNonce < msgNonce then (Some ErrNonceTooHigh, e)
         else if msgNonce < stNonce then (Some ErrNonceTooLow, e)
         else if stNonce + 1 < stNonce then (Some ErrNonceMax, e)
         else let (codeHash, e) = ask (i_GetCodeHash (sops c) (msg_From msg)) e
              in if codeHash \<noteq> 0 \<and> codeHash \<noteq> cl_Keccak256 (clib c) [] then (Some ErrSenderNoEOA, e)
                 else (None, e))"

definition big_BitLen :: "int \<Rightarrow> nat" where
  "big_BitLen x = bit_len (nat \<bar>x\<bar>)"

definition deref :: "'a option \<Rightarrow> ('a \<Rightarrow> 'b outcome) \<Rightarrow> 'b outcome" where
  "deref p f = (case p of None \<Rightarrow> Panic NilPanic | Some x \<Rightarrow> f x)"

text \<open>The checks of the fee fields after London.\<close>

definition check_fees :: "'st vm_cfg \<Rightarrow> bool \<Rightarrow> Message \<Rightarrow> core_error option outcome" where
  "check_fees c noBaseFee msg =
     deref (msg_GasFeeCap msg) (\<lambda>feeCap.
       bind_outcome
         (if \<not> noBaseFee \<or> 0 < big_BitLen feeCap then Ret True
          else deref (msg_GasTipCap msg) (\<lambda>tipCap. Ret (0 < big_BitLen tipCap)))
         (\<lambda>checked.
           if \<not> checked then Ret None
           else if 256 < big_BitLen feeCap then Ret (Some ErrFeeCapVeryHigh)
           else deref (msg_GasTipCap msg) (\<lambda>tipCap.
             if 256 < big_BitLen tipCap then Ret (Some ErrTipVeryHigh)
             else if feeCap < tipCap then Ret (Some ErrTipAboveFeeCap)
             else deref (BaseFee c) (\<lambda>baseFee.
               if feeCap < baseFee then Ret (Some ErrFeeCapTooLow) else Ret None))))"

definition preCheck ::
  "'st vm_cfg \<Rightarrow> ChainConfig \<Rightarrow> bool \<Rightarrow> Message \<Rightarrow> StateTransition \<Rightarrow> 'st EVM \<Rightarrow>
   (core_error option \<times> StateTransition \<times> 'st EVM) outcome" where
  "preCheck c cc noBaseFee msg st e =
     (let (err, e) = (if \<not> msg_SkipAccountChecks msg then check_account c msg e else (None, e))
      in if err \<noteq> None then Ret (err, st, e)
         else
           bind_outcome (if IsLondon cc (BlockNumber c) then check_fees c noBaseFee msg else Ret None) (\<lambda>err.
             if err \<noteq> None then Ret (err, st, e) else Ret (buyGas c msg st e)))"

definition refundGas ::
  "'st vm_cfg \<Rightarrow> u64 \<Rightarrow> Message \<Rightarrow> StateTransition \<Rightarrow> 'st EVM \<Rightarrow> (StateTransition \<times> 'st EVM) outcome" where
  "refundGas c refundQuotient msg st e =
     (let refund = st_gasUsed st div refundQuotient;
          refund = (if i_GetRefund (sops c) (evm_StateDB e) < refund
                    then i_GetRefund (sops c) (evm_StateDB e) else refund);
          st = st\<lparr>gasRemaining := gasRemaining st + refund\<rparr>;
          remaining = uint (gasRemaining st) * msg_GasPrice msg;
          e = upd (i_AddBalance (sops c) (msg_From msg) remaining) e
      in bind_outcome (gp_AddGas (gasRemaining st) (st_gp st)) (\<lambda>p. Ret (st\<lparr>st_gp := p\<rparr>, e)))"

text \<open>The addresses of the precompiled contracts; the source lists them in map order.\<close>

definition ActivePrecompiles :: "Rules \<Rightarrow> Address list" where
  "ActivePrecompiles r =
     map fst (if r_IsBerlin r then PrecompiledContractsBerlin
              else if r_IsIstanbul r then PrecompiledContractsIstanbul
              else if r_IsByzantium r then PrecompiledContractsByzantium
              else PrecompiledContractsHomestead)"

record ExecutionResult =
  UsedGas :: u64
  er_Err :: "vm_error option"
  ReturnData :: bytes

text \<open>The call or creation of the message.\<close>

definition execute_message ::
  "'st vm_cfg \<Rightarrow> 'st runner \<Rightarrow> Message \<Rightarrow> u64 \<Rightarrow> 'st EVM \<Rightarrow> ((bytes \<times> u64 \<times> vm_error option) \<times> 'st EVM) outcome" where
  "execute_message c run msg gas e =
     (case msg_To msg of
        None \<Rightarrow>
          bind_outcome (evm_Create c run (AccountRef (msg_From msg)) (msg_Data msg) gas (msg_Value msg) e)
            (\<lambda>((ret, _, gas, vmerr), e). Ret ((ret, gas, vmerr), e))
      | Some dst \<Rightarrow>
          let (nonce, e) = ask (i_GetNonce (sops c) (msg_From msg)) e;
              e = upd (i_SetNonce (sops c) (msg_From msg) (nonce + 1)) e
          in evm_Call c run (AccountRef (msg_From msg)) dst (msg_Data msg) gas (msg_Value msg) e)"

text \<open>The tip per unit of gas and the payment of the fee recipient.\<close>

definition effective_tip :: "'st vm_cfg \<Rightarrow> Rules \<Rightarrow> Message \<Rightarrow> int outcome" where
  "effective_tip c rules msg =
     (if r_IsLondon rules then
        deref (msg_GasFeeCap msg) (\<lambda>feeCap. deref (BaseFee c) (\<lambda>baseFee.
          deref (msg_GasTipCap msg) (\<lambda>tipCap. Ret (BigMin tipCap (feeCap - baseFee)))))
      else Ret (msg_GasPrice msg))"

definition pay_fee ::
  "'st vm_cfg \<Rightarrow> bool \<Rightarrow> Message \<Rightarrow> u64 \<Rightarrow> int \<Rightarrow> 'st EVM \<Rightarrow> 'st EVM outcome" where
  "pay_fee c noBaseFee msg used tip e =
     bind_outcome
       (if noBaseFee then
          deref (msg_GasFeeCap msg) (\<lambda>feeCap.
            if feeCap = 0 then deref (msg_GasTipCap msg) (\<lambda>tipCap. Ret (tipCap = 0)) else Ret False)
        else Ret False)
       (\<lambda>skip. Ret (if skip then e else upd (i_AddBalance (sops c) (Coinbase c) (uint used * tip)) e))"

text \<open>What follows the execution: refund, tip and result.\<close>

definition settle ::
  "'st vm_cfg \<Rightarrow> Rules \<Rightarrow> bool \<Rightarrow> Message \<Rightarrow> bytes \<Rightarrow> vm_error option \<Rightarrow> StateTransition \<Rightarrow> 'st EVM \<Rightarrow>
   ((core_error + ExecutionResult) \<times> StateTransition \<times> 'st EVM) outcome" where
  "settle c rules noBaseFee msg ret vmerr st e =
     (let quotient = (if \<not> r_IsLondon rules then RefundQuotient else RefundQuotientEIP3529)
      in bind_outcome (refundGas c quotient msg st e) (\<lambda>(st, e).
         bind_outcome (effective_tip c rules msg) (\<lambda>tip.
         bind_outcome (pay_fee c noBaseFee msg (st_gasUsed st) tip e) (\<lambda>e.
           Ret (Inr \<lparr>UsedGas = st_gasUsed st, er_Err = vmerr, ReturnData = ret\<rparr>, st, e)))))"

definition TransitionDb ::
  "'st vm_cfg \<Rightarrow> ChainConfig \<Rightarrow> bool \<Rightarrow> 'st runner \<Rightarrow> Message \<Rightarrow> StateTransition \<Rightarrow> 'st EVM \<Rightarrow>
   ((core_error + ExecutionResult) \<times> StateTransition \<times> 'st EVM) outcome" where
  "TransitionDb c cc noBaseFee run msg st e =
     bind_outcome (preCheck c cc noBaseFee msg st e) (\<lambda>(err, st, e).
       case err of
         Some err \<Rightarrow> Ret (Inl err, st, e)
       | None \<Rightarrow>
         let rules = chain_Rules cc (BlockNumber c) (Random c \<noteq> None) (BlockTime c);
             contractCreation = (msg_To msg = None)
         in case IntrinsicGas (msg_Data msg) (msg_AccessList msg) contractCreation (r_IsHomestead rules)
                   (r_IsIstanbul rules) (r_IsShanghai rules) of
              Inl err \<Rightarrow> Ret (Inl err, st, e)
            | Inr gas \<Rightarrow>
              if gasRemaining st < gas then Ret (Inl ErrIntrinsicGas, st, e)
              else
                let st = st\<lparr>gasRemaining := gasRemaining st - gas\<rparr>;
                    (can, e) = (if 0 < msg_Value msg then CanTransfer c (msg_From msg) (msg_Value msg) e else (True, e))
                in if \<not> can then Ret (Inl ErrInsufficientFundsForTransfer, st, e)
                   else if r_IsShanghai rules \<and> contractCreation \<and> unat MaxInitCodeSize < length (msg_Data msg) then
                     Ret (Inl ErrMaxInitCodeSize, st, e)
                   else
                     let e = upd (i_Prepare (sops c) rules (msg_From msg) (Coinbase c) (msg_To msg)
                                    (ActivePrecompiles rules) (msg_AccessList msg)) e
                     in bind_outcome (execute_message c run msg (gasRemaining st) e) (\<lambda>((ret, gas, vmerr), e).
                          settle c rules noBaseFee msg ret vmerr (st\<lparr>gasRemaining := gas\<rparr>) e))"

definition ApplyMessage ::
  "'st vm_cfg \<Rightarrow> ChainConfig \<Rightarrow> bool \<Rightarrow> 'st runner \<Rightarrow> Message \<Rightarrow> GasPool \<Rightarrow> 'st EVM \<Rightarrow>
   ((core_error + ExecutionResult) \<times> StateTransition \<times> 'st EVM) outcome" where
  "ApplyMessage c cc noBaseFee run msg p e = TransitionDb c cc noBaseFee run msg (NewStateTransition p) e"

end
