(* ===== verification/StateDB_View.thy ===== *)
theory StateDB_View
  imports StateDB_Model
begin

text \<open>
  What a state database means, apart from its caches: for every address the account as the
  queries report it, whether it is held by a live object or still in the backing store, and
  the remaining transaction state. The theory shows that queries return components of this
  view and leave it unchanged, and that every setter acts on the view as its specification
  says (a functional refinement, \<open>view (op s) = op' (view s)\<close>).
\<close>

section \<open>The view\<close>

record 'tr backing =
  bk_db :: "'tr Database"
  bk_trie :: 'tr
  bk_root :: Hash
  bk_snap :: "Snap option"

definition backing :: "'tr StateDB \<Rightarrow> 'tr backing" where
  "backing s = \<lparr>bk_db = sdb_db s, bk_trie = sdb_trie s, bk_root = originalRoot s,
                bk_snap = sdb_snap s\<rparr>"

definition obj_trie :: "'tr backing \<Rightarrow> 'tr stateObject \<Rightarrow> state_error + 'tr" where
  "obj_trie bk ob =
     (case so_trie ob of
        Some tr \<Rightarrow> Inr tr
      | None \<Rightarrow> OpenStorageTrie (bk_db bk) (bk_root bk) (so_addrHash ob) (Root (so_data ob)))"

definition trie_slot :: "'tr backing \<Rightarrow> 'tr stateObject \<Rightarrow> Hash \<Rightarrow> state_error + bytes" where
  "trie_slot bk ob key =
     (case obj_trie bk ob of
        Inl e \<Rightarrow> Inl e
      | Inr tr \<Rightarrow> trie_GetStorage (bk_db bk) tr (so_address ob) (hash_bytes key))"

definition slot_bytes :: "'tr backing \<Rightarrow> 'tr stateObject \<Rightarrow> Hash \<Rightarrow> state_error + bytes" where
  "slot_bytes bk ob key =
     (case bk_snap bk of
        None \<Rightarrow> trie_slot bk ob key
      | Some sn \<Rightarrow>
          (case snap_Storage sn (so_addrHash ob) (Keccak256Hash (bk_db bk) (hash_bytes key)) of
             Inl e \<Rightarrow> trie_slot bk ob key
           | Inr b \<Rightarrow> Inr b))"

definition decode_slot :: "state_error + bytes \<Rightarrow> Hash" where
  "decode_slot r =
     (case r of
        Inl e \<Rightarrow> 0
      | Inr enc \<Rightarrow>
          if length enc > 0 then
            (case Split enc of Inl e \<Rightarrow> 0 | Inr (_, content, _) \<Rightarrow> BytesToHash content)
          else 0)"

text \<open>The committed value of a slot; \<open>d\<close> tells whether the account was destructed in this block.\<close>

definition committed_slot :: "'tr backing \<Rightarrow> bool \<Rightarrow> 'tr stateObject \<Rightarrow> Hash \<Rightarrow> Hash" where
  "committed_slot bk d ob key =
     (case pendingStorage ob key of
        Some v \<Rightarrow> v
      | None \<Rightarrow>
          (case originStorage ob key of
             Some v \<Rightarrow> v
           | None \<Rightarrow> if d then 0 else decode_slot (slot_bytes bk ob key)))"

definition current_slot :: "'tr backing \<Rightarrow> bool \<Rightarrow> 'tr stateObject \<Rightarrow> Hash \<Rightarrow> Hash" where
  "current_slot bk d ob key =
     (case dirtyStorage ob key of Some v \<Rightarrow> v | None \<Rightarrow> committed_slot bk d ob key)"

definition stored_code :: "'tr backing \<Rightarrow> Hash \<Rightarrow> Hash \<Rightarrow> bytes" where
  "stored_code bk ah h =
     (if h = EmptyCodeHash (bk_db bk) then []
      else (case ContractCode (bk_db bk) ah h of Inl e \<Rightarrow> [] | Inr c \<Rightarrow> c))"

definition obj_code :: "'tr backing \<Rightarrow> 'tr stateObject \<Rightarrow> bytes" where
  "obj_code bk ob =
     (case so_code ob of
        Some c \<Rightarrow> c
      | None \<Rightarrow> stored_code bk (so_addrHash ob) (CodeHash (so_data ob)))"

record acct =
  a_nonce :: u64
  a_balance :: int
  a_root :: Hash
  a_addrHash :: Hash
  a_codehash :: Hash
  a_code :: bytes
  a_storage :: "Hash \<Rightarrow> Hash"
  a_committed :: "Hash \<Rightarrow> Hash"
  a_suicided :: bool
  a_deleted :: bool

definition acct_of :: "'tr backing \<Rightarrow> bool \<Rightarrow> 'tr stateObject \<Rightarrow> acct" where
  "acct_of bk d ob =
     \<lparr>a_nonce = Nonce (so_data ob), a_balance = Balance (so_data ob), a_root = Root (so_data ob),
      a_addrHash = so_addrHash ob, a_codehash = CodeHash (so_data ob), a_code = obj_code bk ob,
      a_storage = current_slot bk d ob, a_committed = committed_slot bk d ob,
      a_suicided = suicided ob, a_deleted = deleted ob\<rparr>"

definition stored_account :: "'tr StateDB \<Rightarrow> Address \<Rightarrow> StateAccount option" where
  "stored_account s a = (case readAccount s a of Inl e \<Rightarrow> None | Inr d \<Rightarrow> d)"

definition the_object :: "'tr StateDB \<Rightarrow> Address \<Rightarrow> 'tr stateObject option" where
  "the_object s a =
     (case stateObjects s a of
        Some ob \<Rightarrow> Some ob
      | None \<Rightarrow> map_option (newObject (sdb_db s) a) (stored_account s a))"

definition view_accts :: "'tr StateDB \<Rightarrow> Address \<rightharpoonup> acct" where
  "view_accts s a =
     map_option (acct_of (backing s) (a \<in> stateObjectsDestruct s)) (the_object s a)"

text \<open>
  Dirty counters, with the RIPEMD precompile left out: \<open>touch\<close> marks it once more than the
  journal will undo.
\<close>

definition view_dirties :: "'tr journal \<Rightarrow> Address \<Rightarrow> int" where
  "view_dirties j a = (if a = ripemd then 0 else dirty_count j a)"

definition view_logs :: "'tr StateDB \<Rightarrow> Hash \<Rightarrow> Log list" where
  "view_logs s h = (case logs s h of None \<Rightarrow> [] | Some ls \<Rightarrow> ls)"

record 'tr sview =
  v_accts :: "Address \<rightharpoonup> acct"
  v_backing :: "'tr backing"
  v_destruct :: "Address set"
  v_pending :: "Address set"
  v_dirty :: "Address set"
  v_dirties :: "Address \<Rightarrow> int"
  v_refund :: u64
  v_thash :: Hash
  v_txIndex :: int
  v_logs :: "Hash \<Rightarrow> Log list"
  v_logSize :: u64
  v_preimages :: "Hash \<rightharpoonup> bytes"
  v_access :: accessList
  v_transient :: "Address \<Rightarrow> Hash \<Rightarrow> Hash"
  v_snapAccounts :: "Hash \<rightharpoonup> bytes"
  v_snapStorage :: "Hash \<rightharpoonup> (Hash \<rightharpoonup> bytes)"

definition view :: "'tr StateDB \<Rightarrow> 'tr sview" where
  "view s =
     \<lparr>v_accts = view_accts s, v_backing = backing s, v_destruct = stateObjectsDestruct s,
      v_pending = stateObjectsPending s, v_dirty = stateObjectsDirty s,
      v_dirties = view_dirties (sdb_journal s), v_refund = refund s, v_thash = thash s,
      v_txIndex = txIndex s, v_logs = view_logs s, v_logSize = logSize s,
      v_preimages = preimages s, v_access = sdb_accessList s,
      v_transient = ts_Get (sdb_transient s), v_snapAccounts = snapAccounts s,
      v_snapStorage = snapStorage s\<rparr>"

section \<open>Well-formedness\<close>

definition rev_ok :: "revision list \<Rightarrow> nat \<Rightarrow> nat \<Rightarrow> bool" where
  "rev_ok rs n l \<longleftrightarrow>
     sorted_wrt (\<lambda>r r'. rev_id r < rev_id r' \<and> journalIndex r \<le> journalIndex r') rs \<and>
     (\<forall>r \<in> set rs. rev_id r < n \<and> journalIndex r \<le> l)"

definition sdb_ok :: "'tr StateDB \<Rightarrow> bool" where
  "sdb_ok s \<longleftrightarrow>
     (\<forall>a ob. stateObjects s a = Some ob \<longrightarrow> so_address ob = a) \<and>
     stateObjectsPending s \<union> stateObjectsDirty s \<subseteq> dom (stateObjects s) \<and>
     (\<forall>a n. a \<noteq> ripemd \<longrightarrow> dirties (sdb_journal s) a = Some n \<longrightarrow> 0 < n) \<and>
     al_inv (sdb_accessList s) \<and>
     rev_ok (validRevisions s) (nextRevisionId s) (length (entries (sdb_journal s)))"

text \<open>The journal and the revision stack, which only the setters move.\<close>

definition jr :: "'tr StateDB \<Rightarrow> 'tr journal \<times> revision list \<times> nat" where
  "jr s = (sdb_journal s, validRevisions s, nextRevisionId s)"

text \<open>\<open>reads s s'\<close>: from \<open>s\<close> to \<open>s'\<close> only caches were filled.\<close>

definition reads :: "'tr StateDB \<Rightarrow> 'tr StateDB \<Rightarrow> bool" where
  "reads s s' \<longleftrightarrow> view s' = view s \<and> jr s' = jr s \<and> (sdb_ok s \<longrightarrow> sdb_ok s')"

lemma reads_refl: "reads s s"
  by (simp add: reads_def)

lemma reads_trans: "reads s s1 \<Longrightarrow> reads s1 s2 \<Longrightarrow> reads s s2"
  by (simp add: reads_def)

lemma reads_view: "reads s s' \<Longrightarrow> view s' = view s"
  by (simp add: reads_def)

lemma reads_ok: "reads s s' \<Longrightarrow> sdb_ok s \<Longrightarrow> sdb_ok s'"
  by (simp add: reads_def)

lemma view_sel [simp]:
  "v_accts (view s) = view_accts s" "v_backing (view s) = backing s"
  "v_destruct (view s) = stateObjectsDestruct s" "v_pending (view s) = stateObjectsPending s"
  "v_dirty (view s) = stateObjectsDirty s" "v_dirties (view s) = view_dirties (sdb_journal s)"
  "v_refund (view s) = refund s" "v_thash (view s) = thash s" "v_txIndex (view s) = txIndex s"
  "v_logs (view s) = view_logs s" "v_logSize (view s) = logSize s"
  "v_preimages (view s) = preimages s" "v_access (view s) = sdb_accessList s"
  "v_transient (view s) = ts_Get (sdb_transient s)"
  "v_snapAccounts (view s) = snapAccounts s" "v_snapStorage (view s) = snapStorage s"
  by (simp_all add: view_def)

text \<open>Equal views have equal components.\<close>

lemma view_eqD:
  assumes "view t = view s"
  shows "view_accts t = view_accts s" "backing t = backing s"
    "stateObjectsDestruct t = stateObjectsDestruct s"
    "stateObjectsPending t = stateObjectsPending s" "stateObjectsDirty t = stateObjectsDirty s"
    "view_dirties (sdb_journal t) = view_dirties (sdb_journal s)" "refund t = refund s"
    "thash t = thash s" "txIndex t = txIndex s" "view_logs t = view_logs s"
    "logSize t = logSize s" "preimages t = preimages s" "sdb_accessList t = sdb_accessList s"
    "ts_Get (sdb_transient t) = ts_Get (sdb_transient s)" "snapAccounts t = snapAccounts s"
    "snapStorage t = snapStorage s"
  using assms by (simp_all add: view_def)

lemma backing_dbErr [simp]: "backing (s\<lparr>dbErr := e\<rparr>) = backing s"
  by (simp add: backing_def)

lemma readAccount_backing:
  "backing s' = backing s \<Longrightarrow> readAccount s' a = readAccount s a"
  by (simp add: readAccount_def backing_def)

lemma stored_account_backing:
  "backing s' = backing s \<Longrightarrow> stored_account s' a = stored_account s a"
  using readAccount_backing [of s' s a] by (simp add: stored_account_def)

lemma the_object_eq:
  "backing s' = backing s \<Longrightarrow> stateObjects s' a = stateObjects s a \<Longrightarrow>
   the_object s' a = the_object s a"
  using stored_account_backing [of s' s a]
  by (simp add: the_object_def backing_def split: option.split)

lemma view_accts_eq:
  "backing s' = backing s \<Longrightarrow> stateObjects s' = stateObjects s \<Longrightarrow>
   stateObjectsDestruct s' = stateObjectsDestruct s \<Longrightarrow> view_accts s' = view_accts s"
  using the_object_eq [of s' s] by (intro ext) (simp add: view_accts_def)

lemma view_logs_eq: "logs s' = logs s \<Longrightarrow> view_logs s' = view_logs s"
  by (simp add: fun_eq_iff view_logs_def)

lemma reads_dbErr: "reads s (s\<lparr>dbErr := e\<rparr>)"
proof -
  have "view_accts (s\<lparr>dbErr := e\<rparr>) = view_accts s" by (rule view_accts_eq) simp_all
  moreover have "view_logs (s\<lparr>dbErr := e\<rparr>) = view_logs s" by (rule view_logs_eq) simp
  ultimately show ?thesis by (simp add: reads_def view_def sdb_ok_def jr_def)
qed

lemma reads_setError: "reads s (setError e s)"
  by (simp add: setError_def reads_dbErr reads_refl)

lemma setError_sel [simp]:
  "sdb_db (setError e s) = sdb_db s" "stateObjects (setError e s) = stateObjects s"
  "stateObjectsDestruct (setError e s) = stateObjectsDestruct s"
  "backing (setError e s) = backing s" "originalRoot (setError e s) = originalRoot s"
  by (simp_all add: setError_def)


section \<open>Object reads\<close>

lemma acct_of_set_trie:
  assumes "obj_trie bk ob = Inr tr"
  shows "acct_of bk d (ob\<lparr>so_trie := Some tr\<rparr>) = acct_of bk d ob"
proof -
  have "trie_slot bk (ob\<lparr>so_trie := Some tr\<rparr>) = trie_slot bk ob"
    using assms by (simp add: fun_eq_iff trie_slot_def obj_trie_def)
  then have "slot_bytes bk (ob\<lparr>so_trie := Some tr\<rparr>) = slot_bytes bk ob"
    by (simp add: fun_eq_iff slot_bytes_def split: option.split sum.split)
  then have "committed_slot bk d (ob\<lparr>so_trie := Some tr\<rparr>) = committed_slot bk d ob"
    by (simp add: fun_eq_iff committed_slot_def split: option.split)
  then show ?thesis
    by (simp add: acct_of_def fun_eq_iff current_slot_def obj_code_def split: option.split)
qed

lemma getTrie_acct:
  assumes "getTrie ob s = (r, ob1)"
  shows "r = obj_trie (backing s) ob \<and> acct_of (backing s) d ob1 = acct_of (backing s) d ob \<and>
    so_address ob1 = so_address ob \<and> originStorage ob1 = originStorage ob \<and>
    pendingStorage ob1 = pendingStorage ob"
proof (cases "so_trie ob")
  case None
  note N = None
  show ?thesis
  proof (cases "obj_trie (backing s) ob")
    case (Inl e)
    with N assms show ?thesis by (auto simp: getTrie_def obj_trie_def backing_def)
  next
    case (Inr tr)
    with N assms have "r = Inr tr" "ob1 = ob\<lparr>so_trie := Some tr\<rparr>"
      by (auto simp: getTrie_def obj_trie_def backing_def)
    with acct_of_set_trie [OF Inr] Inr show ?thesis by simp
  qed
next
  case (Some tr)
  with assms show ?thesis by (auto simp: getTrie_def obj_trie_def)
qed

lemma readSlot_acct:
  assumes "readSlot ob key s = (r, ob1)"
  shows "r = slot_bytes (backing s) ob key \<and>
    acct_of (backing s) d ob1 = acct_of (backing s) d ob \<and> so_address ob1 = so_address ob \<and>
    originStorage ob1 = originStorage ob \<and> pendingStorage ob1 = pendingStorage ob"
proof -
  obtain r' ob' where g: "getTrie ob s = (r', ob')" by fastforce
  note gt = getTrie_acct [OF g, of d]
  have b: "bk_snap (backing s) = sdb_snap s" "bk_db (backing s) = sdb_db s"
    by (simp_all add: backing_def)
  show ?thesis
    using assms gt g
    by (auto simp: readSlot_def slot_bytes_def trie_slot_def b split: option.splits sum.splits)
qed

lemma slot_bytes_acct:
  assumes "acct_of bk d ob1 = acct_of bk d ob" "originStorage ob1 = originStorage ob"
    "pendingStorage ob1 = pendingStorage ob" "pendingStorage ob key = None"
    "originStorage ob key = None" "\<not> d"
  shows "acct_of bk d (ob1\<lparr>originStorage :=
      (originStorage ob1)(key \<mapsto> decode_slot (slot_bytes bk ob key))\<rparr>) = acct_of bk d ob"
proof -
  let ?v = "decode_slot (slot_bytes bk ob key)"
  let ?ob2 = "ob1\<lparr>originStorage := (originStorage ob1)(key \<mapsto> ?v)\<rparr>"
  have c1: "committed_slot bk d ob1 = committed_slot bk d ob"
    and c2: "current_slot bk d ob1 = current_slot bk d ob"
    using assms(1) by (simp_all add: acct_of_def)
  have sb: "slot_bytes bk ?ob2 = slot_bytes bk ob1"
    by (simp add: fun_eq_iff slot_bytes_def trie_slot_def obj_trie_def split: option.split sum.split)
  have k: "committed_slot bk d ob1 key = ?v"
    unfolding c1 using assms(4-6) by (simp add: committed_slot_def)
  have "committed_slot bk d ?ob2 x = committed_slot bk d ob1 x" for x
  proof (cases "x = key")
    case True
    with k assms(3,4) show ?thesis by (simp add: committed_slot_def)
  next
    case False
    then show ?thesis unfolding committed_slot_def sb by (simp split: option.split)
  qed
  then have c: "committed_slot bk d ?ob2 = committed_slot bk d ob1" by blast
  then have "current_slot bk d ?ob2 = current_slot bk d ob1"
    by (simp add: fun_eq_iff current_slot_def split: option.split)
  with c have "acct_of bk d ?ob2 = acct_of bk d ob1"
    by (simp add: acct_of_def obj_code_def split: option.split)
  with assms(1) show ?thesis by simp
qed

lemma obj_GetCommittedState_acct:
  assumes "obj_GetCommittedState ob key s = (v, ob1, s1)"
    and d: "d \<longleftrightarrow> so_address ob \<in> stateObjectsDestruct s"
  shows "v = a_committed (acct_of (backing s) d ob) key \<and>
    acct_of (backing s) d ob1 = acct_of (backing s) d ob \<and> so_address ob1 = so_address ob \<and>
    (s1 = s \<or> (\<exists>e. s1 = setError e s))"
proof (cases "pendingStorage ob key = None \<and> originStorage ob key = None \<and> \<not> d")
  case False
  with assms show ?thesis
    by (auto simp: obj_GetCommittedState_def acct_of_def committed_slot_def
        split: option.splits)
next
  case True
  obtain r ob' where rs: "readSlot ob key s = (r, ob')" by fastforce
  note rd = readSlot_acct [OF rs, of d]
  have v: "a_committed (acct_of (backing s) d ob) key = decode_slot (slot_bytes (backing s) ob key)"
    using True by (simp add: acct_of_def committed_slot_def)
  show ?thesis
  proof (cases r)
    case (Inl e)
    with assms True rs have "v = 0" "ob1 = ob'" "s1 = setError e s"
      by (auto simp: obj_GetCommittedState_def)
    moreover have "slot_bytes (backing s) ob key = Inl e" using rd Inl by simp
    ultimately show ?thesis using rd v by (auto simp: decode_slot_def)
  next
    case (Inr enc)
    have "v = decode_slot (slot_bytes (backing s) ob key)"
      "ob1 = ob'\<lparr>originStorage := (originStorage ob')(key \<mapsto> v)\<rparr>"
      "s1 = s \<or> (\<exists>e. s1 = setError e s)"
      using assms True rs Inr rd
      by (auto simp: obj_GetCommittedState_def decode_slot_def split: sum.splits if_splits)
    with rd v True slot_bytes_acct [of "backing s" d ob' ob key] show ?thesis by simp
  qed
qed

lemma obj_GetState_acct:
  assumes "obj_GetState ob key s = (v, ob1, s1)"
    and d: "d \<longleftrightarrow> so_address ob \<in> stateObjectsDestruct s"
  shows "v = a_storage (acct_of (backing s) d ob) key \<and>
    acct_of (backing s) d ob1 = acct_of (backing s) d ob \<and> so_address ob1 = so_address ob \<and>
    (s1 = s \<or> (\<exists>e. s1 = setError e s))"
proof (cases "dirtyStorage ob key")
  case None
  with assms(1) have "obj_GetCommittedState ob key s = (v, ob1, s1)"
    by (simp add: obj_GetState_def)
  from obj_GetCommittedState_acct [OF this d] None show ?thesis
    by (simp add: acct_of_def current_slot_def)
next
  case (Some w)
  with assms show ?thesis by (simp add: obj_GetState_def acct_of_def current_slot_def)
qed

lemma slots_so_code:
  "current_slot bk d (ob\<lparr>so_code := x\<rparr>) = current_slot bk d ob"
  "committed_slot bk d (ob\<lparr>so_code := x\<rparr>) = committed_slot bk d ob"
  by (simp_all add: fun_eq_iff current_slot_def committed_slot_def slot_bytes_def trie_slot_def
      obj_trie_def split: option.split sum.split)

lemma obj_Code_acct:
  assumes "obj_Code ob s = (c, ob1, s1)"
  shows "(case c of None \<Rightarrow> [] | Some b \<Rightarrow> b) = a_code (acct_of (backing s) d ob) \<and>
    acct_of (backing s) d ob1 = acct_of (backing s) d ob \<and> so_address ob1 = so_address ob \<and>
    so_addrHash ob1 = so_addrHash ob \<and> so_data ob1 = so_data ob \<and>
    (c = None \<longrightarrow> stored_code (backing s) (so_addrHash ob) (CodeHash (so_data ob)) = []) \<and>
    (s1 = s \<or> (\<exists>e. s1 = setError e s))"
proof -
  have b: "bk_db (backing s) = sdb_db s" by (simp add: backing_def)
  show ?thesis
    using assms
    by (auto simp: obj_Code_def acct_of_def obj_code_def stored_code_def b slots_so_code
        split: option.splits if_splits sum.splits)
qed


section \<open>Loading and storing objects\<close>

lemma newObject_sel [simp]:
  "so_address (newObject db a d) = a" "deleted (newObject db a d) = False"
  "suicided (newObject db a d) = False" "Balance (so_data (newObject db a d)) = Balance d"
  "Nonce (so_data (newObject db a d)) = Nonce d"
  by (simp_all add: newObject_def)

lemma the_object_address: "sdb_ok s \<Longrightarrow> the_object s a = Some ob \<Longrightarrow> so_address ob = a"
  by (auto simp: the_object_def sdb_ok_def split: option.splits)

lemma the_object_setStateObject:
  "the_object (setStateObject ob s) a = (if so_address ob = a then Some ob else the_object s a)"
proof -
  have "backing (setStateObject ob s) = backing s"
    by (simp add: backing_def setStateObject_def)
  then show ?thesis
    using stored_account_backing [of "setStateObject ob s" s a]
    by (simp add: the_object_def setStateObject_def split: option.split)
qed

lemma setStateObject_sel [simp]:
  "backing (setStateObject ob s) = backing s" "sdb_db (setStateObject ob s) = sdb_db s"
  "stateObjectsDestruct (setStateObject ob s) = stateObjectsDestruct s"
  "sdb_journal (setStateObject ob s) = sdb_journal s"
  "jr (setStateObject ob s) = jr s"
  by (simp_all add: backing_def setStateObject_def jr_def)

lemma view_accts_setStateObject:
  "view_accts (setStateObject ob s) =
     (view_accts s)(so_address ob \<mapsto>
        acct_of (backing s) (so_address ob \<in> stateObjectsDestruct s) ob)"
  by (rule ext) (auto simp: view_accts_def the_object_setStateObject)

lemma view_setStateObject:
  "view (setStateObject ob s) =
     (view s)\<lparr>v_accts := (view_accts s)(so_address ob \<mapsto>
        acct_of (backing s) (so_address ob \<in> stateObjectsDestruct s) ob)\<rparr>"
  using view_accts_setStateObject [of ob s] view_logs_eq [of "setStateObject ob s" s]
  by (simp add: view_def setStateObject_def backing_def)

lemma sdb_ok_setStateObject: "sdb_ok s \<Longrightarrow> sdb_ok (setStateObject ob s)"
  by (auto simp: sdb_ok_def setStateObject_def)

text \<open>Writing back an object that differs only in its caches is a read.\<close>

lemma reads_setStateObject:
  assumes "view_accts s (so_address ob) =
    Some (acct_of (backing s) (so_address ob \<in> stateObjectsDestruct s) ob)"
  shows "reads s (setStateObject ob s)"
proof -
  have "view (setStateObject ob s) = view s"
    using assms by (simp add: view_setStateObject fun_upd_idem)
  then show ?thesis by (simp add: reads_def sdb_ok_setStateObject)
qed

lemma getDeletedStateObject_reads:
  assumes "sdb_ok s"
  shows "fst (getDeletedStateObject a s) = the_object s a"
    "reads s (snd (getDeletedStateObject a s))"
    "the_object s a = Some ob \<Longrightarrow> stateObjects (snd (getDeletedStateObject a s)) a = Some ob"
proof -
  have "reads s (setStateObject (newObject (sdb_db s) a d) s)"
    if "stateObjects s a = None" "readAccount s a = Inr (Some d)" for d
    using that by (intro reads_setStateObject)
      (simp add: view_accts_def the_object_def stored_account_def)
  then show "reads s (snd (getDeletedStateObject a s))"
    by (auto simp: getDeletedStateObject_def Let_def reads_refl reads_setError
        split: option.split sum.split)
  show "fst (getDeletedStateObject a s) = the_object s a"
    by (auto simp: getDeletedStateObject_def Let_def the_object_def stored_account_def
        split: option.split sum.split)
  show "the_object s a = Some ob \<Longrightarrow> stateObjects (snd (getDeletedStateObject a s)) a = Some ob"
    by (auto simp: getDeletedStateObject_def Let_def the_object_def stored_account_def
        setStateObject_def split: option.splits sum.splits)
qed

definition live_object :: "'tr StateDB \<Rightarrow> Address \<Rightarrow> 'tr stateObject option" where
  "live_object s a =
     (case the_object s a of None \<Rightarrow> None | Some ob \<Rightarrow> if deleted ob then None else Some ob)"

lemma getStateObject_reads:
  assumes "sdb_ok s"
  shows "fst (getStateObject a s) = live_object s a" "reads s (snd (getStateObject a s))"
    "live_object s a = Some ob \<Longrightarrow> stateObjects (snd (getStateObject a s)) a = Some ob"
proof -
  obtain r s1 where g: "getDeletedStateObject a s = (r, s1)" by fastforce
  note rd = getDeletedStateObject_reads [OF assms, of a, unfolded g fst_conv snd_conv]
  show "fst (getStateObject a s) = live_object s a"
    using rd(1) by (simp add: getStateObject_def live_object_def g split: option.split)
  show "reads s (snd (getStateObject a s))"
    using rd(2) by (simp add: getStateObject_def g split: option.split)
  show "live_object s a = Some ob \<Longrightarrow> stateObjects (snd (getStateObject a s)) a = Some ob"
    using rd(1) rd(3) [of ob]
    by (auto simp: getStateObject_def live_object_def g split: option.splits if_splits)
qed

definition live_acct :: "'tr sview \<Rightarrow> Address \<Rightarrow> acct option" where
  "live_acct v a =
     (case v_accts v a of None \<Rightarrow> None | Some x \<Rightarrow> if a_deleted x then None else Some x)"

lemma live_acct_view:
  "live_acct (view s) a =
     map_option (acct_of (backing s) (a \<in> stateObjectsDestruct s)) (live_object s a)"
  by (auto simp: live_acct_def live_object_def view_accts_def acct_of_def split: option.split)

text \<open>The cases of \<open>getStateObject\<close>, with everything the callers need.\<close>

lemma getStateObject_cases:
  assumes "sdb_ok s"
  obtains (none) s1 where "getStateObject a s = (None, s1)" "reads s s1" "sdb_ok s1"
      "live_acct (view s) a = None"
    | (some) ob s1 where "getStateObject a s = (Some ob, s1)" "reads s s1" "sdb_ok s1"
      "stateObjects s1 a = Some ob" "so_address ob = a" "\<not> deleted ob"
      "view_accts s1 a = Some (acct_of (backing s1) (a \<in> stateObjectsDestruct s1) ob)"
      "live_acct (view s) a = Some (acct_of (backing s1) (a \<in> stateObjectsDestruct s1) ob)"
proof -
  obtain r s1 where g: "getStateObject a s = (r, s1)" by fastforce
  note rd = getStateObject_reads [OF assms, of a, unfolded g fst_conv snd_conv]
  have ok1: "sdb_ok s1" using rd(2) assms by (rule reads_ok)
  show ?thesis
  proof (cases r)
    case None
    with rd g ok1 show ?thesis by (intro none) (simp_all add: live_acct_view)
  next
    case (Some ob)
    have so: "stateObjects s1 a = Some ob" using rd(1) rd(3) [of ob] Some by simp
    have eq: "backing s1 = backing s" "stateObjectsDestruct s1 = stateObjectsDestruct s"
      using view_eqD [OF reads_view [OF rd(2)]] by simp_all
    have "view_accts s1 a = Some (acct_of (backing s1) (a \<in> stateObjectsDestruct s1) ob)"
      by (simp add: view_accts_def the_object_def so)
    moreover have "so_address ob = a" using so ok1 by (simp add: sdb_ok_def)
    moreover have "\<not> deleted ob" using rd(1) Some by (auto simp: live_object_def split: option.splits if_splits)
    ultimately show ?thesis
      using Some g rd(1,2) ok1 so eq by (intro some [of ob s1]) (simp_all add: live_acct_view)
  qed
qed


section \<open>Queries return components of the view\<close>

lemma query_view:
  assumes ok: "sdb_ok s"
    and q: "\<And>ob s1. g (Some ob, s1) = (f (acct_of (backing s) (a \<in> stateObjectsDestruct s) ob), s1)"
    and n: "\<And>s1. g (None, s1) = (z, s1)"
  shows "fst (g (getStateObject a s)) = (case live_acct (view s) a of None \<Rightarrow> z | Some x \<Rightarrow> f x)"
    "reads s (snd (g (getStateObject a s)))"
proof -
  obtain r s1 where g: "getStateObject a s = (r, s1)" by fastforce
  note rd = getStateObject_reads [OF ok, of a, unfolded g fst_conv snd_conv]
  show "fst (g (getStateObject a s)) = (case live_acct (view s) a of None \<Rightarrow> z | Some x \<Rightarrow> f x)"
    using rd(1) by (cases "live_object s a") (simp_all add: g q n live_acct_view)
  show "reads s (snd (g (getStateObject a s)))"
    using rd(2) by (cases r) (simp_all add: g q n)
qed

lemma Exist_view:
  assumes "sdb_ok s"
  shows "fst (Exist a s) \<longleftrightarrow> live_acct (view s) a \<noteq> None" "reads s (snd (Exist a s))"
  using getStateObject_reads(1,2) [OF assms, of a]
  by (simp_all add: Exist_def live_acct_view case_prod_beta)

definition acct_empty :: "'tr Database \<Rightarrow> acct \<Rightarrow> bool" where
  "acct_empty db x \<longleftrightarrow> a_nonce x = 0 \<and> a_balance x = 0 \<and> a_codehash x = EmptyCodeHash db"

lemma acct_empty_of: "acct_empty db (acct_of bk d ob) = obj_empty db ob"
  by (simp add: acct_empty_def obj_empty_def acct_of_def)

lemma Empty_view:
  assumes "sdb_ok s"
  shows "fst (Empty a s) =
      (case live_acct (view s) a of None \<Rightarrow> True | Some x \<Rightarrow> acct_empty (sdb_db s) x)"
    "reads s (snd (Empty a s))"
  using query_view [OF assms, where
      g = "\<lambda>(so, s1). (case so of None \<Rightarrow> True | Some ob \<Rightarrow> obj_empty (sdb_db s) ob, s1)"
      and a = a and f = "acct_empty (sdb_db s)" and z = True]
  by (simp_all add: Empty_def acct_empty_of)

lemma GetBalance_view:
  assumes "sdb_ok s"
  shows "fst (GetBalance a s) = (case live_acct (view s) a of None \<Rightarrow> 0 | Some x \<Rightarrow> a_balance x)"
    "reads s (snd (GetBalance a s))"
  using query_view [OF assms, where
      g = "\<lambda>(so, s1). (case so of None \<Rightarrow> 0 | Some ob \<Rightarrow> Balance (so_data ob), s1)"
      and a = a and f = a_balance and z = 0]
  by (simp_all add: GetBalance_def acct_of_def)

lemma GetNonce_view:
  assumes "sdb_ok s"
  shows "fst (GetNonce a s) = (case live_acct (view s) a of None \<Rightarrow> 0 | Some x \<Rightarrow> a_nonce x)"
    "reads s (snd (GetNonce a s))"
  using query_view [OF assms, where
      g = "\<lambda>(so, s1). (case so of None \<Rightarrow> 0 | Some ob \<Rightarrow> Nonce (so_data ob), s1)"
      and a = a and f = a_nonce and z = 0]
  by (simp_all add: GetNonce_def acct_of_def)

lemma GetCodeHash_view:
  assumes "sdb_ok s"
  shows "fst (GetCodeHash a s) = (case live_acct (view s) a of None \<Rightarrow> 0 | Some x \<Rightarrow> a_codehash x)"
    "reads s (snd (GetCodeHash a s))"
  using query_view [OF assms, where
      g = "\<lambda>(so, s1). (case so of None \<Rightarrow> 0 | Some ob \<Rightarrow> CodeHash (so_data ob), s1)"
      and a = a and f = a_codehash and z = 0]
  by (simp_all add: GetCodeHash_def acct_of_def)

lemma HasSuicided_view:
  assumes "sdb_ok s"
  shows "fst (HasSuicided a s) = (case live_acct (view s) a of None \<Rightarrow> False | Some x \<Rightarrow> a_suicided x)"
    "reads s (snd (HasSuicided a s))"
  using query_view [OF assms, where
      g = "\<lambda>(so, s1). (case so of None \<Rightarrow> False | Some ob \<Rightarrow> suicided ob, s1)"
      and a = a and f = a_suicided and z = False]
  by (simp_all add: HasSuicided_def acct_of_def)

text \<open>Queries that fill the object's own caches: the changed object is written back.\<close>

lemma reads_cached:
  assumes "reads s s1" "s2 = s1 \<or> (\<exists>e. s2 = setError e s1)" "so_address ob1 = a"
    "view_accts s1 a = Some (acct_of (backing s1) (a \<in> stateObjectsDestruct s1) ob1)"
  shows "reads s (setStateObject ob1 s2)"
proof -
  have r: "reads s1 s2" using assms(2) reads_refl reads_setError by metis
  note eq = view_eqD [OF reads_view [OF r]]
  have "reads s2 (setStateObject ob1 s2)"
    using assms(3,4) eq by (intro reads_setStateObject) simp
  with assms(1) r show ?thesis by (meson reads_trans)
qed

lemma GetState_view:
  assumes "sdb_ok s"
  shows "fst (GetState a key s) = (case live_acct (view s) a of None \<Rightarrow> 0 | Some x \<Rightarrow> a_storage x key)"
    "reads s (snd (GetState a key s))"
proof -
  have "fst (GetState a key s) = (case live_acct (view s) a of None \<Rightarrow> 0 | Some x \<Rightarrow> a_storage x key) \<and>
    reads s (snd (GetState a key s))"
  proof (rule getStateObject_cases [OF assms, of a])
    fix ob s1 assume g: "getStateObject a s = (Some ob, s1)" "reads s s1" "so_address ob = a"
      "view_accts s1 a = Some (acct_of (backing s1) (a \<in> stateObjectsDestruct s1) ob)"
      "live_acct (view s) a = Some (acct_of (backing s1) (a \<in> stateObjectsDestruct s1) ob)"
    obtain v ob1 s2 where o: "obj_GetState ob key s1 = (v, ob1, s2)" by (metis prod_cases3)
    from obj_GetState_acct [OF o refl] g show ?thesis
      by (auto simp: GetState_def o intro: reads_cached [where ?s1.0 = s1])
  qed (simp add: GetState_def)
  then show "fst (GetState a key s) = (case live_acct (view s) a of None \<Rightarrow> 0 | Some x \<Rightarrow> a_storage x key)"
    "reads s (snd (GetState a key s))" by simp_all
qed

lemma GetCommittedState_view:
  assumes "sdb_ok s"
  shows "fst (GetCommittedState a key s) =
      (case live_acct (view s) a of None \<Rightarrow> 0 | Some x \<Rightarrow> a_committed x key)"
    "reads s (snd (GetCommittedState a key s))"
proof -
  have "fst (GetCommittedState a key s) =
      (case live_acct (view s) a of None \<Rightarrow> 0 | Some x \<Rightarrow> a_committed x key) \<and>
    reads s (snd (GetCommittedState a key s))"
  proof (rule getStateObject_cases [OF assms, of a])
    fix ob s1 assume g: "getStateObject a s = (Some ob, s1)" "reads s s1" "so_address ob = a"
      "view_accts s1 a = Some (acct_of (backing s1) (a \<in> stateObjectsDestruct s1) ob)"
      "live_acct (view s) a = Some (acct_of (backing s1) (a \<in> stateObjectsDestruct s1) ob)"
    obtain v ob1 s2 where o: "obj_GetCommittedState ob key s1 = (v, ob1, s2)" by (metis prod_cases3)
    from obj_GetCommittedState_acct [OF o refl] g show ?thesis
      by (auto simp: GetCommittedState_def o intro: reads_cached [where ?s1.0 = s1])
  qed (simp add: GetCommittedState_def)
  then show "fst (GetCommittedState a key s) =
      (case live_acct (view s) a of None \<Rightarrow> 0 | Some x \<Rightarrow> a_committed x key)"
    "reads s (snd (GetCommittedState a key s))" by simp_all
qed

lemma GetCode_view:
  assumes "sdb_ok s"
  shows "(case fst (GetCode a s) of None \<Rightarrow> [] | Some c \<Rightarrow> c) =
      (case live_acct (view s) a of None \<Rightarrow> [] | Some x \<Rightarrow> a_code x)"
    "reads s (snd (GetCode a s))"
proof -
  have "(case fst (GetCode a s) of None \<Rightarrow> [] | Some c \<Rightarrow> c) =
      (case live_acct (view s) a of None \<Rightarrow> [] | Some x \<Rightarrow> a_code x) \<and>
    reads s (snd (GetCode a s))"
  proof (rule getStateObject_cases [OF assms, of a])
    fix ob s1 assume g: "getStateObject a s = (Some ob, s1)" "reads s s1" "so_address ob = a"
      "view_accts s1 a = Some (acct_of (backing s1) (a \<in> stateObjectsDestruct s1) ob)"
      "live_acct (view s) a = Some (acct_of (backing s1) (a \<in> stateObjectsDestruct s1) ob)"
    obtain c ob1 s2 where o: "obj_Code ob s1 = (c, ob1, s2)" by (metis prod_cases3)
    from obj_Code_acct [OF o, of "a \<in> stateObjectsDestruct s1"] g show ?thesis
      by (auto simp: GetCode_def o intro: reads_cached [where ?s1.0 = s1])
  qed (simp add: GetCode_def)
  then show "(case fst (GetCode a s) of None \<Rightarrow> [] | Some c \<Rightarrow> c) =
      (case live_acct (view s) a of None \<Rightarrow> [] | Some x \<Rightarrow> a_code x)"
    "reads s (snd (GetCode a s))" by simp_all
qed

text \<open>
  The size cache of the code store agrees with the codes it stores, as \<^verbatim>\<open>cachingDB\<close> keeps it.
\<close>

definition code_store_ok :: "'tr Database \<Rightarrow> bool" where
  "code_store_ok db \<longleftrightarrow>
     (\<forall>ah h. case ContractCode db ah h of
        Inl e \<Rightarrow> (\<exists>e'. ContractCodeSize db ah h = Inl e')
      | Inr c \<Rightarrow> ContractCodeSize db ah h = Inr (int (length c)))"

lemma GetCodeSize_view:
  assumes "sdb_ok s"
  shows "code_store_ok (sdb_db s) \<Longrightarrow>
      fst (GetCodeSize a s) = int (length (case live_acct (view s) a of None \<Rightarrow> [] | Some x \<Rightarrow> a_code x))"
    "reads s (snd (GetCodeSize a s))"
proof -
  have "(code_store_ok (sdb_db s) \<longrightarrow>
      fst (GetCodeSize a s) =
        int (length (case live_acct (view s) a of None \<Rightarrow> [] | Some x \<Rightarrow> a_code x))) \<and>
    reads s (snd (GetCodeSize a s))"
  proof (rule getStateObject_cases [OF assms, of a])
    fix ob s1 assume g: "getStateObject a s = (Some ob, s1)" "reads s s1"
      "live_acct (view s) a = Some (acct_of (backing s1) (a \<in> stateObjectsDestruct s1) ob)"
    have db: "sdb_db s1 = sdb_db s" "bk_db (backing s1) = sdb_db s"
      using view_eqD(2) [OF reads_view [OF g(2)]] by (simp_all add: backing_def)
    have "reads s (snd (obj_CodeSize ob s1))"
      using g(2) reads_setError [of s1]
      by (auto simp: obj_CodeSize_def split: option.split sum.split intro: reads_trans)
    moreover have "fst (obj_CodeSize ob s1) = int (length (obj_code (backing s1) ob))"
      if "code_store_ok (sdb_db s)"
      using that unfolding code_store_ok_def
      by (auto simp: obj_CodeSize_def obj_code_def stored_code_def db
          split: option.split sum.splits)
        (metis sum.distinct(1) Inl_inject)+
    ultimately show ?thesis using g by (simp add: GetCodeSize_def acct_of_def)
  qed (simp add: GetCodeSize_def)
  then show "code_store_ok (sdb_db s) \<Longrightarrow>
      fst (GetCodeSize a s) = int (length (case live_acct (view s) a of None \<Rightarrow> [] | Some x \<Rightarrow> a_code x))"
    "reads s (snd (GetCodeSize a s))" by simp_all
qed

end
