(* ===== verification/StateDB_Revert.thy ===== *)
theory StateDB_Revert
  imports StateDB_View
begin

text \<open>
  The setters act on the view as specified, every journal entry undoes the change it was
  written for, and \<open>RevertToSnapshot\<close> restores the view of the moment the snapshot was taken,
  whatever sequence of operations, nested snapshots and nested reverts lies between.
\<close>

section \<open>Dirty marks\<close>

definition bump :: "Address \<Rightarrow> 'tr sview \<Rightarrow> 'tr sview" where
  "bump a v =
     (if a = ripemd then v else v\<lparr>v_dirties := (v_dirties v)(a := v_dirties v a + 1)\<rparr>)"

definition unbump :: "Address \<Rightarrow> 'tr sview \<Rightarrow> 'tr sview" where
  "unbump a v =
     (if a = ripemd then v else v\<lparr>v_dirties := (v_dirties v)(a := v_dirties v a - 1)\<rparr>)"

lemma unbump_bump [simp]: "unbump a (bump a v) = v"
  by (simp add: bump_def unbump_def)

lemma bump_sel [simp]:
  "v_accts (bump a v) = v_accts v" "v_backing (bump a v) = v_backing v"
  "v_destruct (bump a v) = v_destruct v"
  by (simp_all add: bump_def)

lemma dirty_count_dirty:
  "dirty_count (journal_dirty a j) b = dirty_count j b + (if b = a then 1 else 0)"
  by (simp add: journal_dirty_def dirty_count_def)

lemma entries_journal_dirty [simp]: "entries (journal_dirty a j) = entries j"
  by (simp add: journal_dirty_def)

lemma dirty_count_entries [simp]: "dirty_count (j\<lparr>entries := es\<rparr>) = dirty_count j"
  by (simp add: fun_eq_iff dirty_count_def)

text \<open>Changes to the journal alone leave every other component of the view.\<close>

lemma view_set_journal:
  "view (s\<lparr>sdb_journal := j\<rparr>) = (view s)\<lparr>v_dirties := view_dirties j\<rparr>"
  using view_accts_eq [of "s\<lparr>sdb_journal := j\<rparr>" s] view_logs_eq [of "s\<lparr>sdb_journal := j\<rparr>" s]
  by (simp add: view_def backing_def)

lemma view_journal_append:
  "view (journal_append e s) = (case dirtied e of None \<Rightarrow> view s | Some a \<Rightarrow> bump a (view s))"
proof (cases "dirtied e")
  case None
  have "view_dirties ((sdb_journal s)\<lparr>entries := es\<rparr>) = view_dirties (sdb_journal s)" for es
    by (simp add: fun_eq_iff view_dirties_def)
  then show ?thesis
    by (simp add: journal_append_def Let_def None view_set_journal)
next
  case (Some a)
  have "view_dirties (journal_dirty a ((sdb_journal s)\<lparr>entries := es\<rparr>)) =
      v_dirties (bump a (view s))" for es
    by (auto simp: fun_eq_iff view_dirties_def dirty_count_dirty bump_def)
  then show ?thesis
    by (simp add: journal_append_def Let_def Some view_set_journal bump_def)
qed

lemma journal_append_sel [simp]:
  "stateObjects (journal_append e s) = stateObjects s" "backing (journal_append e s) = backing s"
  "stateObjectsDestruct (journal_append e s) = stateObjectsDestruct s"
  "sdb_db (journal_append e s) = sdb_db s"
  "entries (sdb_journal (journal_append e s)) = entries (sdb_journal s) @ [e]"
  "validRevisions (journal_append e s) = validRevisions s"
  "nextRevisionId (journal_append e s) = nextRevisionId s"
  "view_accts (journal_append e s) = view_accts s"
  using view_accts_eq [of "journal_append e s" s]
  by (simp_all add: journal_append_def Let_def backing_def split: option.split)

lemma rev_ok_mono: "rev_ok rs n l \<Longrightarrow> n \<le> n' \<Longrightarrow> l \<le> l' \<Longrightarrow> rev_ok rs n' l'"
  by (force simp: rev_ok_def)

lemma sdb_ok_count: "sdb_ok s \<Longrightarrow> 0 \<le> view_dirties (sdb_journal s) a"
  by (force simp: sdb_ok_def view_dirties_def dirty_count_def split: option.split)

lemma sdb_ok_journal_append: "sdb_ok s \<Longrightarrow> sdb_ok (journal_append e s)"
proof -
  assume ok: "sdb_ok s"
  have "0 < n" if "dirties (sdb_journal (journal_append e s)) b = Some n" "b \<noteq> ripemd" for b n
    using ok that sdb_ok_count [OF ok, of b]
    by (auto simp: journal_append_def Let_def journal_dirty_def view_dirties_def sdb_ok_def
        split: option.splits if_splits)
  then show ?thesis
    using ok unfolding sdb_ok_def
    by (auto simp: journal_append_def Let_def intro: rev_ok_mono split: option.splits)
qed

lemma view_journal_undirty:
  "view (journal_undirty e s) = (case dirtied e of None \<Rightarrow> view s | Some a \<Rightarrow> unbump a (view s))"
proof (cases "dirtied e")
  case (Some a)
  define n where "n = dirty_count (sdb_journal s) a - 1"
  define j where "j = (sdb_journal s)\<lparr>dirties := (if n = 0 then (dirties (sdb_journal s))(a := None)
      else (dirties (sdb_journal s))(a \<mapsto> n))\<rparr>"
  have "journal_undirty e s = s\<lparr>sdb_journal := j\<rparr>"
    by (simp add: journal_undirty_def Some Let_def j_def n_def)
  moreover have "view_dirties j b = v_dirties (unbump a (view s)) b" for b
    by (simp add: view_dirties_def unbump_def j_def dirty_count_def [of "dirties_update _ _"] n_def)
      (simp add: dirty_count_def)
  then have "view_dirties j = v_dirties (unbump a (view s))" by blast
  ultimately show ?thesis by (simp add: Some view_set_journal unbump_def)
qed (simp add: journal_undirty_def)


lemma journal_undirty_sel [simp]:
  "stateObjects (journal_undirty e s) = stateObjects s"
  "entries (sdb_journal (journal_undirty e s)) = entries (sdb_journal s)"
  "validRevisions (journal_undirty e s) = validRevisions s"
  "nextRevisionId (journal_undirty e s) = nextRevisionId s"
  "stateObjectsPending (journal_undirty e s) = stateObjectsPending s"
  "stateObjectsDirty (journal_undirty e s) = stateObjectsDirty s"
  "sdb_accessList (journal_undirty e s) = sdb_accessList s"
  by (simp_all add: journal_undirty_def Let_def split: option.split)

lemma sdb_ok_journal_undirty:
  assumes ok: "sdb_ok s"
    and pos: "\<And>a. dirtied e = Some a \<Longrightarrow> a \<noteq> ripemd \<Longrightarrow> 0 < view_dirties (sdb_journal s) a"
  shows "sdb_ok (journal_undirty e s)"
proof -
  have "0 < n" if d: "dirties (sdb_journal (journal_undirty e s)) b = Some n" "b \<noteq> ripemd" for b n
  proof (cases "dirtied e = Some b")
    case True
    with d pos [of b] show ?thesis
      by (auto simp: journal_undirty_def Let_def view_dirties_def split: if_splits)
  next
    case False
    with d have "dirties (sdb_journal s) b = Some n"
      by (auto simp: journal_undirty_def Let_def split: option.splits if_splits)
    with ok d show ?thesis by (simp add: sdb_ok_def)
  qed
  with ok show ?thesis by (simp add: sdb_ok_def)
qed

section \<open>Undoing a stretch of the journal\<close>

definition erv :: "'tr StateDB \<Rightarrow> 'tr journalEntry list \<times> revision list \<times> nat" where
  "erv s = (entries (sdb_journal s), validRevisions s, nextRevisionId s)"

text \<open>
  \<open>undoes es s' s\<close>: from any well-formed database that looks like \<open>s'\<close>, reverting the entries
  \<open>es\<close> succeeds and leads to one that looks like \<open>s\<close>.
\<close>

definition undoes :: "'tr journalEntry list \<Rightarrow> 'tr StateDB \<Rightarrow> 'tr StateDB \<Rightarrow> bool" where
  "undoes es s' s \<longleftrightarrow>
     (\<forall>t. sdb_ok t \<longrightarrow> view t = view s' \<longrightarrow>
        (\<exists>t'. revert_loop (rev es) t = Some t' \<and> sdb_ok t' \<and> view t' = view s \<and> erv t' = erv t))"

text \<open>\<open>evolves s s'\<close>: \<open>s'\<close> results from \<open>s\<close> by journalled changes.\<close>

definition evolves :: "'tr StateDB \<Rightarrow> 'tr StateDB \<Rightarrow> bool" where
  "evolves s s' \<longleftrightarrow>
     sdb_ok s' \<and> nextRevisionId s \<le> nextRevisionId s' \<and>
     (\<exists>es rs. entries (sdb_journal s') = entries (sdb_journal s) @ es \<and>
        validRevisions s' = validRevisions s @ rs \<and>
        (\<forall>r \<in> set rs. nextRevisionId s \<le> rev_id r) \<and> undoes es s' s)"

lemma revert_loop_append:
  "revert_loop (es @ es') s =
     (case revert_loop es s of None \<Rightarrow> None | Some s1 \<Rightarrow> revert_loop es' s1)"
  by (induction es arbitrary: s) (auto split: option.split)

lemma undoes_Nil: "view s' = view s \<Longrightarrow> undoes [] s' s"
  by (simp add: undoes_def)

lemma undoes_append:
  assumes "undoes es1 s1 s" "undoes es2 s2 s1"
  shows "undoes (es1 @ es2) s2 s"
  unfolding undoes_def
proof (intro allI impI)
  fix t assume t: "sdb_ok t" "view t = view s2"
  with assms(2) obtain t1 where t1: "revert_loop (rev es2) t = Some t1" "sdb_ok t1"
    "view t1 = view s1" "erv t1 = erv t" unfolding undoes_def by blast
  with assms(1) obtain t2 where "revert_loop (rev es1) t1 = Some t2" "sdb_ok t2"
    "view t2 = view s" "erv t2 = erv t1" unfolding undoes_def by blast
  with t1 show "\<exists>t'. revert_loop (rev (es1 @ es2)) t = Some t' \<and> sdb_ok t' \<and> view t' = view s \<and>
      erv t' = erv t"
    by (simp add: revert_loop_append)
qed

lemma evolves_ok: "evolves s s' \<Longrightarrow> sdb_ok s'"
  by (simp add: evolves_def)

lemma evolves_reads: "sdb_ok s \<Longrightarrow> reads s s' \<Longrightarrow> evolves s s'"
  unfolding evolves_def reads_def jr_def
  by (auto intro!: exI [of _ "[]"] undoes_Nil)

lemma evolves_refl: "sdb_ok s \<Longrightarrow> evolves s s"
  by (simp add: evolves_reads reads_refl)

lemma evolves_trans:
  assumes "evolves s s1" "evolves s1 s2"
  shows "evolves s s2"
proof -
  from assms(1) obtain es1 rs1 where 1: "entries (sdb_journal s1) = entries (sdb_journal s) @ es1"
    "validRevisions s1 = validRevisions s @ rs1" "\<forall>r \<in> set rs1. nextRevisionId s \<le> rev_id r"
    "undoes es1 s1 s" "nextRevisionId s \<le> nextRevisionId s1"
    unfolding evolves_def by blast
  from assms(2) obtain es2 rs2 where 2: "entries (sdb_journal s2) = entries (sdb_journal s1) @ es2"
    "validRevisions s2 = validRevisions s1 @ rs2" "\<forall>r \<in> set rs2. nextRevisionId s1 \<le> rev_id r"
    "undoes es2 s2 s1" "nextRevisionId s1 \<le> nextRevisionId s2" "sdb_ok s2"
    unfolding evolves_def by blast
  show ?thesis
    unfolding evolves_def
    using 1 2 undoes_append [OF 1(4) 2(4)]
    by (auto intro!: exI [of _ "es1 @ es2"] exI [of _ "rs1 @ rs2"])
qed

text \<open>One journalled change: it is enough to look at its entry.\<close>

lemma evolves_step:
  assumes ok: "sdb_ok s'"
    and e: "entries (sdb_journal s') = entries (sdb_journal s) @ [e]"
      "validRevisions s' = validRevisions s" "nextRevisionId s' = nextRevisionId s"
    and bumped: "\<And>a. dirtied e = Some a \<Longrightarrow> a \<noteq> ripemd \<Longrightarrow> 0 < view_dirties (sdb_journal s') a"
    and undo: "\<And>t. sdb_ok t \<Longrightarrow> view t = view s' \<Longrightarrow>
      \<exists>t1. revert_entry e t = Some t1 \<and> sdb_ok t1 \<and> erv t1 = erv t \<and>
        view_dirties (sdb_journal t1) = view_dirties (sdb_journal t) \<and>
        (case dirtied e of None \<Rightarrow> view t1 | Some a \<Rightarrow> unbump a (view t1)) = view s"
  shows "evolves s s'"
proof -
  have "undoes [e] s' s"
    unfolding undoes_def
  proof (intro allI impI)
    fix t assume t: "sdb_ok t" "view t = view s'"
    from undo [OF this] obtain t1 where t1: "revert_entry e t = Some t1" "sdb_ok t1" "erv t1 = erv t"
      "view_dirties (sdb_journal t1) = view_dirties (sdb_journal t)"
      "(case dirtied e of None \<Rightarrow> view t1 | Some a \<Rightarrow> unbump a (view t1)) = view s" by blast
    have "sdb_ok (journal_undirty e t1)"
      using t1(2,4) view_eqD(6) [OF t(2)] bumped by (intro sdb_ok_journal_undirty) simp_all
    with t1 show "\<exists>t'. revert_loop (rev [e]) t = Some t' \<and> sdb_ok t' \<and> view t' = view s \<and>
        erv t' = erv t"
      by (simp add: view_journal_undirty erv_def)
  qed
  with ok e show ?thesis unfolding evolves_def by (auto intro!: exI [of _ "[e]"] exI [of _ "[]"])
qed


section \<open>Snapshots\<close>

lemma view_set_revisions:
  "view (s\<lparr>validRevisions := rs\<rparr>) = view s" "view (s\<lparr>nextRevisionId := n\<rparr>) = view s"
  using view_accts_eq [of "s\<lparr>validRevisions := rs\<rparr>" s] view_logs_eq [of "s\<lparr>validRevisions := rs\<rparr>" s]
    view_accts_eq [of "s\<lparr>nextRevisionId := n\<rparr>" s] view_logs_eq [of "s\<lparr>nextRevisionId := n\<rparr>" s]
  by (simp_all add: view_def backing_def)

lemma view_set_entries: "view (s\<lparr>sdb_journal := (sdb_journal s)\<lparr>entries := xs\<rparr>\<rparr>) = view s"
proof -
  have "view_dirties ((sdb_journal s)\<lparr>entries := xs\<rparr>) = view_dirties (sdb_journal s)"
    by (simp add: fun_eq_iff view_dirties_def)
  then show ?thesis by (simp add: view_set_journal)
qed

lemma Snapshot_evolves:
  assumes "sdb_ok s" "Snapshot s = (i, s1)"
  shows "evolves s s1" "view s1 = view s"
proof -
  show v: "view s1 = view s"
    using assms(2) by (auto simp: Snapshot_def Let_def view_set_revisions)
  have "rev_ok (validRevisions s1) (nextRevisionId s1) (length (entries (sdb_journal s1)))"
    using assms by (fastforce simp: Snapshot_def Let_def sdb_ok_def rev_ok_def sorted_wrt_append)
  with assms have "sdb_ok s1" by (auto simp: Snapshot_def Let_def sdb_ok_def)
  with assms(2) undoes_Nil [OF v] show "evolves s s1"
    unfolding evolves_def by (auto simp: Snapshot_def Let_def)
qed

lemma revision_index:
  assumes ok: "rev_ok (rs @ r # rs') n l"
  shows "sort_Search (length (rs @ r # rs')) (\<lambda>i. rev_id r \<le> rev_id ((rs @ r # rs') ! i)) = length rs"
proof (rule sort_Search_eq)
  let ?rs = "rs @ r # rs'"
  have less: "rev_id (?rs ! i) < rev_id (?rs ! j)" if "i < j" "j < length ?rs" for i j
    using ok that unfolding rev_ok_def by (blast dest: sorted_wrt_nth_less)
  show "rev_id r \<le> rev_id (?rs ! l)" if "k \<le> l" "l < length ?rs" "rev_id r \<le> rev_id (?rs ! k)" for k l
    using less [of k l] that by (cases "k = l") auto
  show "\<not> rev_id r \<le> rev_id (?rs ! k)" if "k < length rs" for k
    using less [of k "length rs"] that by simp
qed simp_all

lemma RevertToSnapshot_restores:
  assumes ok: "sdb_ok s" and sn: "Snapshot s = (i, s1)" and ev: "evolves s1 s2"
  shows "\<exists>s3. RevertToSnapshot i s2 = Some s3 \<and> view s3 = view s \<and> evolves s s3"
proof -
  let ?r = "\<lparr>rev_id = i, journalIndex = length (entries (sdb_journal s))\<rparr>"
  from sn have s1: "entries (sdb_journal s1) = entries (sdb_journal s)" "i = nextRevisionId s"
    "validRevisions s1 = validRevisions s @ [?r]" "nextRevisionId s1 = i + 1"
    by (auto simp: Snapshot_def Let_def)
  from ev s1 obtain es rs where s2: "entries (sdb_journal s2) = entries (sdb_journal s) @ es"
    "validRevisions s2 = validRevisions s @ ?r # rs" "undoes es s2 s1" "sdb_ok s2"
    "i + 1 \<le> nextRevisionId s2" by (auto simp: evolves_def)
  then obtain t where t: "revert_loop (rev es) s2 = Some t" "sdb_ok t" "view t = view s1"
    "erv t = erv s2" unfolding undoes_def by blast
  have "rev_ok (validRevisions s2) (nextRevisionId s2) (length (entries (sdb_journal s2)))"
    using s2(4) by (simp add: sdb_ok_def)
  from revision_index [OF this [unfolded s2(2)]] have idx:
    "sort_Search (length (validRevisions s2)) (\<lambda>k. i \<le> rev_id (validRevisions s2 ! k)) =
      length (validRevisions s)" by (simp add: s2(2))
  define s3 where "s3 = t\<lparr>sdb_journal := (sdb_journal t)\<lparr>entries := entries (sdb_journal s)\<rparr>,
    validRevisions := validRevisions s\<rparr>"
  have "RevertToSnapshot i s2 = Some s3"
    unfolding RevertToSnapshot_def Let_def idx
    using t s2 by (simp add: journal_revert_def s3_def erv_def)
  moreover have v3: "view s3 = view s"
    using t(3) Snapshot_evolves(2) [OF ok sn] by (simp add: s3_def view_set_revisions view_set_entries)
  moreover have "sdb_ok s3"
    using t(2,4) ok s1(2) s2(5) rev_ok_mono
    by (fastforce simp: sdb_ok_def s3_def erv_def)
  ultimately show ?thesis
    using t(4) s1(2) s2(5) undoes_Nil [OF v3]
    by (auto simp: evolves_def s3_def erv_def)
qed


section \<open>Changes to one account\<close>

lemma setStateObject_rest [simp]:
  "validRevisions (setStateObject ob s) = validRevisions s"
  "nextRevisionId (setStateObject ob s) = nextRevisionId s"
  by (simp_all add: setStateObject_def)

lemma acct_of_setBalance [simp]:
  "acct_of bk d (obj_setBalance x ob) = (acct_of bk d ob)\<lparr>a_balance := x\<rparr>"
  by (simp add: acct_of_def obj_setBalance_def obj_code_def fun_eq_iff current_slot_def
      committed_slot_def slot_bytes_def trie_slot_def obj_trie_def split: option.split sum.split)

lemma acct_of_setNonce [simp]:
  "acct_of bk d (obj_setNonce n ob) = (acct_of bk d ob)\<lparr>a_nonce := n\<rparr>"
  by (simp add: acct_of_def obj_setNonce_def obj_code_def fun_eq_iff current_slot_def
      committed_slot_def slot_bytes_def trie_slot_def obj_trie_def split: option.split sum.split)

lemma acct_of_suicided [simp]:
  "acct_of bk d (ob\<lparr>suicided := b\<rparr>) = (acct_of bk d ob)\<lparr>a_suicided := b\<rparr>"
  by (simp add: acct_of_def obj_code_def fun_eq_iff current_slot_def
      committed_slot_def slot_bytes_def trie_slot_def obj_trie_def split: option.split sum.split)

lemma acct_of_setState [simp]:
  "acct_of bk d (obj_setState k v ob) =
     (acct_of bk d ob)\<lparr>a_storage := (a_storage (acct_of bk d ob))(k := v)\<rparr>"
  by (simp add: acct_of_def obj_setState_def obj_code_def fun_eq_iff current_slot_def
      committed_slot_def slot_bytes_def trie_slot_def obj_trie_def split: option.split sum.split)

lemma acct_of_setCode [simp]:
  "acct_of bk d (obj_setCode h c ob) =
     (acct_of bk d ob)\<lparr>a_codehash := h,
       a_code := (case c of Some b \<Rightarrow> b | None \<Rightarrow> stored_code bk (a_addrHash (acct_of bk d ob)) h)\<rparr>"
  by (simp add: acct_of_def obj_setCode_def obj_code_def fun_eq_iff current_slot_def
      committed_slot_def slot_bytes_def trie_slot_def obj_trie_def split: option.split sum.split)

lemma obj_set_sel [simp]:
  "so_address (obj_setBalance x ob) = so_address ob" "so_address (obj_setNonce n ob) = so_address ob"
  "so_address (obj_setState k v ob) = so_address ob" "so_address (obj_setCode h c ob) = so_address ob"
  "deleted (obj_setBalance x ob) = deleted ob" "deleted (obj_setNonce n ob) = deleted ob"
  "deleted (obj_setState k v ob) = deleted ob" "deleted (obj_setCode h c ob) = deleted ob"
  by (simp_all add: obj_setBalance_def obj_setNonce_def obj_setState_def obj_setCode_def)

text \<open>The account of an address in a database that has a live object for it.\<close>

definition has_object :: "'tr StateDB \<Rightarrow> Address \<Rightarrow> 'tr stateObject \<Rightarrow> bool" where
  "has_object s a ob \<longleftrightarrow> sdb_ok s \<and> stateObjects s a = Some ob \<and> \<not> deleted ob"

abbreviation "acct_in s ob \<equiv> acct_of (backing s) (so_address ob \<in> stateObjectsDestruct s) ob"

lemma has_objectD:
  assumes "has_object s a ob"
  shows "sdb_ok s" "stateObjects s a = Some ob" "\<not> deleted ob" "so_address ob = a"
    "view_accts s a = Some (acct_in s ob)" "live_acct (view s) a = Some (acct_in s ob)"
  using assms
  by (auto simp: has_object_def sdb_ok_def view_accts_def the_object_def live_acct_def acct_of_def)

definition set_acct :: "Address \<Rightarrow> acct \<Rightarrow> 'tr sview \<Rightarrow> 'tr sview" where
  "set_acct a x v = v\<lparr>v_accts := (v_accts v)(a \<mapsto> x)\<rparr>"

lemma view_setStateObject':
  "view (setStateObject ob s) = set_acct (so_address ob) (acct_in s ob) (view s)"
  by (simp add: set_acct_def view_setStateObject)

lemma set_acct_set_acct [simp]: "set_acct a x (set_acct a y v) = set_acct a x v"
  by (simp add: set_acct_def)

lemma set_acct_idem: "v_accts v a = Some x \<Longrightarrow> set_acct a x v = v"
  by (simp add: set_acct_def fun_upd_idem)

lemma bump_set_acct: "bump b (set_acct a x v) = set_acct a x (bump b v)"
  by (simp add: bump_def set_acct_def)

lemma unbump_set_acct: "unbump b (set_acct a x v) = set_acct a x (unbump b v)"
  by (simp add: unbump_def set_acct_def)

lemma v_accts_set_acct [simp]: "v_accts (set_acct a x v) = (v_accts v)(a \<mapsto> x)"
  by (simp add: set_acct_def)

lemma view_dirties_bumped:
  assumes "sdb_ok s" "dirtied e = Some a" "a \<noteq> ripemd"
  shows "0 < view_dirties (sdb_journal (journal_append e s)) a"
proof -
  have "view_dirties (sdb_journal (journal_append e s)) a = v_dirties (bump a (view s)) a"
    using view_journal_append [of e s] assms(2) by (metis option.simps(5) view_sel(6))
  with sdb_ok_count [OF assms(1), of a] assms(3) show ?thesis by (simp add: bump_def)
qed

text \<open>
  A journalled change of one account, whose entry is reverted by changing the live object of
  that address back.
\<close>

lemma evolves_object:
  assumes ob: "has_object s a ob" and ob': "so_address ob' = a" "\<not> deleted ob'"
    and e: "dirtied e = Some a"
    and rev: "\<And>t ob2 t1. getStateObject a t = (Some ob2, t1) \<Longrightarrow>
      revert_entry e t = Some (setStateObject (g ob2) t1)"
    and g: "\<And>ob2. so_address (g ob2) = so_address ob2"
    and restore: "\<And>ob2. so_address ob2 = a \<Longrightarrow> acct_in s ob2 = acct_in s ob' \<Longrightarrow>
      acct_of (backing s) (a \<in> stateObjectsDestruct s) (g ob2) = acct_in s ob"
  defines "s' \<equiv> setStateObject ob' (journal_append e s)"
  shows "evolves s s'" "has_object s' a ob'" "view s' = bump a (set_acct a (acct_in s ob') (view s))"
proof -
  note o = has_objectD [OF ob]
  show v: "view s' = bump a (set_acct a (acct_in s ob') (view s))"
    using e ob' by (simp add: s'_def view_setStateObject' view_journal_append bump_set_acct)
  have ok: "sdb_ok s'"
    unfolding s'_def using o(1) by (simp add: sdb_ok_setStateObject sdb_ok_journal_append)
  show "has_object s' a ob'"
    using ok ob' by (simp add: has_object_def s'_def setStateObject_def)
  show "evolves s s'"
  proof (rule evolves_step [of s' s e])
    fix b assume "dirtied e = Some b" "b \<noteq> ripemd"
    with view_dirties_bumped [OF o(1)] show "0 < view_dirties (sdb_journal s') b"
      by (simp add: s'_def)
  next
    fix t assume t: "sdb_ok t" "view t = view s'"
    note eq = view_eqD [OF t(2)]
    have bd: "backing t = backing s" "stateObjectsDestruct t = stateObjectsDestruct s"
      using eq(2,3) by (simp_all add: s'_def)
    have "live_acct (view t) a = Some (acct_in s ob')"
      using ob' by (simp add: t(2) v live_acct_def acct_of_def)
    then obtain ob2 t1 where t1: "getStateObject a t = (Some ob2, t1)" "reads t t1" "sdb_ok t1"
      "so_address ob2 = a" "acct_of (backing t1) (a \<in> stateObjectsDestruct t1) ob2 = acct_in s ob'"
      by (rule_tac getStateObject_cases [OF t(1), of a]) auto
    note eq1 = view_eqD [OF reads_view [OF t1(2)]]
    have "acct_of (backing s) (a \<in> stateObjectsDestruct s) (g ob2) = acct_in s ob"
      using t1(4,5) eq1 bd by (intro restore) simp_all
    then have "view (setStateObject (g ob2) t1) = bump a (view s)"
      using t1 g eq1 bd o(4,5) reads_view [OF t1(2)]
      by (simp add: view_setStateObject' t(2) v unbump_set_acct flip: bump_set_acct)
        (simp add: bump_set_acct set_acct_idem)
    moreover have "erv (setStateObject (g ob2) t1) = erv t"
      using t1(2) by (simp add: erv_def setStateObject_def reads_def jr_def)
    moreover have "view_dirties (sdb_journal t1) = view_dirties (sdb_journal t)"
      using eq1 by simp
    ultimately show "\<exists>t1. revert_entry e t = Some t1 \<and> sdb_ok t1 \<and> erv t1 = erv t \<and>
        view_dirties (sdb_journal t1) = view_dirties (sdb_journal t) \<and>
        (case dirtied e of None \<Rightarrow> view t1 | Some a \<Rightarrow> unbump a (view t1)) = view s"
      using rev [OF t1(1)] e sdb_ok_setStateObject [OF t1(3)] by simp
  qed (use ok in \<open>simp_all add: s'_def setStateObject_def\<close>)
qed


section \<open>Creating accounts\<close>

definition fresh_acct :: "'tr backing \<Rightarrow> bool \<Rightarrow> Address \<Rightarrow> acct" where
  "fresh_acct bk d a = acct_of bk d (newObject (bk_db bk) a zeroAccount)"

text \<open>
  An address without any object becomes a fresh account; an account that is overwritten is
  marked as destructed in this block, which hides its stored slots.
\<close>

definition create_acct :: "Address \<Rightarrow> 'tr sview \<Rightarrow> 'tr sview" where
  "create_acct a v =
     (case v_accts v a of
        None \<Rightarrow> bump a (set_acct a (fresh_acct (v_backing v) (a \<in> v_destruct v) a) v)
      | Some x \<Rightarrow>
          (set_acct a (fresh_acct (v_backing v) True a) v)\<lparr>v_destruct := insert a (v_destruct v)\<rparr>)"

lemma view_set_destruct_object:
  assumes "so_address ob = a" "\<And>b. b \<noteq> a \<Longrightarrow> b \<in> D \<longleftrightarrow> b \<in> stateObjectsDestruct s"
  shows "view ((setStateObject ob s)\<lparr>stateObjectsDestruct := D\<rparr>) =
    (set_acct a (acct_of (backing s) (a \<in> D) ob) (view s))\<lparr>v_destruct := D\<rparr>"
proof -
  let ?s = "(setStateObject ob s)\<lparr>stateObjectsDestruct := D\<rparr>"
  have b: "backing ?s = backing s" by (simp add: backing_def setStateObject_def)
  have "the_object ?s b = (if b = a then Some ob else the_object s b)" for b
    using the_object_eq [of ?s "setStateObject ob s" b] assms(1)
    by (auto simp: the_object_setStateObject backing_def)
  then have "view_accts ?s = (view_accts s)(a \<mapsto> acct_of (backing s) (a \<in> D) ob)"
    using assms(2) b by (auto simp: fun_eq_iff view_accts_def)
  moreover have "view_logs ?s = view_logs s" by (rule view_logs_eq) (simp add: setStateObject_def)
  ultimately show ?thesis
    using b by (simp add: view_def set_acct_def) (simp add: setStateObject_def)
qed

lemma setStateObject_swap:
  "setStateObject ob (s\<lparr>stateObjectsDestruct := D\<rparr>) =
     (setStateObject ob s)\<lparr>stateObjectsDestruct := D\<rparr>"
  by (simp add: setStateObject_def)

lemma setStateObject_idem: "stateObjects s (so_address ob) = Some ob \<Longrightarrow> setStateObject ob s = s"
  by (simp add: setStateObject_def fun_upd_idem)

lemma sdb_ok_set_destruct: "sdb_ok (s\<lparr>stateObjectsDestruct := D\<rparr>) = sdb_ok s"
  by (simp add: sdb_ok_def)

lemma view_delete_object:
  assumes "stored_account s a = None"
  shows "view (s\<lparr>stateObjects := (stateObjects s)(a := None),
      stateObjectsDirty := stateObjectsDirty s - {a}\<rparr>) =
    (view s)\<lparr>v_accts := (view_accts s)(a := None), v_dirty := stateObjectsDirty s - {a}\<rparr>"
proof -
  let ?s = "s\<lparr>stateObjects := (stateObjects s)(a := None),
      stateObjectsDirty := stateObjectsDirty s - {a}\<rparr>"
  have b: "backing ?s = backing s" by (simp add: backing_def)
  have "the_object ?s c = (if c = a then None else the_object s c)" for c
    using assms stored_account_backing [OF b, of c]
    by (cases "c = a") (simp_all add: the_object_def split: option.split)
  then have "view_accts ?s = (view_accts s)(a := None)"
    using b by (simp add: fun_eq_iff view_accts_def)
  moreover have "view_logs ?s = view_logs s" by (rule view_logs_eq) simp
  ultimately show ?thesis using b by (simp add: view_def)
qed

text \<open>Reverting a creation forgets the object, reverting a reset puts the old one back.\<close>

lemma evolves_create:
  assumes ok: "sdb_ok s" and no: "the_object s a = None" and ob: "so_address ob = a"
  defines "s' \<equiv> setStateObject ob (journal_append (createObjectChange a) s)"
  shows "evolves s s'" "view s' = bump a (set_acct a (acct_in s ob) (view s))"
proof -
  show v: "view s' = bump a (set_acct a (acct_in s ob) (view s))"
    using ob by (simp add: s'_def view_setStateObject' view_journal_append bump_set_acct)
  have nod: "a \<notin> stateObjectsPending s" "a \<notin> stateObjectsDirty s" "stored_account s a = None"
    using ok no by (auto simp: sdb_ok_def the_object_def split: option.splits)
  show "evolves s s'"
  proof (rule evolves_step [of s' s "createObjectChange a"])
    fix t assume t: "sdb_ok t" "view t = view s'"
    note eq = view_eqD [OF t(2)]
    have st: "stored_account t a = None"
      using nod(3) stored_account_backing [of t s a] eq(2) by (simp add: s'_def)
    let ?t = "t\<lparr>stateObjects := (stateObjects t)(a := None),
      stateObjectsDirty := stateObjectsDirty t - {a}\<rparr>"
    have "stateObjectsPending t = stateObjectsPending s" "stateObjectsDirty t = stateObjectsDirty s"
      using eq(4,5) by (simp_all add: s'_def setStateObject_def journal_append_def Let_def)
    then have "sdb_ok ?t" using t(1) nod by (auto simp: sdb_ok_def)
    moreover have "unbump a (view ?t) = view s"
    proof -
      have "view_accts s a = None" using no by (simp add: view_accts_def)
      moreover have "stateObjectsDirty t - {a} = stateObjectsDirty s"
        using nod \<open>stateObjectsDirty t = stateObjectsDirty s\<close> by simp
      ultimately show ?thesis
        using eq(1) unfolding view_delete_object [OF st] t(2) v
        by (simp add: set_acct_def unbump_def bump_def s'_def view_accts_setStateObject ob
            fun_upd_idem)
    qed
    ultimately show "\<exists>t1. revert_entry (createObjectChange a) t = Some t1 \<and> sdb_ok t1 \<and>
        erv t1 = erv t \<and> view_dirties (sdb_journal t1) = view_dirties (sdb_journal t) \<and>
        (case dirtied (createObjectChange a) of None \<Rightarrow> view t1 | Some a \<Rightarrow> unbump a (view t1)) = view s"
      by (simp add: erv_def)
  next
    fix b assume "dirtied (createObjectChange a) = Some b" "b \<noteq> ripemd"
    with view_dirties_bumped [OF ok] show "0 < view_dirties (sdb_journal s') b"
      by (simp add: s'_def)
  qed (use ok in \<open>simp_all add: s'_def sdb_ok_setStateObject sdb_ok_journal_append\<close>)
qed

lemma evolves_reset:
  assumes ok: "sdb_ok s" and p: "stateObjects s a = Some p" and ob: "so_address ob = a"
  defines "pd \<equiv> (a \<in> stateObjectsDestruct s)"
  defines "s' \<equiv> (setStateObject ob (journal_append (resetObjectChange p pd) s))
    \<lparr>stateObjectsDestruct := insert a (stateObjectsDestruct s)\<rparr>"
  shows "evolves s s'" "view s' = (set_acct a (acct_of (backing s) True ob) (view s))
    \<lparr>v_destruct := insert a (stateObjectsDestruct s)\<rparr>"
proof -
  have pa: "so_address p = a" using ok p by (simp add: sdb_ok_def)
  show v: "view s' = (set_acct a (acct_of (backing s) True ob) (view s))
    \<lparr>v_destruct := insert a (stateObjectsDestruct s)\<rparr>"
    using view_set_destruct_object [OF ob, of "insert a (stateObjectsDestruct s)"
        "journal_append (resetObjectChange p pd) s"]
    by (simp add: s'_def view_journal_append)
  show "evolves s s'"
  proof (rule evolves_step [of s' s "resetObjectChange p pd"])
    fix t assume t: "sdb_ok t" "view t = view s'"
    note eq = view_eqD [OF t(2)]
    have bd: "backing t = backing s" "stateObjectsDestruct t = insert a (stateObjectsDestruct s)"
      using eq(2,3) by (simp_all add: s'_def backing_def setStateObject_def journal_append_def Let_def)
    let ?D = "if pd then stateObjectsDestruct t else stateObjectsDestruct t - {a}"
    let ?t = "(setStateObject p t)\<lparr>stateObjectsDestruct := ?D\<rparr>"
    have D: "?D = stateObjectsDestruct s" using bd(2) by (auto simp: pd_def)
    have "view ?t = (set_acct a (acct_of (backing t) (a \<in> ?D) p) (view t))\<lparr>v_destruct := ?D\<rparr>"
      by (rule view_set_destruct_object [OF pa]) simp
    also have "\<dots> = view s"
    proof -
      have "view_accts s a = Some (acct_of (backing s) (a \<in> stateObjectsDestruct s) p)"
        by (simp add: view_accts_def the_object_def p)
      then show ?thesis unfolding D t(2) v bd(1)
        by (simp add: set_acct_def fun_upd_idem)
    qed
    finally have "view ?t = view s" .
    moreover have "revert_entry (resetObjectChange p pd) t = Some ?t"
      by (simp add: pa Let_def setStateObject_def)
    moreover have "sdb_ok ?t" "erv ?t = erv t"
      using t(1) by (simp_all add: sdb_ok_set_destruct sdb_ok_setStateObject)
        (simp add: erv_def setStateObject_def)
    ultimately show "\<exists>t1. revert_entry (resetObjectChange p pd) t = Some t1 \<and> sdb_ok t1 \<and>
        erv t1 = erv t \<and> view_dirties (sdb_journal t1) = view_dirties (sdb_journal t) \<and>
        (case dirtied (resetObjectChange p pd) of None \<Rightarrow> view t1 | Some a \<Rightarrow> unbump a (view t1)) =
          view s"
      by (simp del: revert_entry.simps)
  qed (use ok in \<open>simp_all add: s'_def sdb_ok_set_destruct sdb_ok_setStateObject
        sdb_ok_journal_append\<close>)
qed

end
