(* ===== verification/StateDB_Setters.thy ===== *)
theory StateDB_Setters
  imports StateDB_Revert
begin

text \<open>
  Every setter of the state database: what it does to the view, and that its change can be
  undone.
\<close>

section \<open>Creation\<close>

lemma view_accts_None: "view_accts s a = None \<longleftrightarrow> the_object s a = None"
  by (simp add: view_accts_def)

lemma createObject_spec:
  assumes ok: "sdb_ok s"
  obtains nb prev s' where "createObject a s = ((nb, prev), s')"
    "nb = newObject (sdb_db s) a zeroAccount" "has_object s' a nb"
    "view s' = create_acct a (view s)"
    "\<And>ob'. so_address ob' = a \<Longrightarrow> evolves s (setStateObject ob' s')"
    "map_option (\<lambda>p. Balance (so_data p)) prev = map_option a_balance (live_acct (view s) a)"
proof -
  obtain r s1 where g: "getDeletedStateObject a s = (r, s1)" by fastforce
  note rd = getDeletedStateObject_reads [OF ok, of a, unfolded g fst_conv snd_conv]
  have ok1: "sdb_ok s1" using rd(2) ok by (rule reads_ok)
  note v1 = reads_view [OF rd(2)] and eq1 = view_eqD [OF reads_view [OF rd(2)]]
  have db: "sdb_db s1 = sdb_db s" "bk_db (backing s) = sdb_db s"
    using eq1(2) by (simp_all add: backing_def)
  let ?nb = "newObject (sdb_db s) a zeroAccount"
  show ?thesis
  proof (cases r)
    case None
    let ?s = "\<lambda>ob. setStateObject ob (journal_append (createObjectChange a) s1)"
    have no: "the_object s1 a = None" "view_accts s a = None"
      using eq1(1) rd(1) None view_accts_None by metis+
    note ev = evolves_create [OF ok1 no(1)]
    have "createObject a s = ((?nb, None), ?s ?nb)"
      by (simp add: createObject_def g None Let_def)
    moreover have "has_object (?s ?nb) a ?nb"
      using ok1 by (simp add: has_object_def sdb_ok_setStateObject sdb_ok_journal_append)
        (simp add: setStateObject_def)
    moreover have "view (?s ?nb) = create_acct a (view s)"
      using ev(2) [of ?nb] no(2) v1 eq1(2,3) db by (simp add: create_acct_def fresh_acct_def)
    moreover have "evolves s (setStateObject ob' (?s ?nb))" if "so_address ob' = a" for ob'
    proof -
      have "setStateObject ob' (?s ?nb) = ?s ob'" using that by (simp add: setStateObject_def)
      with ev(1) [OF that] evolves_reads [OF ok rd(2)] show ?thesis by (metis evolves_trans)
    qed
    moreover have "live_acct (view s) a = None" using no(2) by (simp add: live_acct_def)
    ultimately show ?thesis by (intro that) simp_all
  next
    case (Some p)
    have p: "stateObjects s1 a = Some p" "so_address p = a"
      using rd(1) rd(3) [of p] Some ok1 by (auto simp: sdb_ok_def)
    define pd where "pd = (a \<in> stateObjectsDestruct s1)"
    let ?s = "\<lambda>ob. (setStateObject ob (journal_append (resetObjectChange p pd) s1))
      \<lparr>stateObjectsDestruct := insert a (stateObjectsDestruct s1)\<rparr>"
    note ev = evolves_reset [OF ok1 p(1), folded pd_def]
    have c: "createObject a s = ((?nb, if deleted p then None else Some p), ?s ?nb)"
      by (cases "a \<in> stateObjectsDestruct s1")
        (simp_all add: createObject_def g Some p(2) pd_def Let_def setStateObject_def
          journal_append_def insert_absorb)
    have "has_object (?s ?nb) a ?nb"
      using ok1 by (simp add: has_object_def sdb_ok_set_destruct sdb_ok_setStateObject
          sdb_ok_journal_append) (simp add: setStateObject_def)
    moreover have to: "the_object s a = Some p" using rd(1) Some by simp
    then have "v_accts (view s) a \<noteq> None" by (simp add: view_accts_def)
    then have "view (?s ?nb) = create_acct a (view s)"
      using ev(2) [of ?nb] v1 eq1(2,3) db by (auto simp: create_acct_def fresh_acct_def)
    moreover have "evolves s (setStateObject ob' (?s ?nb))" if "so_address ob' = a" for ob'
    proof -
      have "setStateObject ob' (?s ?nb) = ?s ob'" using that by (simp add: setStateObject_def)
      with ev(1) [OF that] evolves_reads [OF ok rd(2)] show ?thesis by (metis evolves_trans)
    qed
    moreover have "map_option (\<lambda>p. Balance (so_data p)) (if deleted p then None else Some p) =
        map_option a_balance (live_acct (view s) a)"
      using to by (simp add: live_acct_def view_accts_def acct_of_def)
    ultimately show ?thesis using c by (intro that) simp_all
  qed
qed

definition get_or_new :: "Address \<Rightarrow> 'tr sview \<Rightarrow> 'tr sview" where
  "get_or_new a v = (case live_acct v a of None \<Rightarrow> create_acct a v | Some x \<Rightarrow> v)"

lemma GetOrNew_spec:
  assumes ok: "sdb_ok s"
  obtains ob s' where "GetOrNewStateObject a s = (ob, s')" "has_object s' a ob"
    "view s' = get_or_new a (view s)" "evolves s s'"
proof (rule getStateObject_cases [OF ok, of a])
  fix s1 assume g: "getStateObject a s = (None, s1)" "reads s s1" "sdb_ok s1"
    "live_acct (view s) a = None"
  from createObject_spec [OF g(3), of a] obtain nb prev s' where
    c: "createObject a s1 = ((nb, prev), s')" "has_object s' a nb"
      "view s' = create_acct a (view s1)" "evolves s1 (setStateObject nb s')"
    by (metis has_objectD(4))
  have "evolves s s'"
    using c(4) has_objectD(2,4) [OF c(2)] evolves_reads [OF ok g(2)]
    by (metis setStateObject_idem evolves_trans)
  with that c g reads_view [OF g(2)] show ?thesis
    by (simp add: GetOrNewStateObject_def get_or_new_def)
next
  fix ob s1 assume g: "getStateObject a s = (Some ob, s1)" "reads s s1" "sdb_ok s1"
    "stateObjects s1 a = Some ob" "\<not> deleted ob"
    "live_acct (view s) a = Some (acct_of (backing s1) (a \<in> stateObjectsDestruct s1) ob)"
  with that evolves_reads [OF ok g(2)] reads_view [OF g(2)] show ?thesis
    by (simp add: GetOrNewStateObject_def get_or_new_def has_object_def)
qed

text \<open>The balance of an overwritten account is carried over.\<close>

definition v_CreateAccount :: "Address \<Rightarrow> 'tr sview \<Rightarrow> 'tr sview" where
  "v_CreateAccount a v =
     (let v1 = create_acct a v
      in case live_acct v a of
           None \<Rightarrow> v1
         | Some x \<Rightarrow> set_acct a ((the (v_accts v1 a))\<lparr>a_balance := a_balance x\<rparr>) v1)"

lemma CreateAccount_spec:
  assumes ok: "sdb_ok s"
  shows "evolves s (CreateAccount a s)" "view (CreateAccount a s) = v_CreateAccount a (view s)"
proof -
  from createObject_spec [OF ok, of a] obtain nb prev s' where
    c: "createObject a s = ((nb, prev), s')" "has_object s' a nb"
      "view s' = create_acct a (view s)"
      "\<And>ob'. so_address ob' = a \<Longrightarrow> evolves s (setStateObject ob' s')"
      "map_option (\<lambda>p. Balance (so_data p)) prev = map_option a_balance (live_acct (view s) a)"
    by metis
  note o = has_objectD [OF c(2)]
  have "evolves s (CreateAccount a s) \<and> view (CreateAccount a s) = v_CreateAccount a (view s)"
  proof (cases prev)
    case None
    with c(5) have "live_acct (view s) a = None" by simp
    moreover have "evolves s s'" using c(4) [of nb] o by (simp add: setStateObject_idem)
    ultimately show ?thesis using None c(1,3) by (simp add: CreateAccount_def v_CreateAccount_def)
  next
    case (Some p)
    with c(5) obtain x where x: "live_acct (view s) a = Some x" "a_balance x = Balance (so_data p)"
      by (cases "live_acct (view s) a") auto
    let ?ob = "obj_setBalance (Balance (so_data p)) nb"
    have "evolves s (setStateObject ?ob s')" using c(4) [of ?ob] o(4) by simp
    moreover have "v_accts (create_acct a (view s)) a = Some (acct_in s' nb)"
      using o(5) by (simp flip: c(3))
    then have "view (setStateObject ?ob s') = v_CreateAccount a (view s)"
      using x o(4) by (simp add: view_setStateObject' v_CreateAccount_def c(3))
    ultimately show ?thesis using Some c(1) by (simp add: CreateAccount_def)
  qed
  then show "evolves s (CreateAccount a s)" "view (CreateAccount a s) = v_CreateAccount a (view s)"
    by simp_all
qed


section \<open>Account setters\<close>

definition modify_acct :: "Address \<Rightarrow> (acct \<Rightarrow> acct) \<Rightarrow> 'tr sview \<Rightarrow> 'tr sview" where
  "modify_acct a f v =
     (let v1 = get_or_new a v in bump a (set_acct a (f (the (v_accts v1 a))) v1))"

text \<open>
  \<open>obj_step a f F\<close>: running the object method \<open>f\<close> on the live object of \<open>a\<close> and writing the
  object back is a journalled change that acts on the view as \<open>F\<close>.
\<close>

definition write_object :: "'tr stateObject \<times> 'tr StateDB \<Rightarrow> 'tr StateDB" where
  "write_object r = setStateObject (fst r) (snd r)"

definition obj_step ::
  "Address \<Rightarrow> ('tr stateObject \<Rightarrow> 'tr StateDB \<Rightarrow> 'tr stateObject \<times> 'tr StateDB) \<Rightarrow>
   ('tr sview \<Rightarrow> 'tr sview) \<Rightarrow> bool" where
  "obj_step a f F \<longleftrightarrow>
     (\<forall>ob s. has_object s a ob \<longrightarrow>
        evolves s (write_object (f ob s)) \<and> view (write_object (f ob s)) = F (view s))"

lemma obj_stepD:
  assumes "obj_step a f F" "has_object s a ob"
  shows "evolves s (write_object (f ob s))" "view (write_object (f ob s)) = F (view s)"
  using assms by (simp_all add: obj_step_def)

lemma GetOrNew_step:
  assumes ok: "sdb_ok s" and step: "obj_step a f F"
    and op: "op = (let (ob, s1) = GetOrNewStateObject a s; (ob1, s2) = f ob s1
                   in setStateObject ob1 s2)"
  shows "evolves s op" "view op = F (get_or_new a (view s))"
proof -
  from GetOrNew_spec [OF ok, of a] obtain ob s1 where g: "GetOrNewStateObject a s = (ob, s1)"
    "has_object s1 a ob" "view s1 = get_or_new a (view s)" "evolves s s1" by metis
  have op': "op = write_object (f ob s1)"
    by (simp add: op g(1) write_object_def case_prod_beta)
  show "evolves s op" "view op = F (get_or_new a (view s))"
    using step g(2-4) unfolding obj_step_def op' by (auto intro: evolves_trans)
qed

text \<open>One journalled object change, in the form the object methods have.\<close>

lemma object_change:
  assumes ob: "has_object s a ob" and ob': "so_address ob' = a" "\<not> deleted ob'"
    and e: "dirtied e = Some a"
    and rev: "\<And>t. revert_entry e t = with_object a g t"
    and g: "\<And>ob2. so_address (g ob2) = so_address ob2"
    and restore: "\<And>ob2. so_address ob2 = a \<Longrightarrow> acct_in s ob2 = acct_in s ob' \<Longrightarrow>
      acct_of (backing s) (a \<in> stateObjectsDestruct s) (g ob2) = acct_in s ob"
    and f: "acct_in s ob' = f (acct_in s ob)"
  shows "evolves s (write_object (ob', journal_append e s)) \<and>
    view (write_object (ob', journal_append e s)) =
      bump a (set_acct a (f (the (v_accts (view s) a))) (view s))"
proof -
  note ev = evolves_object [OF ob ob' e, of g, OF _ g restore]
  have r: "revert_entry e t = Some (setStateObject (g ob2) t1)"
    if "getStateObject a t = (Some ob2, t1)" for t ob2 t1
    using that by (simp add: rev with_object_def)
  have "the (v_accts (view s) a) = acct_in s ob" using has_objectD(5) [OF ob] by simp
  with ev(1,3) [OF r] f show ?thesis by (simp add: write_object_def)
qed

lemma obj_SetBalance_step:
  "obj_step a (\<lambda>ob. obj_SetBalance ob x)
     (\<lambda>v. bump a (set_acct a ((the (v_accts v a))\<lparr>a_balance := x\<rparr>) v))"
  unfolding obj_step_def obj_SetBalance_def
proof (intro allI impI)
  fix ob and s :: "'tr StateDB" assume h: "has_object s a ob"
  note o = has_objectD [OF h]
  let ?e = "balanceChange (so_address ob) (Balance (so_data ob))"
  have "a_balance (acct_in s ob) = Balance (so_data ob)" by (simp add: acct_of_def)
  then show "evolves s (write_object (obj_setBalance x ob, journal_append ?e s)) \<and>
      view (write_object (obj_setBalance x ob, journal_append ?e s)) =
        bump a (set_acct a ((the (v_accts (view s) a))\<lparr>a_balance := x\<rparr>) (view s))"
    using o by (intro object_change [OF h, where g = "obj_setBalance (Balance (so_data ob))"
          and f = "\<lambda>c. c\<lparr>a_balance := x\<rparr>"]) simp_all
qed

lemma SetBalance_spec:
  assumes ok: "sdb_ok s"
  shows "evolves s (SetBalance a x s)"
    "view (SetBalance a x s) = modify_acct a (\<lambda>c. c\<lparr>a_balance := x\<rparr>) (view s)"
  using GetOrNew_step [OF ok obj_SetBalance_step, of "SetBalance a x s" a x]
  by (simp_all add: SetBalance_def modify_acct_def Let_def)


lemma obj_SetNonce_step:
  "obj_step a (\<lambda>ob. obj_SetNonce ob n)
     (\<lambda>v. bump a (set_acct a ((the (v_accts v a))\<lparr>a_nonce := n\<rparr>) v))"
  unfolding obj_step_def obj_SetNonce_def
proof (intro allI impI)
  fix ob and s :: "'tr StateDB" assume h: "has_object s a ob"
  note o = has_objectD [OF h]
  let ?e = "nonceChange (so_address ob) (Nonce (so_data ob))"
  have "a_nonce (acct_in s ob) = Nonce (so_data ob)" by (simp add: acct_of_def)
  then show "evolves s (write_object (obj_setNonce n ob, journal_append ?e s)) \<and>
      view (write_object (obj_setNonce n ob, journal_append ?e s)) =
        bump a (set_acct a ((the (v_accts (view s) a))\<lparr>a_nonce := n\<rparr>) (view s))"
    using o by (intro object_change [OF h, where g = "obj_setNonce (Nonce (so_data ob))"
          and f = "\<lambda>c. c\<lparr>a_nonce := n\<rparr>"]) simp_all
qed

lemma SetNonce_spec:
  assumes ok: "sdb_ok s"
  shows "evolves s (SetNonce a n s)"
    "view (SetNonce a n s) = modify_acct a (\<lambda>c. c\<lparr>a_nonce := n\<rparr>) (view s)"
  using GetOrNew_step [OF ok obj_SetNonce_step, of "SetNonce a n s" a n]
  by (simp_all add: SetNonce_def modify_acct_def Let_def)

text \<open>\<open>touch\<close> only marks the account as dirty.\<close>

lemma touch_spec:
  assumes ok: "sdb_ok s"
  shows "evolves s (touch ob s)" "view (touch ob s) = bump (so_address ob) (view s)"
    "stateObjects (touch ob s) = stateObjects s"
proof -
  let ?e = "touchChange (so_address ob)" and ?a = "so_address ob"
  have v: "view (touch ob s) = bump ?a (view s)"
  proof (cases "?a = ripemd")
    case True
    have "view_dirties (journal_dirty ripemd j) = view_dirties j" for j :: "'a journal"
      by (auto simp: fun_eq_iff view_dirties_def dirty_count_dirty)
    then have "view (s1\<lparr>sdb_journal := journal_dirty ripemd (sdb_journal s1)\<rparr>) = view s1"
      for s1 :: "'a StateDB"
      by (simp add: view_set_journal)
    with True show ?thesis by (simp add: touch_def Let_def view_journal_append)
  next
    case False
    then show ?thesis by (simp add: touch_def Let_def view_journal_append)
  qed
  then show "view (touch ob s) = bump ?a (view s)" .
  show "stateObjects (touch ob s) = stateObjects s"
    by (simp add: touch_def Let_def)
  have "sdb_ok (touch ob s)"
    using sdb_ok_journal_append [OF ok, of ?e]
    by (auto simp: touch_def Let_def sdb_ok_def journal_dirty_def)
  then show "evolves s (touch ob s)"
  proof (rule evolves_step [of _ s ?e])
    fix t assume "sdb_ok t" "view t = view (touch ob s)"
    then show "\<exists>t1. revert_entry ?e t = Some t1 \<and> sdb_ok t1 \<and> erv t1 = erv t \<and>
        view_dirties (sdb_journal t1) = view_dirties (sdb_journal t) \<and>
        (case dirtied ?e of None \<Rightarrow> view t1 | Some a \<Rightarrow> unbump a (view t1)) = view s"
      by (simp add: v)
  next
    fix b assume "dirtied ?e = Some b" "b \<noteq> ripemd"
    with view_dirties_bumped [OF ok, of ?e b]
    show "0 < view_dirties (sdb_journal (touch ob s)) b"
      by (simp add: touch_def Let_def)
  qed (simp_all add: touch_def Let_def)
qed

text \<open>Adding zero touches an empty account and does nothing else.\<close>

definition v_AddBalance :: "Address \<Rightarrow> int \<Rightarrow> 'tr sview \<Rightarrow> 'tr sview" where
  "v_AddBalance a x v =
     (if x = 0 then
        (let v1 = get_or_new a v
         in if acct_empty (bk_db (v_backing v1)) (the (v_accts v1 a)) then bump a v1 else v1)
      else modify_acct a (\<lambda>c. c\<lparr>a_balance := a_balance c + x\<rparr>) v)"

lemma write_object_same: "has_object s a ob \<Longrightarrow> write_object (ob, s) = s"
  using has_objectD(2,4) [of s a ob] by (simp add: write_object_def setStateObject_idem)

lemma balance_in: "has_object s a ob \<Longrightarrow> Balance (so_data ob) = a_balance (the (v_accts (view s) a))"
  using has_objectD(5) [of s a ob] by (simp add: acct_of_def)

lemma obj_AddBalance_step:
  "obj_step a (\<lambda>ob. obj_AddBalance ob x)
     (\<lambda>v. if x = 0 then if acct_empty (bk_db (v_backing v)) (the (v_accts v a)) then bump a v else v
          else bump a (set_acct a ((the (v_accts v a))\<lparr>a_balance := a_balance (the (v_accts v a)) + x\<rparr>) v))"
  unfolding obj_step_def
proof (intro allI impI)
  fix ob and s :: "'tr StateDB" assume h: "has_object s a ob"
  note o = has_objectD [OF h]
  have db: "bk_db (backing s) = sdb_db s" by (simp add: backing_def)
  have tw: "write_object (ob, touch ob s) = touch ob s"
    using o touch_spec(3) [OF o(1), of ob] by (simp add: write_object_def setStateObject_idem)
  show "evolves s (write_object (obj_AddBalance ob x s)) \<and> view (write_object (obj_AddBalance ob x s)) =
      (if x = 0 then if acct_empty (bk_db (v_backing (view s))) (the (v_accts (view s) a))
          then bump a (view s) else view s
       else bump a (set_acct a ((the (v_accts (view s) a))\<lparr>a_balance :=
          a_balance (the (v_accts (view s) a)) + x\<rparr>) (view s)))"
  proof (cases "x = 0")
    case True
    with o tw touch_spec [OF o(1), of ob] write_object_same [OF h] evolves_refl [OF o(1)]
    show ?thesis by (simp add: obj_AddBalance_def acct_empty_of db)
  next
    case False
    with obj_stepD [OF obj_SetBalance_step h] balance_in [OF h] show ?thesis
      by (simp add: obj_AddBalance_def)
  qed
qed

lemma AddBalance_spec:
  assumes ok: "sdb_ok s"
  shows "evolves s (AddBalance a x s)" "view (AddBalance a x s) = v_AddBalance a x (view s)"
  using GetOrNew_step [OF ok obj_AddBalance_step, of "AddBalance a x s" a x]
  by (simp_all add: AddBalance_def v_AddBalance_def modify_acct_def Let_def)

definition v_SubBalance :: "Address \<Rightarrow> int \<Rightarrow> 'tr sview \<Rightarrow> 'tr sview" where
  "v_SubBalance a x v =
     (if x = 0 then get_or_new a v
      else modify_acct a (\<lambda>c. c\<lparr>a_balance := a_balance c - x\<rparr>) v)"

lemma obj_SubBalance_step:
  "obj_step a (\<lambda>ob. obj_SubBalance ob x)
     (\<lambda>v. if x = 0 then v
          else bump a (set_acct a ((the (v_accts v a))\<lparr>a_balance := a_balance (the (v_accts v a)) - x\<rparr>) v))"
  unfolding obj_step_def
proof (intro allI impI)
  fix ob and s :: "'tr StateDB" assume h: "has_object s a ob"
  note o = has_objectD [OF h]
  show "evolves s (write_object (obj_SubBalance ob x s)) \<and> view (write_object (obj_SubBalance ob x s)) =
      (if x = 0 then view s
       else bump a (set_acct a ((the (v_accts (view s) a))\<lparr>a_balance :=
          a_balance (the (v_accts (view s) a)) - x\<rparr>) (view s)))"
  proof (cases "x = 0")
    case True
    with write_object_same [OF h] evolves_refl [OF o(1)] show ?thesis
      by (simp add: obj_SubBalance_def)
  next
    case False
    with obj_stepD [OF obj_SetBalance_step h] balance_in [OF h] show ?thesis
      by (simp add: obj_SubBalance_def)
  qed
qed

lemma SubBalance_spec:
  assumes ok: "sdb_ok s"
  shows "evolves s (SubBalance a x s)" "view (SubBalance a x s) = v_SubBalance a x (view s)"
  using GetOrNew_step [OF ok obj_SubBalance_step, of "SubBalance a x s" a x]
  by (simp_all add: SubBalance_def v_SubBalance_def modify_acct_def Let_def)


text \<open>A change that follows a caching read of the object.\<close>

lemma write_through:
  "so_address ob' = so_address ob1 \<Longrightarrow>
   write_object (ob', journal_append e (setStateObject ob1 s)) = write_object (ob', journal_append e s)"
  by (simp add: write_object_def setStateObject_def journal_append_def Let_def)

lemma has_object_cached:
  assumes h: "has_object s a ob" and s1: "s1 = s \<or> (\<exists>e. s1 = setError e s)"
    and ob1: "so_address ob1 = so_address ob" "acct_in s ob1 = acct_in s ob"
  shows "has_object (setStateObject ob1 s1) a ob1" "reads s (setStateObject ob1 s1)"
    "acct_in (setStateObject ob1 s1) ob1 = acct_in s ob"
proof -
  note o = has_objectD [OF h]
  show r: "reads s (setStateObject ob1 s1)"
    using o ob1 s1 by (intro reads_cached [OF reads_refl, where a = a]) simp_all
  have "deleted ob1 = deleted ob" using ob1(2) by (simp add: acct_of_def)
  with reads_ok [OF r o(1)] o ob1 s1 show "has_object (setStateObject ob1 s1) a ob1"
    by (auto simp: has_object_def setStateObject_def)
  show "acct_in (setStateObject ob1 s1) ob1 = acct_in s ob"
    using s1 ob1 by auto
qed

lemma obj_SetState_step:
  "obj_step a (\<lambda>ob. obj_SetState ob key val)
     (\<lambda>v. let x = the (v_accts v a)
          in if a_storage x key = val then v
             else bump a (set_acct a (x\<lparr>a_storage := (a_storage x)(key := val)\<rparr>) v))"
  unfolding obj_step_def
proof (intro allI impI)
  fix ob and s :: "'tr StateDB" assume h: "has_object s a ob"
  note o = has_objectD [OF h]
  obtain prev ob1 s1 where g: "obj_GetState ob key s = (prev, ob1, s1)" by (metis prod_cases3)
  from obj_GetState_acct [OF g refl] have p: "prev = a_storage (acct_in s ob) key"
    and ob1: "acct_in s ob1 = acct_in s ob" "so_address ob1 = so_address ob"
    and s1: "s1 = s \<or> (\<exists>e. s1 = setError e s)" by auto
  let ?s2 = "setStateObject ob1 s1"
  note c = has_object_cached [OF h s1 ob1(2,1)]
  note v2 = reads_view [OF c(2)] and ev2 = evolves_reads [OF o(1) c(2)]
  have x: "the (v_accts (view s) a) = acct_in s ob" using o(5) by simp
  let ?F = "\<lambda>v. let x = the (v_accts v a)
    in if a_storage x key = val then v
       else bump a (set_acct a (x\<lparr>a_storage := (a_storage x)(key := val)\<rparr>) v)"
  show "evolves s (write_object (obj_SetState ob key val s)) \<and>
      view (write_object (obj_SetState ob key val s)) = ?F (view s)"
  proof (cases "prev = val")
    case True
    then have "write_object (obj_SetState ob key val s) = ?s2"
      by (simp add: obj_SetState_def g write_object_def)
    with True v2 ev2 x p show ?thesis by (simp add: Let_def)
  next
    case False
    let ?e = "storageChange (so_address ob1) key prev"
    have "write_object (obj_SetState ob key val s) =
        write_object (obj_setState key val ob1, journal_append ?e ?s2)"
      using False by (simp add: obj_SetState_def g write_through)
    moreover have "evolves ?s2 (write_object (obj_setState key val ob1, journal_append ?e ?s2)) \<and>
      view (write_object (obj_setState key val ob1, journal_append ?e ?s2)) =
        bump a (set_acct a ((\<lambda>x. x\<lparr>a_storage := (a_storage x)(key := val)\<rparr>)
          (the (v_accts (view ?s2) a))) (view ?s2))"
      using has_objectD [OF c(1)] c(3) p
      by (intro object_change [OF c(1), where g = "obj_setState key prev"
            and f = "\<lambda>x. x\<lparr>a_storage := (a_storage x)(key := val)\<rparr>"]) simp_all
    ultimately show ?thesis
      using False evolves_trans [OF ev2] v2 x p by (simp add: Let_def)
  qed
qed

definition v_SetState :: "Address \<Rightarrow> Hash \<Rightarrow> Hash \<Rightarrow> 'tr sview \<Rightarrow> 'tr sview" where
  "v_SetState a key val v =
     (let v1 = get_or_new a v
      in if a_storage (the (v_accts v1 a)) key = val then v1
         else modify_acct a (\<lambda>x. x\<lparr>a_storage := (a_storage x)(key := val)\<rparr>) v)"

lemma SetState_spec:
  assumes ok: "sdb_ok s"
  shows "evolves s (SetState a key val s)"
    "view (SetState a key val s) = v_SetState a key val (view s)"
  using GetOrNew_step [OF ok obj_SetState_step, of "SetState a key val s" a key val]
  by (simp_all add: SetState_def v_SetState_def modify_acct_def Let_def)

lemma obj_SetCode_step:
  "obj_step a (\<lambda>ob. obj_SetCode ob h c)
     (\<lambda>v. bump a (set_acct a ((the (v_accts v a))\<lparr>a_codehash := h, a_code := c\<rparr>) v))"
  unfolding obj_step_def
proof (intro allI impI)
  fix ob and s :: "'tr StateDB" assume ho: "has_object s a ob"
  note o = has_objectD [OF ho]
  obtain prev ob1 s1 where g: "obj_Code ob s = (prev, ob1, s1)" by (metis prod_cases3)
  note C = obj_Code_acct [OF g, of "so_address ob \<in> stateObjectsDestruct s"]
  have ob1: "acct_in s ob1 = acct_in s ob" "so_address ob1 = so_address ob"
    and s1: "s1 = s \<or> (\<exists>e. s1 = setError e s)" using C by auto
  let ?s2 = "setStateObject ob1 s1" and ?e = "codeChange (so_address ob1) prev (CodeHash (so_data ob1))"
  note c2 = has_object_cached [OF ho s1 ob1(2,1)]
  note v2 = reads_view [OF c2(2)] and ev2 = evolves_reads [OF o(1) c2(2)]
  have bk: "backing ?s2 = backing s" using view_eqD(2) [OF v2] .
  have pc: "(case prev of Some b \<Rightarrow> b
      | None \<Rightarrow> stored_code (backing s) (so_addrHash ob) (CodeHash (so_data ob1))) =
      a_code (acct_in s ob)"
    using C by (cases prev) (auto simp: acct_of_def)
  have ah: "a_addrHash (acct_in s ob) = so_addrHash ob" "a_codehash (acct_in s ob) = CodeHash (so_data ob1)"
    using C by (simp_all add: acct_of_def)
  have "write_object (obj_SetCode ob h c s) = write_object (obj_setCode h (Some c) ob1, journal_append ?e ?s2)"
    by (simp add: obj_SetCode_def g write_through)
  moreover have "evolves ?s2 (write_object (obj_setCode h (Some c) ob1, journal_append ?e ?s2)) \<and>
    view (write_object (obj_setCode h (Some c) ob1, journal_append ?e ?s2)) =
      bump a (set_acct a ((\<lambda>x. x\<lparr>a_codehash := h, a_code := c\<rparr>) (the (v_accts (view ?s2) a))) (view ?s2))"
    using has_objectD [OF c2(1)] c2(3) pc ah bk
    by (intro object_change [OF c2(1), where g = "obj_setCode (CodeHash (so_data ob1)) prev"
          and f = "\<lambda>x. x\<lparr>a_codehash := h, a_code := c\<rparr>"]; cases prev; simp)
  ultimately show "evolves s (write_object (obj_SetCode ob h c s)) \<and>
      view (write_object (obj_SetCode ob h c s)) =
        bump a (set_acct a ((the (v_accts (view s) a))\<lparr>a_codehash := h, a_code := c\<rparr>) (view s))"
    using evolves_trans [OF ev2] v2 by simp
qed

lemma SetCode_spec:
  assumes ok: "sdb_ok s"
  shows "evolves s (SetCode a c s)"
    "view (SetCode a c s) =
       modify_acct a (\<lambda>x. x\<lparr>a_codehash := Keccak256Hash (sdb_db s) c, a_code := c\<rparr>) (view s)"
  using GetOrNew_step [OF ok obj_SetCode_step, of "SetCode a c s" a "Keccak256Hash (sdb_db s) c" c]
  by (simp_all add: SetCode_def modify_acct_def Let_def)

definition v_Suicide :: "Address \<Rightarrow> 'tr sview \<Rightarrow> 'tr sview" where
  "v_Suicide a v =
     (case live_acct v a of
        None \<Rightarrow> v
      | Some x \<Rightarrow> bump a (set_acct a (x\<lparr>a_suicided := True, a_balance := 0\<rparr>) v))"

lemma Suicide_spec:
  assumes ok: "sdb_ok s"
  shows "evolves s (snd (Suicide a s))" "view (snd (Suicide a s)) = v_Suicide a (view s)"
    "fst (Suicide a s) \<longleftrightarrow> live_acct (view s) a \<noteq> None"
proof -
  have "evolves s (snd (Suicide a s)) \<and> view (snd (Suicide a s)) = v_Suicide a (view s) \<and>
    (fst (Suicide a s) \<longleftrightarrow> live_acct (view s) a \<noteq> None)"
  proof (rule getStateObject_cases [OF ok, of a])
    fix s1 assume g: "getStateObject a s = (None, s1)" "reads s s1" "live_acct (view s) a = None"
    with evolves_reads [OF ok g(2)] reads_view [OF g(2)] show ?thesis
      by (simp add: Suicide_def v_Suicide_def)
  next
    fix ob s1 assume g: "getStateObject a s = (Some ob, s1)" "reads s s1" "sdb_ok s1"
      "stateObjects s1 a = Some ob" "\<not> deleted ob" "so_address ob = a"
      "live_acct (view s) a = Some (acct_of (backing s1) (a \<in> stateObjectsDestruct s1) ob)"
    then have h: "has_object s1 a ob" by (simp add: has_object_def)
    let ?e = "suicideChange a (suicided ob) (Balance (so_data ob))"
      and ?ob = "obj_setBalance 0 (ob\<lparr>suicided := True\<rparr>)"
      and ?g = "\<lambda>o2. obj_setBalance (Balance (so_data ob)) (o2\<lparr>suicided := suicided ob\<rparr>)"
    have fields: "a_balance (acct_in s1 ob) = Balance (so_data ob)"
      "a_suicided (acct_in s1 ob) = suicided ob" by (simp_all add: acct_of_def)
    have "evolves s1 (setStateObject ?ob (journal_append ?e s1))"
      "view (setStateObject ?ob (journal_append ?e s1)) = bump a (set_acct a (acct_in s1 ?ob) (view s1))"
      using g fields
      by (intro evolves_object [OF h, where g = ?g and e = ?e]; simp)+
    with g evolves_reads [OF ok g(2)] reads_view [OF g(2)] show ?thesis
      by (auto simp: Suicide_def v_Suicide_def intro: evolves_trans)
  qed
  then show "evolves s (snd (Suicide a s))" "view (snd (Suicide a s)) = v_Suicide a (view s)"
    "fst (Suicide a s) \<longleftrightarrow> live_acct (view s) a \<noteq> None" by simp_all
qed


section \<open>Transaction-level setters\<close>

lemma view_set_refund: "view (s\<lparr>refund := r\<rparr>) = (view s)\<lparr>v_refund := r\<rparr>"
  using view_accts_eq [of "s\<lparr>refund := r\<rparr>" s] view_logs_eq [of "s\<lparr>refund := r\<rparr>" s]
  by (simp add: view_def backing_def)

lemma view_set_preimages: "view (s\<lparr>preimages := p\<rparr>) = (view s)\<lparr>v_preimages := p\<rparr>"
  using view_accts_eq [of "s\<lparr>preimages := p\<rparr>" s] view_logs_eq [of "s\<lparr>preimages := p\<rparr>" s]
  by (simp add: view_def backing_def)

lemma view_set_access: "view (s\<lparr>sdb_accessList := al\<rparr>) = (view s)\<lparr>v_access := al\<rparr>"
  using view_accts_eq [of "s\<lparr>sdb_accessList := al\<rparr>" s] view_logs_eq [of "s\<lparr>sdb_accessList := al\<rparr>" s]
  by (simp add: view_def backing_def)

lemma view_set_transient: "view (s\<lparr>sdb_transient := t\<rparr>) = (view s)\<lparr>v_transient := ts_Get t\<rparr>"
  using view_accts_eq [of "s\<lparr>sdb_transient := t\<rparr>" s] view_logs_eq [of "s\<lparr>sdb_transient := t\<rparr>" s]
  by (simp add: view_def backing_def)

lemma view_set_logs:
  "view (s\<lparr>logs := L, logSize := n\<rparr>) =
     (view s)\<lparr>v_logs := (\<lambda>h. case L h of None \<Rightarrow> [] | Some ls \<Rightarrow> ls), v_logSize := n\<rparr>"
proof -
  have "view_logs (s\<lparr>logs := L, logSize := n\<rparr>) = (\<lambda>h. case L h of None \<Rightarrow> [] | Some ls \<Rightarrow> ls)"
    by (simp add: fun_eq_iff view_logs_def)
  then show ?thesis
    using view_accts_eq [of "s\<lparr>logs := L, logSize := n\<rparr>" s]
    by (simp add: view_def backing_def)
qed

lemma journal_append_rest [simp]:
  "refund (journal_append e s) = refund s" "thash (journal_append e s) = thash s"
  "logs (journal_append e s) = logs s" "logSize (journal_append e s) = logSize s"
  "preimages (journal_append e s) = preimages s"
  "sdb_accessList (journal_append e s) = sdb_accessList s"
  "sdb_transient (journal_append e s) = sdb_transient s"
  by (simp_all add: journal_append_def Let_def)

lemmas view_set = view_set_refund view_set_preimages view_set_access view_set_transient
  view_set_logs view_journal_append

text \<open>An entry that marks no account as dirty.\<close>

lemma evolves_plain:
  assumes "sdb_ok s'" and "dirtied e = None"
    and "entries (sdb_journal s') = entries (sdb_journal s) @ [e]"
    and "validRevisions s' = validRevisions s" "nextRevisionId s' = nextRevisionId s"
    and "\<And>t. sdb_ok t \<Longrightarrow> view t = view s' \<Longrightarrow>
      \<exists>t1. revert_entry e t = Some t1 \<and> sdb_ok t1 \<and> erv t1 = erv t \<and> view t1 = view s \<and>
        view_dirties (sdb_journal t1) = view_dirties (sdb_journal t)"
  shows "evolves s s'"
  using assms by (intro evolves_step [of s' s e]) (simp_all, blast)

lemma AddRefund_spec:
  assumes ok: "sdb_ok s"
  shows "evolves s (AddRefund gas s)"
    "view (AddRefund gas s) = (view s)\<lparr>v_refund := refund s + gas\<rparr>"
proof -
  show v: "view (AddRefund gas s) = (view s)\<lparr>v_refund := refund s + gas\<rparr>"
    by (simp add: AddRefund_def view_set)
  show "evolves s (AddRefund gas s)"
  proof (rule evolves_plain [where e = "refundChange (refund s)"])
    fix t assume "sdb_ok t" "view t = view (AddRefund gas s)"
    then show "\<exists>t1. revert_entry (refundChange (refund s)) t = Some t1 \<and> sdb_ok t1 \<and>
        erv t1 = erv t \<and> view t1 = view s \<and>
        view_dirties (sdb_journal t1) = view_dirties (sdb_journal t)"
      by (simp add: view_set v erv_def sdb_ok_def)
  qed (use sdb_ok_journal_append [OF ok] in \<open>simp_all add: AddRefund_def sdb_ok_def\<close>)
qed

lemma SubRefund_spec:
  assumes ok: "sdb_ok s" and r: "SubRefund gas s = Some s'"
  shows "evolves s s'" "view s' = (view s)\<lparr>v_refund := refund s - gas\<rparr>" "gas \<le> refund s"
proof -
  have s': "s' = (journal_append (refundChange (refund s)) s)\<lparr>refund := refund s - gas\<rparr>" "gas \<le> refund s"
    using r by (auto simp: SubRefund_def Let_def not_less split: if_splits)
  show v: "view s' = (view s)\<lparr>v_refund := refund s - gas\<rparr>" and "gas \<le> refund s"
    using s' by (simp_all add: view_set)
  show "evolves s s'"
  proof (rule evolves_plain [where e = "refundChange (refund s)"])
    fix t assume "sdb_ok t" "view t = view s'"
    then show "\<exists>t1. revert_entry (refundChange (refund s)) t = Some t1 \<and> sdb_ok t1 \<and>
        erv t1 = erv t \<and> view t1 = view s \<and>
        view_dirties (sdb_journal t1) = view_dirties (sdb_journal t)"
      by (simp add: view_set v erv_def sdb_ok_def)
  qed (use sdb_ok_journal_append [OF ok] s'(1) in \<open>simp_all add: sdb_ok_def\<close>)
qed

lemma AddPreimage_spec:
  assumes ok: "sdb_ok s"
  shows "evolves s (AddPreimage h p s)"
    "view (AddPreimage h p s) =
       (if preimages s h = None then (view s)\<lparr>v_preimages := (preimages s)(h \<mapsto> p)\<rparr> else view s)"
proof -
  show v: "view (AddPreimage h p s) =
       (if preimages s h = None then (view s)\<lparr>v_preimages := (preimages s)(h \<mapsto> p)\<rparr> else view s)"
    by (simp add: AddPreimage_def view_set)
  show "evolves s (AddPreimage h p s)"
  proof (cases "preimages s h = None")
    case True
    show ?thesis
    proof (rule evolves_plain [where e = "addPreimageChange h"])
      fix t assume t: "sdb_ok t" "view t = view (AddPreimage h p s)"
      have "preimages t = (preimages s)(h \<mapsto> p)"
        using view_eqD(12) [OF t(2)] True by (simp add: AddPreimage_def)
      then have "(preimages t)(h := None) = preimages s" using True by (simp add: fun_upd_idem)
      with t True show "\<exists>t1. revert_entry (addPreimageChange h) t = Some t1 \<and> sdb_ok t1 \<and>
          erv t1 = erv t \<and> view t1 = view s \<and>
          view_dirties (sdb_journal t1) = view_dirties (sdb_journal t)"
        by (simp add: view_set v erv_def sdb_ok_def)
    qed (use sdb_ok_journal_append [OF ok] True in \<open>simp_all add: AddPreimage_def sdb_ok_def\<close>)
  qed (auto simp: AddPreimage_def evolves_refl [OF ok])
qed

lemma SetTransientState_spec:
  assumes ok: "sdb_ok s"
  shows "evolves s (SetTransientState a k v s)"
    "view (SetTransientState a k v s) =
       (view s)\<lparr>v_transient := (\<lambda>b l. if a = b \<and> k = l then v else ts_Get (sdb_transient s) b l)\<rparr>"
proof -
  let ?prev = "ts_Get (sdb_transient s) a k"
  have "(\<lambda>b l. if a = b \<and> k = l then ?prev else ts_Get (sdb_transient s) b l) = ts_Get (sdb_transient s)"
    "ts_Get (ts_Set (sdb_transient s) a k v) =
       (\<lambda>b l. if a = b \<and> k = l then v else ts_Get (sdb_transient s) b l)"
    by (auto simp: fun_eq_iff ts_Get_Set)
  then show w: "view (SetTransientState a k v s) =
       (view s)\<lparr>v_transient := (\<lambda>b l. if a = b \<and> k = l then v else ts_Get (sdb_transient s) b l)\<rparr>"
    by (auto simp: SetTransientState_def Let_def GetTransientState_def sdb_setTransientState_def
        view_set)
  show "evolves s (SetTransientState a k v s)"
  proof (cases "?prev = v")
    case True
    then show ?thesis
      by (simp add: SetTransientState_def Let_def GetTransientState_def evolves_refl [OF ok])
  next
    case False
    let ?e = "transientStorageChange a k ?prev"
    show ?thesis
    proof (rule evolves_plain [where e = ?e])
      fix t assume t: "sdb_ok t" "view t = view (SetTransientState a k v s)"
      have "v_transient (view t) =
          (\<lambda>b l. if a = b \<and> k = l then v else ts_Get (sdb_transient s) b l)"
        unfolding t(2) w by simp
      then have "ts_Get (ts_Set (sdb_transient t) a k ?prev) = ts_Get (sdb_transient s)"
        by (auto simp: fun_eq_iff ts_Get_Set)
      with t show "\<exists>t1. revert_entry ?e t = Some t1 \<and> sdb_ok t1 \<and> erv t1 = erv t \<and>
          view t1 = view s \<and> view_dirties (sdb_journal t1) = view_dirties (sdb_journal t)"
        by (simp add: sdb_setTransientState_def view_set w erv_def sdb_ok_def)
    qed (use sdb_ok_journal_append [OF ok] False in \<open>simp_all add: SetTransientState_def Let_def
          GetTransientState_def sdb_setTransientState_def sdb_ok_def\<close>)
  qed
qed


lemma AddLog_spec:
  assumes ok: "sdb_ok s"
  defines "l1 \<equiv> \<lambda>l. l\<lparr>log_TxHash := thash s, log_TxIndex := of_int (txIndex s), log_Index := logSize s\<rparr>"
  shows "evolves s (AddLog l s)"
    "view (AddLog l s) =
       (view s)\<lparr>v_logs := (view_logs s)(thash s := view_logs s (thash s) @ [l1 l]),
                v_logSize := logSize s + 1\<rparr>"
proof -
  let ?h = "thash s"
  have "(\<lambda>h. case ((logs s)(?h \<mapsto> x)) h of None \<Rightarrow> [] | Some ls \<Rightarrow> ls) = (view_logs s)(?h := x)" for x
    by (auto simp: fun_eq_iff view_logs_def)
  then show v: "view (AddLog l s) =
       (view s)\<lparr>v_logs := (view_logs s)(thash s := view_logs s (thash s) @ [l1 l]),
                v_logSize := logSize s + 1\<rparr>"
    by (simp add: AddLog_def Let_def view_set view_logs_def [of s ?h] l1_def)
  show "evolves s (AddLog l s)"
  proof (rule evolves_plain [where e = "addLogChange ?h"])
    fix t assume t: "sdb_ok t" "view t = view (AddLog l s)"
    have "v_logs (view t) = (view_logs s)(?h := view_logs s ?h @ [l1 l])"
      "v_logSize (view t) = logSize s + 1" unfolding t(2) v by simp_all
    then have L: "view_logs t = (view_logs s)(?h := view_logs s ?h @ [l1 l])"
      "logSize t = logSize s + 1" by simp_all
    let ?ls = "case logs t ?h of None \<Rightarrow> [] | Some ls \<Rightarrow> ls"
    have ls: "?ls = view_logs s ?h @ [l1 l]" using L(1) by (simp add: view_logs_def [of t, symmetric])
    let ?L = "if length ?ls = 1 then (logs t)(?h := None) else (logs t)(?h \<mapsto> take (length ?ls - 1) ?ls)"
    have "(\<lambda>h. case ?L h of None \<Rightarrow> [] | Some ls \<Rightarrow> ls) = (view_logs t)(?h := view_logs s ?h)"
      unfolding ls by (auto simp: fun_eq_iff view_logs_def)
    also have "\<dots> = view_logs s" unfolding L(1) by simp
    finally have "view (t\<lparr>logs := ?L, logSize := logSize t - 1\<rparr>) = view s"
      by (simp only: view_set t(2) v) (simp add: L(2))
    moreover have "revert_entry (addLogChange ?h) t = Some (t\<lparr>logs := ?L, logSize := logSize t - 1\<rparr>)"
      using ls by simp
    ultimately show "\<exists>t1. revert_entry (addLogChange ?h) t = Some t1 \<and> sdb_ok t1 \<and>
        erv t1 = erv t \<and> view t1 = view s \<and>
        view_dirties (sdb_journal t1) = view_dirties (sdb_journal t)"
      using t(1) by (simp add: erv_def sdb_ok_def del: revert_entry.simps)
  qed (use sdb_ok_journal_append [OF ok] in \<open>simp_all add: AddLog_def Let_def sdb_ok_def\<close>)
qed

lemma AddAddressToAccessList_spec:
  assumes ok: "sdb_ok s"
  shows "evolves s (AddAddressToAccessList a s)"
    "view (AddAddressToAccessList a s) =
       (view s)\<lparr>v_access := fst (AddAddress (sdb_accessList s) a)\<rparr>"
proof -
  obtain al ch where g: "AddAddress (sdb_accessList s) a = (al, ch)" by fastforce
  have inv: "al_inv al" using ok al_inv_AddAddress [of "sdb_accessList s" a] by (simp add: g sdb_ok_def)
  show v: "view (AddAddressToAccessList a s) =
       (view s)\<lparr>v_access := fst (AddAddress (sdb_accessList s) a)\<rparr>"
    by (simp add: AddAddressToAccessList_def g view_set Let_def)
  have ok': "sdb_ok (s\<lparr>sdb_accessList := al\<rparr>)" using ok inv by (simp add: sdb_ok_def)
  show "evolves s (AddAddressToAccessList a s)"
  proof (cases ch)
    case False
    then have "al = sdb_accessList s" using g by (auto simp: AddAddress_def split: if_splits)
    with False show ?thesis
      by (simp add: AddAddressToAccessList_def g evolves_refl [OF ok])
  next
    case True
    have gT: "AddAddress (sdb_accessList s) a = (al, True)" using g True by simp
    have inv0: "al_inv (sdb_accessList s)" using ok by (simp add: sdb_ok_def)
    show ?thesis
    proof (rule evolves_plain [where e = "accessListAddAccountChange a"])
      fix t assume t: "sdb_ok t" "view t = view (AddAddressToAccessList a s)"
      have "sdb_accessList t = al"
        using view_eqD(13) [OF t(2)] True by (simp add: AddAddressToAccessList_def g)
      with DeleteAddress_undoes [OF gT]
      show "\<exists>t1. revert_entry (accessListAddAccountChange a) t = Some t1 \<and> sdb_ok t1 \<and>
          erv t1 = erv t \<and> view t1 = view s \<and>
          view_dirties (sdb_journal t1) = view_dirties (sdb_journal t)"
        using t inv0 by (simp add: view_set v erv_def sdb_ok_def)
    qed (use sdb_ok_journal_append [OF ok'] True in \<open>simp_all add: AddAddressToAccessList_def g\<close>)
  qed
qed

text \<open>A new slot of a new address writes two entries, which are undone in reverse order.\<close>

lemma AddSlot_two_steps:
  assumes "AddSlot al a k = (al', True, sm)"
  shows "AddSlot (fst (AddAddress al a)) a k = (al', False, True)" "snd (AddAddress al a)" "sm"
  using assms by (auto simp: AddSlot_def AddAddress_def Let_def split: if_splits)

lemma AddSlot_present_spec:
  assumes ok: "sdb_ok s" and g: "AddSlot (sdb_accessList s) a k = (al, False, True)"
  shows "evolves s (journal_append (accessListAddSlotChange a k) (s\<lparr>sdb_accessList := al\<rparr>))"
proof (rule evolves_plain [where e = "accessListAddSlotChange a k"])
  have inv: "al_inv (sdb_accessList s)" using ok by (simp add: sdb_ok_def)
  have "al_inv al" using al_inv_AddSlot [OF inv, of a k] by (simp add: g)
  then show "sdb_ok (journal_append (accessListAddSlotChange a k) (s\<lparr>sdb_accessList := al\<rparr>))"
    using ok by (intro sdb_ok_journal_append) (simp add: sdb_ok_def)
  fix t assume t: "sdb_ok t"
    "view t = view (journal_append (accessListAddSlotChange a k) (s\<lparr>sdb_accessList := al\<rparr>))"
  have "sdb_accessList t = al" using view_eqD(13) [OF t(2)] by simp
  with DeleteSlot_undoes [OF inv g] t inv
  show "\<exists>t1. revert_entry (accessListAddSlotChange a k) t = Some t1 \<and> sdb_ok t1 \<and>
      erv t1 = erv t \<and> view t1 = view s \<and>
      view_dirties (sdb_journal t1) = view_dirties (sdb_journal t)"
    by (auto simp: view_set erv_def sdb_ok_def)
qed simp_all

lemma AddSlotToAccessList_spec:
  assumes ok: "sdb_ok s"
  shows "evolves s (AddSlotToAccessList a k s)"
    "view (AddSlotToAccessList a k s) =
       (view s)\<lparr>v_access := fst (AddSlot (sdb_accessList s) a k)\<rparr>"
proof -
  obtain al am sm where g: "AddSlot (sdb_accessList s) a k = (al, am, sm)" by (metis prod_cases3)
  show "view (AddSlotToAccessList a k s) =
       (view s)\<lparr>v_access := fst (AddSlot (sdb_accessList s) a k)\<rparr>"
    by (simp add: AddSlotToAccessList_def g view_set Let_def)
  show "evolves s (AddSlotToAccessList a k s)"
  proof (cases am)
    case True
    have "AddSlot (sdb_accessList s) a k = (al, True, sm)" using g True by simp
    note two = AddSlot_two_steps [OF this]
    let ?s1 = "AddAddressToAccessList a s"
    have s1: "?s1 = journal_append (accessListAddAccountChange a)
        (s\<lparr>sdb_accessList := fst (AddAddress (sdb_accessList s) a)\<rparr>)"
      using two(2) by (simp add: AddAddressToAccessList_def case_prod_beta)
    note ev1 = AddAddressToAccessList_spec(1) [OF ok, of a]
    have "AddSlotToAccessList a k s =
        journal_append (accessListAddSlotChange a k) (?s1\<lparr>sdb_accessList := al\<rparr>)"
      using True two(3) unfolding s1 by (simp add: AddSlotToAccessList_def g journal_append_def Let_def)
    moreover have "evolves ?s1 (journal_append (accessListAddSlotChange a k) (?s1\<lparr>sdb_accessList := al\<rparr>))"
      using two(1) s1 by (intro AddSlot_present_spec [OF evolves_ok [OF ev1]]) simp
    ultimately show ?thesis using evolves_trans [OF ev1] by simp
  next
    case False
    show ?thesis
    proof (cases sm)
      case True
      with False AddSlot_present_spec [OF ok, of a k al] g show ?thesis
        by (simp add: AddSlotToAccessList_def)
    next
      case nsm: False
      then have "al = sdb_accessList s"
        using g False by (auto simp: AddSlot_def Let_def split: if_splits)
      with False nsm show ?thesis
        by (simp add: AddSlotToAccessList_def g evolves_refl [OF ok])
    qed
  qed
qed

end
