(* ===== verification/StateDB_Props.thy ===== *)
theory StateDB_Props
  imports StateDB_Setters
begin

text \<open>
  What the state database promises to its users: queries read the abstract state and leave it
  alone, setters change it as specified, the well-formedness invariant holds from \<open>state_New\<close>
  on, and a revert restores the abstract state of its snapshot after any well-bracketed run of
  calls. The calls of a user are the datatype \<open>sdb_call\<close>.
\<close>

section \<open>Runs of calls\<close>

datatype sdb_call =
    C_CreateAccount Address
  | C_SubBalance Address int
  | C_AddBalance Address int
  | C_SetBalance Address int
  | C_GetBalance Address
  | C_GetNonce Address
  | C_SetNonce Address u64
  | C_GetCodeHash Address
  | C_GetCode Address
  | C_SetCode Address bytes
  | C_GetCodeSize Address
  | C_AddRefund u64
  | C_SubRefund u64
  | C_GetCommittedState Address Hash
  | C_GetState Address Hash
  | C_SetState Address Hash Hash
  | C_SetTransientState Address Hash Hash
  | C_Suicide Address
  | C_HasSuicided Address
  | C_Exist Address
  | C_Empty Address
  | C_AddAddressToAccessList Address
  | C_AddSlotToAccessList Address Hash
  | C_Snapshot
  | C_AddLog Log
  | C_AddPreimage Hash bytes

fun sdb_exec :: "sdb_call \<Rightarrow> 'tr StateDB \<Rightarrow> 'tr StateDB option" where
  "sdb_exec (C_CreateAccount a) s = Some (CreateAccount a s)"
| "sdb_exec (C_SubBalance a x) s = Some (SubBalance a x s)"
| "sdb_exec (C_AddBalance a x) s = Some (AddBalance a x s)"
| "sdb_exec (C_SetBalance a x) s = Some (SetBalance a x s)"
| "sdb_exec (C_GetBalance a) s = Some (snd (GetBalance a s))"
| "sdb_exec (C_GetNonce a) s = Some (snd (GetNonce a s))"
| "sdb_exec (C_SetNonce a n) s = Some (SetNonce a n s)"
| "sdb_exec (C_GetCodeHash a) s = Some (snd (GetCodeHash a s))"
| "sdb_exec (C_GetCode a) s = Some (snd (GetCode a s))"
| "sdb_exec (C_SetCode a c) s = Some (SetCode a c s)"
| "sdb_exec (C_GetCodeSize a) s = Some (snd (GetCodeSize a s))"
| "sdb_exec (C_AddRefund g) s = Some (AddRefund g s)"
| "sdb_exec (C_SubRefund g) s = SubRefund g s"
| "sdb_exec (C_GetCommittedState a k) s = Some (snd (GetCommittedState a k s))"
| "sdb_exec (C_GetState a k) s = Some (snd (GetState a k s))"
| "sdb_exec (C_SetState a k v) s = Some (SetState a k v s)"
| "sdb_exec (C_SetTransientState a k v) s = Some (SetTransientState a k v s)"
| "sdb_exec (C_Suicide a) s = Some (snd (Suicide a s))"
| "sdb_exec (C_HasSuicided a) s = Some (snd (HasSuicided a s))"
| "sdb_exec (C_Exist a) s = Some (snd (Exist a s))"
| "sdb_exec (C_Empty a) s = Some (snd (Empty a s))"
| "sdb_exec (C_AddAddressToAccessList a) s = Some (AddAddressToAccessList a s)"
| "sdb_exec (C_AddSlotToAccessList a k) s = Some (AddSlotToAccessList a k s)"
| "sdb_exec C_Snapshot s = Some (snd (Snapshot s))"
| "sdb_exec (C_AddLog l) s = Some (AddLog l s)"
| "sdb_exec (C_AddPreimage h p) s = Some (AddPreimage h p s)"

text \<open>
  A well-bracketed run: calls, and reverts to a snapshot that the run itself took. It is the
  discipline of the EVM, whose frames revert only to the snapshot they started with.
\<close>

inductive sdb_run :: "'tr StateDB \<Rightarrow> 'tr StateDB \<Rightarrow> bool" where
  nothing: "sdb_run s s"
| call: "sdb_run s s1 \<Longrightarrow> sdb_exec c s1 = Some s2 \<Longrightarrow> sdb_run s s2"
| frame: "sdb_run s s1 \<Longrightarrow> Snapshot s1 = (i, s2) \<Longrightarrow> sdb_run s2 s3 \<Longrightarrow>
    RevertToSnapshot i s3 = Some s4 \<Longrightarrow> sdb_run s s4"

lemmas query_specs = Exist_view Empty_view GetBalance_view GetNonce_view GetCodeHash_view
  HasSuicided_view GetState_view GetCommittedState_view GetCode_view GetCodeSize_view

lemmas setter_specs = CreateAccount_spec SubBalance_spec AddBalance_spec SetBalance_spec
  SetNonce_spec SetCode_spec AddRefund_spec SetState_spec SetTransientState_spec Suicide_spec
  AddAddressToAccessList_spec AddSlotToAccessList_spec AddLog_spec AddPreimage_spec

lemma sdb_exec_evolves:
  assumes ok: "sdb_ok s" and e: "sdb_exec c s = Some s'"
  shows "evolves s s'"
proof -
  have q: "reads s t \<Longrightarrow> evolves s t" for t using ok by (rule evolves_reads)
  have sn: "evolves s (snd (Snapshot s))"
    using Snapshot_evolves(1) [OF ok, of "fst (Snapshot s)" "snd (Snapshot s)"] by simp
  show ?thesis
    using e ok sn SubRefund_spec(1) [OF ok]
    by (cases c) (auto intro!: q query_specs setter_specs)
qed

lemma sdb_run_evolves:
  assumes "sdb_run s s'" and "sdb_ok s"
  shows "evolves s s'"
  using assms
proof (induction rule: sdb_run.induct)
  case (nothing s)
  then show ?case by (rule evolves_refl)
next
  case (call s s1 c s2)
  then have "evolves s s1" by simp
  moreover from this call.hyps(2) have "evolves s1 s2"
    by (blast intro: sdb_exec_evolves evolves_ok)
  ultimately show ?case by (rule evolves_trans)
next
  case (frame s s1 i s2 s3 s4)
  then have s1: "evolves s s1" by simp
  note ok1 = evolves_ok [OF s1]
  have "evolves s2 s3"
    using frame.IH(2) Snapshot_evolves(1) [OF ok1 frame.hyps(2)] by (blast intro: evolves_ok)
  from RevertToSnapshot_restores [OF ok1 frame.hyps(2) this] frame.hyps(4)
  have "evolves s1 s4" by auto
  with s1 show ?case by (rule evolves_trans)
qed

section \<open>A concrete database for the witnesses\<close>

text \<open>
  An empty key-value store behind a toy hash; its tries know no account and no slot.
\<close>

definition toy_hash :: "bytes \<Rightarrow> Hash" where
  "toy_hash bs = foldl (\<lambda>h b. h * 257 + ucast b + 1) 7 bs"

definition toy_db :: "unit Database" where
  "toy_db = \<lparr>Keccak256Hash = toy_hash, OpenTrie = (\<lambda>_. Inr ()), OpenStorageTrie = (\<lambda>_ _ _. Inr ()),
     ContractCode = (\<lambda>_ _. Inr []), ContractCodeSize = (\<lambda>_ _. Inr 0),
     trie_GetAccount = (\<lambda>_ _. Inr None), trie_GetStorage = (\<lambda>_ _ _. Inr [])\<rparr>"

definition toy_state :: "unit StateDB" where
  "toy_state = (case state_New 0 toy_db None of Inr s \<Rightarrow> s)"

lemma state_New_ok: "state_New root db snaps = Inr s \<Longrightarrow> sdb_ok s"
  by (auto simp: state_New_def sdb_ok_def newJournal_def al_inv_new rev_ok_def
      split: sum.splits)

lemma toy_state_ok: "sdb_ok toy_state"
  using state_New_ok [of 0 toy_db None toy_state]
  by (simp add: toy_state_def state_New_def toy_db_def)

definition toy_funded :: "unit StateDB" where
  "toy_funded = AddBalance 5 100 toy_state"

lemma toy_state_empty: "view_accts toy_state a = None" "bk_db (backing toy_state) = toy_db"
  by (simp_all add: view_accts_def the_object_def stored_account_def readAccount_def
      toy_state_def state_New_def toy_db_def backing_def)

lemma fresh_acct_start: "a_balance (fresh_acct bk x b) = 0" "\<not> a_deleted (fresh_acct bk x b)"
  by (simp_all add: fresh_acct_def acct_of_def newObject_def zeroAccount_def)

lemma toy_funded:
  "sdb_ok toy_funded" "code_store_ok (sdb_db toy_funded)"
  "live_acct (view toy_funded) a =
     (if a = 5 then Some ((fresh_acct (backing toy_state) False 5)\<lparr>a_balance := 100\<rparr>) else None)"
  "dom (dirties (sdb_journal toy_funded)) = {5}" "stateObjects toy_funded 5 \<noteq> None"
proof -
  show "sdb_ok toy_funded"
    using AddBalance_spec(1) [OF toy_state_ok, of 5 100] unfolding toy_funded_def
    by (rule evolves_ok)
  have d: "stateObjectsDestruct toy_state = {}"
    by (simp add: toy_state_def state_New_def toy_db_def)
  show "live_acct (view toy_funded) a =
     (if a = 5 then Some ((fresh_acct (backing toy_state) False 5)\<lparr>a_balance := 100\<rparr>) else None)"
    unfolding toy_funded_def AddBalance_spec(2) [OF toy_state_ok]
    by (simp add: v_AddBalance_def modify_acct_def get_or_new_def live_acct_def create_acct_def
        d fresh_acct_start
        toy_state_empty set_acct_def bump_def Let_def ripemd_def)
  have s: "stateObjects toy_state 5 = None" "readAccount toy_state 5 = Inr None"
    "sdb_db toy_state = toy_db" "dirties (sdb_journal toy_state) = Map.empty"
    by (simp_all add: readAccount_def toy_state_def state_New_def toy_db_def newJournal_def)
  have g: "getDeletedStateObject 5 toy_state = (None, toy_state)"
    by (simp add: getDeletedStateObject_def s)
  have "sdb_db toy_funded = toy_db \<and> dom (dirties (sdb_journal toy_funded)) = {5} \<and>
      stateObjects toy_funded 5 \<noteq> None"
    by (simp add: toy_funded_def AddBalance_def GetOrNewStateObject_def getStateObject_def g
        createObject_def obj_AddBalance_def obj_SetBalance_def setStateObject_def s
        journal_append_def journal_dirty_def dirty_count_def obj_setBalance_def Let_def)
  then show "code_store_ok (sdb_db toy_funded)" "dom (dirties (sdb_journal toy_funded)) = {5}"
    "stateObjects toy_funded 5 \<noteq> None"
    by (simp_all add: code_store_ok_def toy_db_def)
qed

lemma toy_run:
  "sdb_run s (SetState 5 1 9 (AddBalance 5 100 s))"
  by (rule sdb_run.call [of _ "AddBalance 5 100 s" "C_SetState 5 1 9"],
      rule sdb_run.call [of _ s "C_AddBalance 5 100"], rule sdb_run.nothing) simp_all

section \<open>End of a transaction\<close>

definition visited :: "Address list \<Rightarrow> 'tr StateDB \<Rightarrow> Address \<Rightarrow> bool" where
  "visited order s a \<longleftrightarrow> a \<in> set order \<and> stateObjects s a \<noteq> None"

definition finalised :: "bool \<Rightarrow> 'tr StateDB \<Rightarrow> 'tr stateObject \<Rightarrow> 'tr stateObject" where
  "finalised d s ob = (if finalise_deletes d s ob then ob\<lparr>deleted := True\<rparr> else obj_finalise ob)"

text \<open>Each field after visiting one address.\<close>

definition snap_gone :: "bool \<Rightarrow> 'tr StateDB \<Rightarrow> 'tr stateObject option \<Rightarrow> Hash set" where
  "snap_gone d s x =
     (case x of None \<Rightarrow> {}
      | Some ob \<Rightarrow> if finalise_deletes d s ob \<and> sdb_snap s \<noteq> None then {so_addrHash ob} else {})"

lemma finalise_addr_object:
  "stateObjects (finalise_addr d a s) =
     (stateObjects s)(a := map_option (finalised d s) (stateObjects s a))"
  by (auto simp: finalise_addr_def finalised_def Let_def fun_eq_iff split: option.split)

lemma finalise_addr_fields:
  "stateObjectsDestruct (finalise_addr d a s) =
     stateObjectsDestruct s \<union>
     {b. \<exists>ob. stateObjects s a = Some ob \<and> finalise_deletes d s ob \<and> b = so_address ob}"
  "snapAccounts (finalise_addr d a s) = snapAccounts s |` (- snap_gone d s (stateObjects s a))"
  "snapStorage (finalise_addr d a s) = snapStorage s |` (- snap_gone d s (stateObjects s a))"
  "stateObjectsPending (finalise_addr d a s) =
     stateObjectsPending s \<union> {b. b = a \<and> stateObjects s a \<noteq> None}"
  "stateObjectsDirty (finalise_addr d a s) =
     stateObjectsDirty s \<union> {b. b = a \<and> stateObjects s a \<noteq> None}"
  by (auto simp: finalise_addr_def Let_def snap_gone_def restrict_map_def fun_eq_iff
      split: option.split)

lemma finalise_addr_sel [simp]:
  "sdb_db (finalise_addr d a s) = sdb_db s" "sdb_trie (finalise_addr d a s) = sdb_trie s"
  "originalRoot (finalise_addr d a s) = originalRoot s"
  "sdb_snap (finalise_addr d a s) = sdb_snap s" "dbErr (finalise_addr d a s) = dbErr s"
  "refund (finalise_addr d a s) = refund s" "thash (finalise_addr d a s) = thash s"
  "txIndex (finalise_addr d a s) = txIndex s" "logs (finalise_addr d a s) = logs s"
  "logSize (finalise_addr d a s) = logSize s" "preimages (finalise_addr d a s) = preimages s"
  "sdb_accessList (finalise_addr d a s) = sdb_accessList s"
  "sdb_transient (finalise_addr d a s) = sdb_transient s"
  "sdb_journal (finalise_addr d a s) = sdb_journal s"
  "validRevisions (finalise_addr d a s) = validRevisions s"
  "nextRevisionId (finalise_addr d a s) = nextRevisionId s"
  by (simp_all add: finalise_addr_def Let_def split: option.split)

lemma finalise_addr_derived [simp]:
  "backing (finalise_addr d a s) = backing s"
  "finalise_deletes d (finalise_addr d a s) = finalise_deletes d s"
  "finalised d (finalise_addr d a s) = finalised d s"
  "snap_gone d (finalise_addr d a s) = snap_gone d s"
  by (simp_all add: backing_def finalise_deletes_def finalised_def snap_gone_def fun_eq_iff
      split: option.split)

lemma finalise_addr_commute:
  "finalise_addr d a (finalise_addr d b s) = finalise_addr d b (finalise_addr d a s)"
proof (cases "a = b")
  case False
  then show ?thesis
    by (intro StateDB.equality) (auto simp: finalise_addr_object finalise_addr_fields Int_commute)
qed simp

lemma finalise_fold_order:
  assumes "distinct xs" "distinct ys" "set xs = set ys"
  shows "fold (finalise_addr d) xs s = fold (finalise_addr d) ys s"
proof -
  have "comp_fun_commute_on UNIV (finalise_addr d :: Address \<Rightarrow> 'a StateDB \<Rightarrow> _)"
    by unfold_locales (simp add: fun_eq_iff finalise_addr_commute)
  note f = comp_fun_commute_on.fold_set_fold_remdups [OF this subset_UNIV, of s]
  from f [of xs] f [of ys] assms show ?thesis by (simp add: distinct_remdups_id)
qed

lemma finalise_addr_destruct:
  "sdb_ok s \<Longrightarrow> stateObjectsDestruct (finalise_addr d a s) =
     stateObjectsDestruct s \<union>
     {b. b = a \<and> (\<exists>ob. stateObjects s a = Some ob \<and> finalise_deletes d s ob)}"
  by (auto simp: finalise_addr_fields sdb_ok_def)

lemma finalised_address [simp]: "so_address (finalised d s ob) = so_address ob"
  by (simp add: finalised_def obj_finalise_def)

lemma sdb_ok_finalise_addr: "sdb_ok s \<Longrightarrow> sdb_ok (finalise_addr d a s)"
  unfolding sdb_ok_def [of "finalise_addr d a s"] finalise_addr_object
  by (auto simp: sdb_ok_def finalise_addr_fields)

text \<open>The whole pass, address by address.\<close>

lemma fold_finalise_conj:
  "distinct order \<Longrightarrow> sdb_ok s \<Longrightarrow>
   sdb_ok (fold (finalise_addr d) order s) \<and> sdb_db (fold (finalise_addr d) order s) = sdb_db s \<and>
   backing (fold (finalise_addr d) order s) = backing s \<and>
   stateObjects (fold (finalise_addr d) order s) a =
     (if a \<in> set order then map_option (finalised d s) (stateObjects s a) else stateObjects s a) \<and>
   (a \<in> stateObjectsDestruct (fold (finalise_addr d) order s) \<longleftrightarrow>
     a \<in> stateObjectsDestruct s \<or>
     a \<in> set order \<and> (\<exists>ob. stateObjects s a = Some ob \<and> finalise_deletes d s ob))"
proof (induction order arbitrary: s)
  case (Cons b order)
  have d: "distinct order" "b \<notin> set order" using Cons.prems by simp_all
  note IH = Cons.IH [OF d(1) sdb_ok_finalise_addr [OF Cons.prems(2), of d b]]
  from IH d(2) finalise_addr_destruct [OF Cons.prems(2), of d b]
  show ?case by (auto simp: finalise_addr_object)
qed simp

lemmas fold_finalise =
  fold_finalise_conj [THEN conjunct1]
  fold_finalise_conj [THEN conjunct2, THEN conjunct1]
  fold_finalise_conj [THEN conjunct2, THEN conjunct2, THEN conjunct1]
  fold_finalise_conj [THEN conjunct2, THEN conjunct2, THEN conjunct2, THEN conjunct1]
  fold_finalise_conj [THEN conjunct2, THEN conjunct2, THEN conjunct2, THEN conjunct2]

lemma obj_finalise_storage:
  "pendingStorage (obj_finalise ob) k =
     (case dirtyStorage ob k of None \<Rightarrow> pendingStorage ob k | Some v \<Rightarrow> Some v)"
  "dirtyStorage (obj_finalise ob) k = None" "originStorage (obj_finalise ob) = originStorage ob"
  by (simp_all add: obj_finalise_def map_add_def)

lemma acct_of_finalise:
  "acct_of bk x (obj_finalise ob) = (acct_of bk x ob)\<lparr>a_committed := a_storage (acct_of bk x ob)\<rparr>"
proof -
  have sl: "slot_bytes bk (obj_finalise ob) k = slot_bytes bk ob k" for k
    by (simp add: slot_bytes_def trie_slot_def obj_trie_def obj_finalise_def
        split: option.split sum.split)
  have c: "committed_slot bk x (obj_finalise ob) k = current_slot bk x ob k" for k
    by (cases "dirtyStorage ob k")
      (simp_all add: committed_slot_def current_slot_def sl obj_finalise_storage split: option.split)
  have "current_slot bk x (obj_finalise ob) k = committed_slot bk x (obj_finalise ob) k" for k
    by (simp add: current_slot_def obj_finalise_storage)
  with c have "current_slot bk x (obj_finalise ob) = current_slot bk x ob"
    "committed_slot bk x (obj_finalise ob) = current_slot bk x ob"
    by (simp_all add: fun_eq_iff)
  then show ?thesis by (simp add: acct_of_def)
      (simp add: obj_finalise_def obj_code_def split: option.split)
qed

text \<open>The account a transaction leaves behind.\<close>

definition settled :: "bool \<Rightarrow> 'tr Database \<Rightarrow> acct \<Rightarrow> acct option" where
  "settled d db x =
     (if a_suicided x \<or> d \<and> acct_empty db x then None else Some (x\<lparr>a_committed := a_storage x\<rparr>))"

lemma live_acct_finalise:
  assumes "distinct order" "sdb_ok s"
  shows "live_acct (view (fold (finalise_addr d) order s)) a =
    (if visited order s a then Option.bind (live_acct (view s) a) (settled d (sdb_db s))
     else live_acct (view s) a)"
proof -
  let ?s = "fold (finalise_addr d) order s"
  note f = fold_finalise [OF assms]
  have g: "\<not> finalise_deletes d s ob \<Longrightarrow>
      acct_of (backing s) x (finalised d s ob) =
        (acct_of (backing s) x ob)\<lparr>a_committed := a_storage (acct_of (backing s) x ob)\<rparr>" for ob x
    by (simp add: finalised_def acct_of_finalise)
  have del: "finalise_deletes d s ob \<Longrightarrow> deleted (finalised d s ob)" for ob
    by (simp add: finalised_def)
  have keep: "\<not> finalise_deletes d s ob \<Longrightarrow> deleted (finalised d s ob) = deleted ob" for ob
    by (simp add: finalised_def obj_finalise_def)
  have fd: "finalise_deletes d s ob \<longleftrightarrow>
      a_suicided (acct_of (backing s) x ob) \<or> d \<and> acct_empty (sdb_db s) (acct_of (backing s) x ob)" for ob x
    by (simp add: finalise_deletes_def acct_empty_of) (simp add: acct_of_def)
  show ?thesis
  proof (cases "visited order s a")
    case True
    then obtain ob where ob: "a \<in> set order" "stateObjects s a = Some ob"
      by (auto simp: visited_def)
    then have "stateObjects ?s a = Some (finalised d s ob)" using f(4) by simp
    with ob f(5) [of a d] True g [of ob "a \<in> stateObjectsDestruct s"] del [of ob] keep [of ob]
      fd [of ob "a \<in> stateObjectsDestruct s"] show ?thesis
      by (auto simp: live_acct_view live_object_def the_object_def f(3) settled_def)
  next
    case False
    then have "stateObjects ?s a = stateObjects s a"
      "a \<in> stateObjectsDestruct ?s \<longleftrightarrow> a \<in> stateObjectsDestruct s"
      using f(4) [of d a] f(5) [of a d] by (auto simp: visited_def)
    moreover from this(1) have "the_object ?s a = the_object s a"
      by (rule the_object_eq [OF f(3)])
    ultimately show ?thesis
      using False f(3) [of d] by (simp add: live_acct_view live_object_def)
  qed
qed

lemma clearJournal_view:
  "live_acct (view (clearJournalAndRefund s)) = live_acct (view s)"
  "validRevisions (clearJournalAndRefund s) = []"
  "sdb_ok s \<Longrightarrow> sdb_ok (clearJournalAndRefund s)"
proof -
  have "view_accts (clearJournalAndRefund s) = view_accts s"
    by (rule view_accts_eq) (simp_all add: clearJournalAndRefund_def Let_def backing_def)
  then show "live_acct (view (clearJournalAndRefund s)) = live_acct (view s)"
    by (simp add: fun_eq_iff live_acct_def)
qed (auto simp: clearJournalAndRefund_def Let_def sdb_ok_def newJournal_def rev_ok_def)

text \<open>The access list and the transient storage at the start of a transaction.\<close>

definition prepared :: "bool \<Rightarrow> Address \<Rightarrow> Address \<Rightarrow> Address option \<Rightarrow> Address list \<Rightarrow>
   (Address \<times> Hash list) list \<Rightarrow> Address set" where
  "prepared isShanghai sender coinbase dst precompiles list =
     {sender} \<union> set_option dst \<union> set precompiles \<union> fst ` set list \<union>
     (if isShanghai then {coinbase} else {})"

lemma Prepare_access:
  assumes al: "al = sdb_accessList (Prepare True isShanghai sender coinbase dst precompiles list s)"
  shows "al_inv al"
    "warm_addresses al = prepared isShanghai sender coinbase dst precompiles list"
    "warm_slots al = {(a, k). \<exists>ks. (a, ks) \<in> set list \<and> k \<in> set ks}"
proof -
  define al1 where "al1 = fst (AddAddress newAccessList sender)"
  define al2 where "al2 = (case dst of None \<Rightarrow> al1 | Some d \<Rightarrow> fst (AddAddress al1 d))"
  define al3 where "al3 = alist.add_addrs precompiles al2"
  define al4 where "al4 = foldl alist.add_tuple al3 list"
  have 1: "al_inv al1" "warm_addresses al1 = {sender}" "warm_slots al1 = {}"
    by (simp_all add: al1_def al_inv_AddAddress al_inv_new warm_addresses_simps
        warm_slots_AddAddress warm_slots_new)
  have 2: "al_inv al2" "warm_addresses al2 = {sender} \<union> set_option dst" "warm_slots al2 = {}"
    using 1 by (auto simp: al2_def al_inv_AddAddress warm_addresses_simps warm_slots_AddAddress
        split: option.split)
  have 3: "al_inv al3" "warm_addresses al3 = {sender} \<union> set_option dst \<union> set precompiles"
    "warm_slots al3 = {}"
    using alist.add_addrs_sets [OF 2(1), of precompiles] 2 by (simp_all add: al3_def)
  note 4 = alist.add_tuples_sets [OF 3(1), of list, folded al4_def]
  have t: "alist.add_tuple = (\<lambda>al el. foldl (\<lambda>al k. fst (AddSlot al (fst el) k))
      (fst (AddAddress al (fst el))) (snd el))"
    by (simp add: fun_eq_iff alist.add_tuple_def)
  have "al = (if isShanghai then fst (AddAddress al4 coinbase) else al4)"
    unfolding al Prepare_def Let_def al4_def t al3_def alist.add_addrs_def al2_def al1_def
    by simp
  with 3 4 show "al_inv al" "warm_addresses al = prepared isShanghai sender coinbase dst precompiles list"
    "warm_slots al = {(a, k). \<exists>ks. (a, ks) \<in> set list \<and> k \<in> set ks}"
    by (auto simp: prepared_def al_inv_AddAddress warm_addresses_simps warm_slots_AddAddress)
qed

lemma Prepare_rest:
  "sdb_ok s \<Longrightarrow> sdb_ok (Prepare isBerlin isShanghai sender coinbase dst precompiles list s)"
  "GetTransientState a k (Prepare isBerlin isShanghai sender coinbase dst precompiles list s) = 0"
proof -
  assume ok: "sdb_ok s"
  let ?t = "Prepare isBerlin isShanghai sender coinbase dst precompiles list s"
  have "al_inv (sdb_accessList ?t)"
    using ok Prepare_access(1) [OF refl] by (cases isBerlin) (simp_all add: Prepare_def sdb_ok_def)
  with ok show "sdb_ok ?t" unfolding sdb_ok_def by (simp add: Prepare_def Let_def)
qed (simp add: Prepare_def Let_def GetTransientState_def ts_Get_new)

section \<open>Properties\<close>

text \<open>
  C10: \<open>RevertToSnapshot\<close> never panics on the identifier of a snapshot taken earlier in the run and
  restores the abstract state (accounts with balance, nonce, code and storage, destructed
  accounts, refund, logs, preimages, access list, transient storage, dirty marks) of the moment
  the snapshot was taken, after any well-bracketed run of calls with nested frames.
\<close>

theorem revert_restores_state:
  assumes "sdb_ok s" "Snapshot s = (i, s1)" "sdb_run s1 s2"
  shows "\<exists>s3. RevertToSnapshot i s2 = Some s3 \<and> view s3 = view s \<and> sdb_ok s3"
proof -
  have "sdb_ok s1" using Snapshot_evolves(1) [OF assms(1,2)] by (rule evolves_ok)
  with assms(3) have "evolves s1 s2" by (rule sdb_run_evolves)
  from RevertToSnapshot_restores [OF assms(1,2) this] show ?thesis
    using evolves_ok by blast
qed

theorem revert_restores_state_witness:
  "\<exists>s3. RevertToSnapshot 0 (SetState 5 1 9 (AddBalance 5 100 (snd (Snapshot toy_state)))) = Some s3
     \<and> view s3 = view toy_state \<and> sdb_ok s3"
proof (rule revert_restores_state [OF toy_state_ok])
  show "Snapshot toy_state = (0, snd (Snapshot toy_state))"
    by (simp add: Snapshot_def Let_def toy_state_def state_New_def toy_db_def)
qed (rule toy_run)





text \<open>
  C13: \<open>Finalise\<close> gives the same state for every iteration order of the map of dirty addresses. It
  keeps the invariant, drops all revisions, removes every visited account that was self-destructed
  or, with \<open>deleteEmptyObjects\<close>, is empty, makes the storage of the other visited accounts their
  committed storage, and leaves all other accounts alone.
\<close>

theorem finalise_settles_accounts:
  assumes "sdb_ok s" "distinct order" "set order = dom (dirties (sdb_journal s))"
  shows "(\<forall>order'. distinct order' \<and> set order' = dom (dirties (sdb_journal s)) \<longrightarrow>
      Finalise d order' s = Finalise d order s) \<and>
    sdb_ok (Finalise d order s) \<and> validRevisions (Finalise d order s) = [] \<and>
    live_acct (view (Finalise d order s)) a =
      (if dirties (sdb_journal s) a \<noteq> None \<and> stateObjects s a \<noteq> None
       then Option.bind (live_acct (view s) a) (settled d (sdb_db s))
       else live_acct (view s) a)"
proof -
  have "\<forall>order'. distinct order' \<and> set order' = dom (dirties (sdb_journal s)) \<longrightarrow>
      Finalise d order' s = Finalise d order s"
    using finalise_fold_order [OF _ assms(2)] assms(3) unfolding Finalise_def by metis
  moreover have "sdb_ok (Finalise d order s)" "validRevisions (Finalise d order s) = []"
    using fold_finalise(1) [OF assms(2,1)] by (simp_all add: Finalise_def clearJournal_view)
  moreover have "visited order s a \<longleftrightarrow> dirties (sdb_journal s) a \<noteq> None \<and> stateObjects s a \<noteq> None"
    using assms(3) by (auto simp: visited_def)
  ultimately show ?thesis
    using live_acct_finalise [OF assms(2,1), of d a]
    by (simp add: Finalise_def clearJournal_view(1))
qed

theorem finalise_settles_accounts_witness:
  "validRevisions (Finalise True [5] toy_funded) = [] \<and>
   live_acct (view (Finalise True [5] toy_funded)) 5 \<noteq> None"
proof -
  have "set [5] = dom (dirties (sdb_journal toy_funded))" by (simp add: toy_funded(4))
  from finalise_settles_accounts [OF toy_funded(1) _ this, THEN conjunct2, of True 5]
  show ?thesis
    using toy_funded(3-5) by (auto simp: settled_def acct_empty_def fresh_acct_def acct_of_def newObject_def)
qed

text \<open>
  C15: under the Berlin rules \<open>Prepare\<close> starts the transaction with exactly the warm addresses of
  EIP-2929, EIP-2930 and EIP-3651 (sender, recipient, precompiles, the access list of the
  transaction and, from Shanghai on, the coinbase), exactly the storage slots of the access list,
  and empty transient storage.
\<close>

theorem prepare_warms_exactly:
  "SlotInAccessList a k (Prepare True isShanghai sender coinbase dst precompiles list s) =
     (a \<in> prepared isShanghai sender coinbase dst precompiles list,
      \<exists>ks. (a, ks) \<in> set list \<and> k \<in> set ks) \<and>
   AddressInAccessList a (Prepare True isShanghai sender coinbase dst precompiles list s) =
     (a \<in> prepared isShanghai sender coinbase dst precompiles list) \<and>
   GetTransientState a k (Prepare isBerlin isShanghai sender coinbase dst precompiles list s) = 0"
  by (simp add: SlotInAccessList_def AddressInAccessList_def Contains_warm ContainsAddress_warm
      Prepare_access(2,3) [OF refl] Prepare_rest(2))



end
