(* ===== verification/StateDB_VM.thy ===== *)
theory StateDB_VM
  imports StateDB_Props VM_Interface
begin

text \<open>
  The state database implements the interface of the virtual machine: the record of its
  operations and the interpretation of the contract \<open>vm_state\<close>.
\<close>

section \<open>The operations\<close>

definition statedb_ops :: "'tr StateDB StateDB_ops" where
  "statedb_ops =
     \<lparr>i_CreateAccount = CreateAccount, i_SubBalance = SubBalance, i_AddBalance = AddBalance,
      i_GetBalance = GetBalance, i_GetNonce = GetNonce, i_SetNonce = SetNonce,
      i_GetCodeHash = GetCodeHash,
      i_GetCode = (\<lambda>a s. let (c, s1) = GetCode a s in (case c of None \<Rightarrow> [] | Some b \<Rightarrow> b, s1)),
      i_SetCode = SetCode, i_GetCodeSize = GetCodeSize, i_AddRefund = AddRefund,
      i_SubRefund = SubRefund, i_GetRefund = GetRefund,
      i_GetCommittedState = GetCommittedState, i_GetState = GetState, i_SetState = SetState,
      i_GetTransientState = GetTransientState, i_SetTransientState = SetTransientState,
      i_Suicide = Suicide, i_HasSuicided = HasSuicided, i_Exist = Exist, i_Empty = Empty,
      i_AddressInAccessList = AddressInAccessList, i_SlotInAccessList = SlotInAccessList,
      i_AddAddressToAccessList = AddAddressToAccessList,
      i_AddSlotToAccessList = AddSlotToAccessList,
      i_Prepare = (\<lambda>r. Prepare (r_IsBerlin r) (r_IsShanghai r)),
      i_RevertToSnapshot = RevertToSnapshot, i_Snapshot = Snapshot, i_AddLog = AddLog,
      i_AddPreimage = AddPreimage\<rparr>"

section \<open>What a static call must not change\<close>

definition acct_world :: "acct option \<Rightarrow> int \<times> u64 \<times> bytes \<times> (Hash \<Rightarrow> Hash) \<times> bool" where
  "acct_world x =
     (case x of
        None \<Rightarrow> (0, 0, [], (\<lambda>_. 0), False)
      | Some c \<Rightarrow> (a_balance c, a_nonce c, a_code c, a_storage c, a_suicided c))"

definition same_world :: "'tr sview \<Rightarrow> 'tr sview \<Rightarrow> bool" where
  "same_world v w \<longleftrightarrow>
     (\<forall>a. acct_world (live_acct w a) = acct_world (live_acct v a)) \<and> v_refund w = v_refund v \<and>
     v_logs w = v_logs v \<and> v_logSize w = v_logSize v \<and> v_transient w = v_transient v"

definition sdb_quiet :: "'tr StateDB \<Rightarrow> 'tr StateDB \<Rightarrow> bool" where
  "sdb_quiet s t \<longleftrightarrow> same_world (view s) (view t)"

text \<open>
  The stored data behind the database has no slots for an account it does not know. This is how
  tries and snapshots behave: the storage trie of the empty root has no entries.
\<close>

definition stored_slots_ok :: "'tr StateDB \<Rightarrow> bool" where
  "stored_slots_ok s \<longleftrightarrow>
     (\<forall>a k. stored_account s a = None \<longrightarrow>
        decode_slot (slot_bytes (backing s) (newObject (sdb_db s) a zeroAccount) k) = 0)"

lemma stored_slots_backing:
  "backing t = backing s \<Longrightarrow> stored_slots_ok t = stored_slots_ok s"
  using stored_account_backing [of t s] by (simp add: stored_slots_ok_def backing_def)

text \<open>Every code is a slice, whose length is a signed 64-bit integer.\<close>

definition codes_ok :: "'tr sview \<Rightarrow> bool" where
  "codes_ok v \<longleftrightarrow> (\<forall>a x. v_accts v a = Some x \<longrightarrow> go_slice (a_code x))"

definition sdb_good :: "'tr StateDB \<Rightarrow> bool" where
  "sdb_good s \<longleftrightarrow> sdb_ok s \<and> stored_slots_ok s \<and> codes_ok (view s)"

definition sdb_evo :: "'tr StateDB \<Rightarrow> 'tr StateDB \<Rightarrow> bool" where
  "sdb_evo s t \<longleftrightarrow> evolves s t \<and> backing t = backing s \<and> sdb_good t"

lemma sdb_evoI:
  assumes "sdb_good s" "evolves s t" "view t = w" "v_backing w = backing s" "codes_ok w"
  shows "sdb_evo s t"
proof -
  have "backing t = backing s" using arg_cong [OF assms(3), of v_backing] assms(4) by simp
  with assms(1,2,3,5) evolves_ok [OF assms(2)] stored_slots_backing [of t s] show ?thesis
    by (simp add: sdb_evo_def sdb_good_def)
qed

lemma sdb_evo_reads:
  assumes "sdb_good s" "reads s t"
  shows "sdb_evo s t" "view t = view s"
proof -
  show v: "view t = view s" using assms(2) by (rule reads_view)
  have "evolves s t" using assms by (intro evolves_reads) (simp_all add: sdb_good_def)
  from sdb_evoI [OF assms(1) this v] assms(1) show "sdb_evo s t" by (simp add: sdb_good_def)
qed

section \<open>Backing and world of the specifications\<close>

lemma set_acct_sel [simp]:
  "v_backing (set_acct a x v) = v_backing v" "v_refund (set_acct a x v) = v_refund v"
  "v_logs (set_acct a x v) = v_logs v" "v_logSize (set_acct a x v) = v_logSize v"
  "v_transient (set_acct a x v) = v_transient v"
  by (simp_all add: set_acct_def)

lemma bump_sel' [simp]:
  "v_refund (bump a v) = v_refund v" "v_logs (bump a v) = v_logs v"
  "v_logSize (bump a v) = v_logSize v" "v_transient (bump a v) = v_transient v"
  by (simp_all add: bump_def)

lemma spec_backing [simp]:
  "v_backing (create_acct a v) = v_backing v" "v_backing (get_or_new a v) = v_backing v"
  "v_backing (modify_acct a f v) = v_backing v" "v_backing (v_CreateAccount a v) = v_backing v"
  "v_backing (v_AddBalance a x v) = v_backing v" "v_backing (v_SubBalance a x v) = v_backing v"
  "v_backing (v_SetState a k y v) = v_backing v" "v_backing (v_Suicide a v) = v_backing v"
  by (simp_all add: create_acct_def get_or_new_def modify_acct_def v_CreateAccount_def Let_def
      v_AddBalance_def v_SubBalance_def v_SetState_def v_Suicide_def split: option.split)

text \<open>No specification makes a code longer, except that of \<open>SetCode\<close>.\<close>

lemma codes_ok_set_acct:
  "codes_ok v \<Longrightarrow> go_slice (a_code x) \<Longrightarrow> codes_ok (set_acct a x v)"
  by (simp add: codes_ok_def set_acct_def)

lemma codes_ok_bump [simp]: "codes_ok (bump a v) = codes_ok v"
  by (simp add: codes_ok_def)

lemma fresh_acct_code [simp]: "a_code (fresh_acct bk x a) = []"
  by (simp add: fresh_acct_def acct_of_def)
    (simp add: newObject_def zeroAccount_def obj_code_def stored_code_def)

lemma codes_ok_create: "codes_ok v \<Longrightarrow> codes_ok (create_acct a v)"
  using codes_ok_set_acct [of v "fresh_acct (v_backing v) True a" a]
  by (simp add: create_acct_def codes_ok_set_acct codes_ok_def split: option.split)

lemma codes_ok_live:
  "codes_ok v \<Longrightarrow> live_acct v a = Some x \<Longrightarrow> go_slice (a_code x)"
  by (auto simp: codes_ok_def live_acct_def split: option.splits if_splits)

lemma codes_ok_get_or_new: "codes_ok v \<Longrightarrow> codes_ok (get_or_new a v)"
  by (simp add: get_or_new_def codes_ok_create split: option.split)

lemma get_or_new_present: "\<exists>x. v_accts (get_or_new a v) a = Some x"
  by (auto simp: get_or_new_def create_acct_def set_acct_def live_acct_def split: option.split)

lemma codes_ok_modify:
  assumes "codes_ok v" "\<And>x. go_slice (a_code x) \<Longrightarrow> go_slice (a_code (f x))"
  shows "codes_ok (modify_acct a f v)"
proof -
  obtain x where "v_accts (get_or_new a v) a = Some x" using get_or_new_present by blast
  with assms codes_ok_get_or_new [OF assms(1), of a] show ?thesis
    by (simp add: modify_acct_def Let_def codes_ok_set_acct) (simp add: codes_ok_def)
qed

lemma codes_ok_specs:
  assumes "codes_ok v"
  shows "codes_ok (v_CreateAccount a v)" "codes_ok (v_AddBalance a x v)"
    "codes_ok (v_SubBalance a x v)" "codes_ok (v_SetState a k y v)" "codes_ok (v_Suicide a v)"
proof -
  obtain z where "v_accts (create_acct a v) a = Some z"
    by (cases "v_accts v a") (auto simp: create_acct_def set_acct_def)
  with codes_ok_create [OF assms, of a] show "codes_ok (v_CreateAccount a v)"
    by (auto simp: v_CreateAccount_def Let_def intro!: codes_ok_set_acct split: option.split)
      (simp add: codes_ok_def)
qed (use assms in \<open>auto simp: v_AddBalance_def v_SubBalance_def v_SetState_def v_Suicide_def Let_def
    codes_ok_live intro!: codes_ok_get_or_new codes_ok_modify codes_ok_set_acct split: option.split\<close>)

lemma codes_ok_upd [simp]:
  "codes_ok (v\<lparr>v_refund := r\<rparr>) = codes_ok v" "codes_ok (v\<lparr>v_transient := t\<rparr>) = codes_ok v"
  "codes_ok (v\<lparr>v_logs := l\<rparr>) = codes_ok v" "codes_ok (v\<lparr>v_logSize := n\<rparr>) = codes_ok v"
  "codes_ok (v\<lparr>v_preimages := p\<rparr>) = codes_ok v" "codes_ok (v\<lparr>v_access := q\<rparr>) = codes_ok v"
  by (simp_all add: codes_ok_def)

lemma same_world_refl: "same_world v v"
  by (simp add: same_world_def)

lemma same_world_trans: "same_world u v \<Longrightarrow> same_world v w \<Longrightarrow> same_world u w"
  by (simp add: same_world_def)

lemma bump_live [simp]: "live_acct (bump a v) b = live_acct v b"
  by (simp add: live_acct_def)

lemma same_world_bump: "same_world v w \<Longrightarrow> same_world v (bump a w)"
  by (simp add: same_world_def)

lemma fresh_acct_world:
  assumes "sdb_good s" "x \<or> view_accts s a = None"
  shows "acct_world (Some (fresh_acct (backing s) x a)) = (0, 0, [], (\<lambda>_. 0), False)"
proof -
  let ?ob = "newObject (sdb_db s) a zeroAccount"
  have db: "bk_db (backing s) = sdb_db s" by (simp add: backing_def)
  have "view_accts s a = None \<Longrightarrow> stored_account s a = None"
    by (simp add: view_accts_def the_object_def split: option.splits)
  with assms have "\<not> x \<Longrightarrow> decode_slot (slot_bytes (backing s) ?ob k) = 0" for k
    by (auto simp: sdb_good_def stored_slots_ok_def)
  then have "current_slot (backing s) x ?ob = (\<lambda>_. 0)"
    by (auto simp: fun_eq_iff current_slot_def committed_slot_def newObject_def)
  then show ?thesis
    by (simp add: acct_world_def fresh_acct_def acct_of_def db)
      (simp add: newObject_def zeroAccount_def obj_code_def stored_code_def db)
qed

text \<open>Creating an account that does not exist leaves the world alone.\<close>

lemma create_acct_quiet:
  assumes "sdb_good s" "live_acct (view s) a = None"
  shows "same_world (view s) (create_acct a (view s))"
proof -
  have "acct_world (live_acct (create_acct a (view s)) b) = acct_world (live_acct (view s) b)" for b
  proof (cases "b = a")
    case True
    have fr: "\<not> a_deleted (fresh_acct bk x c)" for bk :: "'a backing" and x c
      by (rule fresh_acct_start)
    show ?thesis
    proof (cases "view_accts s a")
      case None
      with True fr assms(2) fresh_acct_world [OF assms(1), of "a \<in> stateObjectsDestruct s" a] show ?thesis
        by (simp add: create_acct_def live_acct_def set_acct_def acct_world_def)
    next
      case (Some y)
      with True fr assms(2) fresh_acct_world [OF assms(1), of True a] show ?thesis
        by (simp add: create_acct_def live_acct_def set_acct_def acct_world_def)
    qed
  qed (simp add: create_acct_def live_acct_def set_acct_def split: option.split)
  then show ?thesis
    by (simp add: same_world_def) (simp add: create_acct_def split: option.split)
qed

lemma get_or_new_quiet: "sdb_good s \<Longrightarrow> same_world (view s) (get_or_new a (view s))"
  by (simp add: get_or_new_def same_world_refl create_acct_quiet split: option.split)

lemma AddBalance_zero_quiet:
  assumes "sdb_good s"
  shows "sdb_quiet s (AddBalance a 0 s)" "sdb_quiet s (SubBalance a 0 s)"
  using assms get_or_new_quiet [OF assms, of a]
  by (simp_all add: sdb_quiet_def sdb_good_def AddBalance_spec(2) SubBalance_spec(2)
      v_AddBalance_def v_SubBalance_def Let_def same_world_bump)

lemma CreateAccount_new_quiet:
  assumes "sdb_good s" "\<not> fst (Exist a s)"
  shows "sdb_quiet s (CreateAccount a (snd (Exist a s)))"
proof -
  have ok: "sdb_ok s" using assms(1) by (simp add: sdb_good_def)
  note e = Exist_view [OF ok, of a]
  note s1 = sdb_evo_reads [OF assms(1) e(2)]
  have "sdb_ok (snd (Exist a s))" using s1(1) by (simp add: sdb_evo_def sdb_good_def)
  from CreateAccount_spec(2) [OF this, of a] assms(2) e(1) s1(2) create_acct_quiet [OF assms(1), of a]
  show ?thesis by (simp add: sdb_quiet_def v_CreateAccount_def Let_def)
qed

section \<open>Balances of the specifications\<close>

definition vbal :: "'tr sview \<Rightarrow> Address \<Rightarrow> int" where
  "vbal v a = (case live_acct v a of None \<Rightarrow> 0 | Some x \<Rightarrow> a_balance x)"

text \<open>No account is in debt, and the sum of all balances.\<close>

definition no_debt :: "'tr sview \<Rightarrow> bool" where
  "no_debt v \<longleftrightarrow> (\<forall>a. 0 \<le> vbal v a)"

definition total_supply :: "'tr sview \<Rightarrow> int" where
  "total_supply v = sum (vbal v) UNIV"

lemma vbal_bump [simp]: "vbal (bump a v) = vbal v"
  by (simp add: vbal_def fun_eq_iff)

lemma vbal_set_acct: "vbal (set_acct a x v) = (vbal v)(a := if a_deleted x then 0 else a_balance x)"
  by (simp add: vbal_def fun_eq_iff live_acct_def set_acct_def)

lemma vbal_destruct [simp]: "vbal (v\<lparr>v_destruct := D\<rparr>) = vbal v"
  by (simp add: vbal_def fun_eq_iff live_acct_def)

lemma fresh_acct_balance [simp]: "a_balance (fresh_acct bk x a) = 0"
  by (simp add: fresh_acct_def acct_of_def) (simp add: newObject_def zeroAccount_def)

lemma vbal_create: "vbal (create_acct a v) = (vbal v)(a := 0)"
  by (simp add: create_acct_def vbal_set_acct split: option.split)

lemma vbal_get_or_new: "vbal (get_or_new a v) = vbal v"
  by (auto simp: get_or_new_def vbal_create fun_eq_iff split: option.split) (simp add: vbal_def)

lemma get_or_new_acct:
  "\<not> a_deleted (the (v_accts (get_or_new a v) a))" "a_balance (the (v_accts (get_or_new a v) a)) = vbal v a"
proof -
  have "\<exists>x. v_accts (get_or_new a v) a = Some x \<and> \<not> a_deleted x"
  proof (cases "live_acct v a")
    case None
    then show ?thesis by (cases "v_accts v a") (simp_all add: get_or_new_def create_acct_def set_acct_def fresh_acct_start)
  next
    case (Some x)
    then show ?thesis by (simp add: get_or_new_def) (simp add: live_acct_def split: option.splits if_splits)
  qed
  then obtain x where "v_accts (get_or_new a v) a = Some x" "\<not> a_deleted x" by blast
  then show "\<not> a_deleted (the (v_accts (get_or_new a v) a))"
    "a_balance (the (v_accts (get_or_new a v) a)) = vbal v a"
    using vbal_get_or_new [of a v] by (auto simp: vbal_def fun_eq_iff live_acct_def dest: spec [of _ a])
qed

lemma vbal_modify:
  assumes "\<And>x. a_deleted (f x) = a_deleted x" "\<And>x. a_balance (f x) = g (a_balance x)"
  shows "vbal (modify_acct a f v) = (vbal v)(a := g (vbal v a))"
  using assms by (simp add: modify_acct_def Let_def vbal_set_acct vbal_get_or_new get_or_new_acct)

lemma vbal_specs:
  "vbal (v_AddBalance a x v) = (vbal v)(a := vbal v a + x)"
  "vbal (v_SubBalance a x v) = (vbal v)(a := vbal v a - x)"
  "vbal (v_Suicide a v) = (vbal v)(a := 0)" "vbal (v_CreateAccount a v) = vbal v"
  "vbal (v_SetState a k y v) = vbal v"
proof -
  show "vbal (v_AddBalance a x v) = (vbal v)(a := vbal v a + x)"
    using vbal_modify [of "\<lambda>c. c\<lparr>a_balance := a_balance c + x\<rparr>" "\<lambda>b. b + x" a v]
    by (simp add: v_AddBalance_def Let_def vbal_get_or_new)
  show "vbal (v_SubBalance a x v) = (vbal v)(a := vbal v a - x)"
    using vbal_modify [of "\<lambda>c. c\<lparr>a_balance := a_balance c - x\<rparr>" "\<lambda>b. b - x" a v]
    by (simp add: v_SubBalance_def Let_def vbal_get_or_new)
  show "vbal (v_Suicide a v) = (vbal v)(a := 0)"
    by (auto simp: v_Suicide_def vbal_set_acct fun_eq_iff split: option.split) (simp add: vbal_def)
  show "vbal (v_SetState a k y v) = vbal v"
    using vbal_modify [of "\<lambda>x. x\<lparr>a_storage := (a_storage x)(k := y)\<rparr>" "\<lambda>b. b" a v]
    by (simp add: v_SetState_def Let_def vbal_get_or_new)
  have "\<not> a_deleted (the (v_accts (create_acct a v) a))"
    by (simp add: create_acct_def set_acct_def fresh_acct_start split: option.split)
  then show "vbal (v_CreateAccount a v) = vbal v"
    by (auto simp: v_CreateAccount_def Let_def vbal_set_acct vbal_create fun_eq_iff split: option.split)
      (simp_all add: vbal_def)
qed

lemma vbal_upd [simp]:
  "vbal (v\<lparr>v_refund := r\<rparr>) = vbal v" "vbal (v\<lparr>v_transient := t\<rparr>) = vbal v"
  "vbal (v\<lparr>v_logs := l\<rparr>) = vbal v" "vbal (v\<lparr>v_logSize := n\<rparr>) = vbal v"
  "vbal (v\<lparr>v_preimages := p\<rparr>) = vbal v" "vbal (v\<lparr>v_access := q\<rparr>) = vbal v"
  by (simp_all add: vbal_def fun_eq_iff live_acct_def)

lemma sdb_bal:
  assumes "sdb_good s"
  shows "fst (GetBalance a s) = vbal (view s) a"
    "vbal (view (AddBalance a x s)) = (vbal (view s))(a := vbal (view s) a + x)"
    "vbal (view (SubBalance a x s)) = (vbal (view s))(a := vbal (view s) a - x)"
    "vbal (view (snd (Suicide a s))) = (vbal (view s))(a := 0)"
    "vbal (view (CreateAccount a s)) = vbal (view s)" "vbal (view (SetNonce a n s)) = vbal (view s)"
    "vbal (view (SetCode a c s)) = vbal (view s)" "vbal (view (AddRefund g s)) = vbal (view s)"
    "SubRefund g s = Some t \<Longrightarrow> vbal (view t) = vbal (view s)"
    "vbal (view (SetState a k v s)) = vbal (view s)" "vbal (view (SetTransientState a k v s)) = vbal (view s)"
    "vbal (view (AddLog l s)) = vbal (view s)" "vbal (view (AddPreimage h p s)) = vbal (view s)"
    "vbal (view (AddAddressToAccessList a s)) = vbal (view s)"
    "vbal (view (AddSlotToAccessList a k s)) = vbal (view s)"
proof -
  have ok: "sdb_ok s" using assms by (simp add: sdb_good_def)
  note V = AddBalance_spec(2) SubBalance_spec(2) Suicide_spec(2) CreateAccount_spec(2) SetNonce_spec(2)
    SetCode_spec(2) AddRefund_spec(2) SetState_spec(2) SetTransientState_spec(2) AddLog_spec(2)
    AddPreimage_spec(2) AddAddressToAccessList_spec(2) AddSlotToAccessList_spec(2) vbal_specs
  show "vbal (view (SetNonce a n s)) = vbal (view s)"
    using vbal_modify [of "\<lambda>c. c\<lparr>a_nonce := n\<rparr>" "\<lambda>b. b" a "view s"] by (simp add: V ok)
  show "vbal (view (SetCode a c s)) = vbal (view s)"
    using vbal_modify [of "\<lambda>x. x\<lparr>a_codehash := Keccak256Hash (sdb_db s) c, a_code := c\<rparr>" "\<lambda>b. b" a "view s"]
    by (simp add: V ok)
  show "SubRefund g s = Some t \<Longrightarrow> vbal (view t) = vbal (view s)" using SubRefund_spec(2) [OF ok] by simp
  show "fst (GetBalance a s) = vbal (view s) a" using GetBalance_view(1) [OF ok] by (simp add: vbal_def)
qed (use assms in \<open>simp_all add: sdb_good_def AddBalance_spec(2) SubBalance_spec(2) Suicide_spec(2)
    CreateAccount_spec(2) AddRefund_spec(2) SetState_spec(2) SetTransientState_spec(2) AddLog_spec(2)
    AddPreimage_spec(2) AddAddressToAccessList_spec(2) AddSlotToAccessList_spec(2) vbal_specs\<close>)

section \<open>The contract holds\<close>

lemma sdb_setter_evo:
  assumes "sdb_good s"
  shows "sdb_evo s (CreateAccount a s)" "sdb_evo s (SubBalance a x s)" "sdb_evo s (AddBalance a x s)"
    "sdb_evo s (SetNonce a n s)" "go_slice c \<Longrightarrow> sdb_evo s (SetCode a c s)" "sdb_evo s (AddRefund g s)"
    "sdb_evo s (SetState a k v s)" "sdb_evo s (SetTransientState a k v s)"
    "sdb_evo s (snd (Suicide a s))" "sdb_evo s (AddLog l s)" "sdb_evo s (AddPreimage h p s)"
    "sdb_evo s (AddAddressToAccessList a s)" "sdb_evo s (AddSlotToAccessList a k s)"
proof -
  have ok: "sdb_ok s" and C: "codes_ok (view s)" using assms by (simp_all add: sdb_good_def)
  note E = sdb_evoI [OF assms]
  show "sdb_evo s (CreateAccount a s)" by (rule E [OF CreateAccount_spec [OF ok]]) (simp_all add: C codes_ok_specs codes_ok_modify)
  show "sdb_evo s (SubBalance a x s)" by (rule E [OF SubBalance_spec [OF ok]]) (simp_all add: C codes_ok_specs codes_ok_modify)
  show "sdb_evo s (AddBalance a x s)" by (rule E [OF AddBalance_spec [OF ok]]) (simp_all add: C codes_ok_specs codes_ok_modify)
  show "sdb_evo s (SetNonce a n s)"
    by (rule E [OF SetNonce_spec [OF ok]]) (simp, rule codes_ok_modify [OF C], simp)
  show "go_slice c \<Longrightarrow> sdb_evo s (SetCode a c s)"
    by (rule E [OF SetCode_spec [OF ok]]) (simp_all add: C codes_ok_modify)
  show "sdb_evo s (SetState a k v s)" by (rule E [OF SetState_spec [OF ok]]) (simp_all add: C codes_ok_specs codes_ok_modify)
  show "sdb_evo s (snd (Suicide a s))" by (rule E [OF Suicide_spec(1,2) [OF ok]]) (simp_all add: C codes_ok_specs codes_ok_modify)
  show "sdb_evo s (AddRefund g s)" by (rule E [OF AddRefund_spec [OF ok]]) (simp_all add: C codes_ok_specs codes_ok_modify)
  show "sdb_evo s (SetTransientState a k v s)" by (rule E [OF SetTransientState_spec [OF ok]]) (simp_all add: C codes_ok_specs codes_ok_modify)
  show "sdb_evo s (AddLog l s)" by (rule E [OF AddLog_spec [OF ok]]) (simp_all add: C codes_ok_specs codes_ok_modify)
  show "sdb_evo s (AddPreimage h p s)" by (rule E [OF AddPreimage_spec [OF ok]]) (simp_all add: C codes_ok_specs codes_ok_modify)
  show "sdb_evo s (AddAddressToAccessList a s)" by (rule E [OF AddAddressToAccessList_spec [OF ok]]) (simp_all add: C codes_ok_specs codes_ok_modify)
  show "sdb_evo s (AddSlotToAccessList a k s)" by (rule E [OF AddSlotToAccessList_spec [OF ok]]) (simp_all add: C codes_ok_specs codes_ok_modify)
qed

lemma sdb_query_evo:
  assumes "sdb_good s"
  shows "sdb_evo s (snd (GetBalance a s)) \<and> view (snd (GetBalance a s)) = view s"
    "sdb_evo s (snd (GetNonce a s)) \<and> view (snd (GetNonce a s)) = view s"
    "sdb_evo s (snd (GetCodeHash a s)) \<and> view (snd (GetCodeHash a s)) = view s"
    "sdb_evo s (snd (GetCode a s)) \<and> view (snd (GetCode a s)) = view s"
    "sdb_evo s (snd (GetCodeSize a s)) \<and> view (snd (GetCodeSize a s)) = view s"
    "sdb_evo s (snd (GetCommittedState a k s)) \<and> view (snd (GetCommittedState a k s)) = view s"
    "sdb_evo s (snd (GetState a k s)) \<and> view (snd (GetState a k s)) = view s"
    "sdb_evo s (snd (HasSuicided a s)) \<and> view (snd (HasSuicided a s)) = view s"
    "sdb_evo s (snd (Exist a s)) \<and> view (snd (Exist a s)) = view s"
    "sdb_evo s (snd (Empty a s)) \<and> view (snd (Empty a s)) = view s"
proof -
  have ok: "sdb_ok s" using assms by (simp add: sdb_good_def)
  note R = sdb_evo_reads [OF assms]
  show "sdb_evo s (snd (GetBalance a s)) \<and> view (snd (GetBalance a s)) = view s"
    using R [OF GetBalance_view(2) [OF ok]] by blast
  show "sdb_evo s (snd (GetNonce a s)) \<and> view (snd (GetNonce a s)) = view s"
    using R [OF GetNonce_view(2) [OF ok]] by blast
  show "sdb_evo s (snd (GetCodeHash a s)) \<and> view (snd (GetCodeHash a s)) = view s"
    using R [OF GetCodeHash_view(2) [OF ok]] by blast
  show "sdb_evo s (snd (GetCode a s)) \<and> view (snd (GetCode a s)) = view s"
    using R [OF GetCode_view(2) [OF ok]] by blast
  show "sdb_evo s (snd (GetCodeSize a s)) \<and> view (snd (GetCodeSize a s)) = view s"
    using R [OF GetCodeSize_view(2) [OF ok]] by blast
  show "sdb_evo s (snd (GetCommittedState a k s)) \<and> view (snd (GetCommittedState a k s)) = view s"
    using R [OF GetCommittedState_view(2) [OF ok]] by blast
  show "sdb_evo s (snd (GetState a k s)) \<and> view (snd (GetState a k s)) = view s"
    using R [OF GetState_view(2) [OF ok]] by blast
  show "sdb_evo s (snd (HasSuicided a s)) \<and> view (snd (HasSuicided a s)) = view s"
    using R [OF HasSuicided_view(2) [OF ok]] by blast
  show "sdb_evo s (snd (Exist a s)) \<and> view (snd (Exist a s)) = view s"
    using R [OF Exist_view(2) [OF ok]] by blast
  show "sdb_evo s (snd (Empty a s)) \<and> view (snd (Empty a s)) = view s"
    using R [OF Empty_view(2) [OF ok]] by blast
qed

lemma sdb_quiet_adds:
  assumes "sdb_good s"
  shows "sdb_quiet s (AddPreimage h p s)" "sdb_quiet s (AddAddressToAccessList a s)"
    "sdb_quiet s (AddSlotToAccessList a k s)"
proof -
  have ok: "sdb_ok s" using assms by (simp add: sdb_good_def)
  show "sdb_quiet s (AddPreimage h p s)" "sdb_quiet s (AddAddressToAccessList a s)"
    "sdb_quiet s (AddSlotToAccessList a k s)"
    by (simp_all add: sdb_quiet_def AddPreimage_spec(2) [OF ok] AddAddressToAccessList_spec(2) [OF ok]
        AddSlotToAccessList_spec(2) [OF ok] same_world_def live_acct_def)
qed

lemma sdb_Revert:
  assumes "sdb_good s" "Snapshot s = (i, t)" "sdb_evo t u"
  shows "\<exists>v. RevertToSnapshot i u = Some v \<and> view v = view s \<and> sdb_evo s v"
proof -
  have "sdb_ok s" "evolves t u" using assms by (simp_all add: sdb_good_def sdb_evo_def)
  from RevertToSnapshot_restores [OF this(1) assms(2) this(2)] obtain v where
    "RevertToSnapshot i u = Some v" "view v = view s" "evolves s v" by blast
  with sdb_evoI [OF assms(1) this(3,2)] assms(1) show ?thesis by (simp add: sdb_good_def)
qed

lemma sdb_SubRefund_evo: "sdb_good s \<Longrightarrow> SubRefund g s = Some t \<Longrightarrow> sdb_evo s t"
  by (rule sdb_evoI [of s t "(view s)\<lparr>v_refund := refund s - g\<rparr>"])
    (auto simp: sdb_good_def intro: SubRefund_spec)

lemma sdb_GetCode_size:
  assumes "sdb_good s"
  shows "go_slice (case fst (GetCode a s) of None \<Rightarrow> [] | Some b \<Rightarrow> b)"
  using assms GetCode_view(1) [of s a] codes_ok_live [of "view s" a]
  by (simp add: sdb_good_def split: option.split)

lemma sdb_Snapshot_evo:
  assumes "sdb_good s" "Snapshot s = (i, t)"
  shows "sdb_evo s t" "view t = view s"
proof -
  have ok: "sdb_ok s" using assms(1) by (simp add: sdb_good_def)
  show v: "view t = view s" by (rule Snapshot_evolves(2) [OF ok assms(2)])
  show "sdb_evo s t" by (rule sdb_evoI [OF assms(1) Snapshot_evolves(1) [OF ok assms(2)] v])
      (use assms(1) in \<open>simp_all add: sdb_good_def\<close>)
qed

lemma sdb_evo_order:
  "sdb_good s \<Longrightarrow> sdb_evo s s" "sdb_evo s t \<Longrightarrow> sdb_evo t u \<Longrightarrow> sdb_evo s u"
  "sdb_evo s t \<Longrightarrow> sdb_good t"
  "sdb_quiet s s" "sdb_quiet s t \<Longrightarrow> sdb_quiet t u \<Longrightarrow> sdb_quiet s u"
  "view t = view s \<Longrightarrow> sdb_quiet s t"
  by (auto simp: sdb_evo_def sdb_good_def sdb_quiet_def same_world_def evolves_refl
      intro: evolves_trans)

interpretation sdb_vm: vm_state statedb_ops sdb_good sdb_evo "\<lambda>s t. view t = view s" sdb_quiet
  "\<lambda>s. vbal (view s)"
  by unfold_locales
    (simp_all add: statedb_ops_def sdb_evo_order(1,4,6) sdb_setter_evo sdb_query_evo sdb_quiet_adds
      sdb_GetCode_size AddBalance_zero_quiet CreateAccount_new_quiet sdb_Revert sdb_bal case_prod_beta Let_def,
      (blast intro: sdb_evo_order sdb_SubRefund_evo sdb_Snapshot_evo sdb_bal)+)

end
