(* ===== verification/VM_Logic.thy ===== *)
theory VM_Logic
  imports VM_Interpreter StateDB_VM
begin

text \<open>
  A small program logic for the virtual machine. \<open>safe x Q\<close> says that the outcome \<open>x\<close> is a return
  that satisfies \<open>Q\<close>, or one of three panics that are not excluded here; in particular the fuel
  does not run out. On top of it stand the contracts of the parts of the interpreter: of a runner
  (\<open>good\<close>), of an instruction (\<open>exec_safe\<close>), of a dynamic price (\<open>gas_safe\<close>) and of an entry of a
  jump table (\<open>op_safe\<close>), over any state that keeps the contract \<open>vm_state\<close>; the interpretation in
  \<open>StateDB_VM\<close> carries every result over to the state database.
\<close>

section \<open>Outcomes\<close>

definition residual :: "panic set" where
  "residual = {RefundPanic, AccessListPanic, BitmapPanic}"

definition safe :: "'a outcome \<Rightarrow> ('a \<Rightarrow> bool) \<Rightarrow> bool" where
  "safe x Q \<longleftrightarrow> (case x of Ret y \<Rightarrow> Q y | Panic p \<Rightarrow> p \<in> residual | NoFuel \<Rightarrow> False)"

lemma safe_simps [simp]:
  "safe (Ret x) Q \<longleftrightarrow> Q x" "safe (Panic p) Q \<longleftrightarrow> p \<in> residual" "\<not> safe NoFuel Q"
  "safe (bind_outcome y f) Q \<longleftrightarrow> safe y (\<lambda>z. safe (f z) Q)"
  by (simp_all add: safe_def) (cases y, simp_all)

lemma residual_simps [simp]:
  "RefundPanic \<in> residual" "AccessListPanic \<in> residual" "BitmapPanic \<in> residual"
  "StackPanic \<notin> residual" "MemoryPanic \<notin> residual" "SlicePanic \<notin> residual"
  "SnapshotPanic \<notin> residual" "NilPanic \<notin> residual" "GasPoolPanic \<notin> residual"
  by (simp_all add: residual_def)

lemma safe_mono: "safe x P \<Longrightarrow> (\<And>y. P y \<Longrightarrow> Q y) \<Longrightarrow> safe x Q"
  by (cases x) (simp_all add: safe_def)

lemma safe_Ret: "safe x P \<Longrightarrow> x = Ret y \<Longrightarrow> P y"
  by simp

section \<open>Integers, memory and data\<close>

lemma uint256_simps:
  assumes "uint256_ok U"
  shows "u_IsZero U x \<longleftrightarrow> x = 0" "u_Sign U x = 0 \<longleftrightarrow> x = 0" "u_Uint64 U x = ucast x"
    "u_IsUint64 U x \<longleftrightarrow> unat x < 2 ^ 64"
    "u_Uint64WithOverflow U x = (ucast x, \<not> unat x < 2 ^ 64)"
    "length (u_Bytes32 U x) = 32" "u_ToBig U x = uint x" "u_Add U x y = x + y"
  using assms by (simp_all add: uint256_ok_def)

lemma unat_ucast_u64: "unat (x :: u256) < 2 ^ 64 \<Longrightarrow> unat (ucast x :: u64) = unat x"
  by (simp add: unsigned_ucast_eq take_bit_nat_eq_self)

text \<open>\<open>covers m off l\<close>: the range of \<open>l\<close> bytes at \<open>off\<close> lies in the memory, or is empty.\<close>

definition covers :: "Memory \<Rightarrow> u256 \<Rightarrow> u256 \<Rightarrow> bool" where
  "covers m off l \<longleftrightarrow> l = 0 \<or> unat off + unat l \<le> length (store m)"

lemma covers_length: "mem_ok m \<Longrightarrow> covers m off l \<Longrightarrow> unat l \<le> 0x1FFFFFFFE0"
  by (auto simp: covers_def mem_ok_def)

lemma calcMemSize64WithUint_covers:
  assumes "uint256_ok U" "calcMemSize64WithUint U off n = (v, False)" "unat v \<le> length (store m)" "n \<noteq> 0"
  shows "unat off + unat n \<le> length (store m)"
proof -
  have o: "unat off < 2 ^ 64" "v = ucast off + n" "\<not> v < ucast off"
    using assms by (auto simp: calcMemSize64WithUint_def uint256_simps Let_def split: if_splits)
  then have "unat v = unat (ucast off :: u64) + unat n"
    by (metis not_less unat_plus_simple)
  with o(1) assms(3) show ?thesis by (simp add: unat_ucast_u64)
qed

lemma calcMemSize64_covers:
  assumes U: "uint256_ok U" and "calcMemSize64 U off l = (v, False)" "unat v \<le> length (store m)"
  shows "covers m off l"
proof (cases "l = 0")
  case False
  have l: "unat l < 2 ^ 64" and c: "calcMemSize64WithUint U off (ucast l) = (v, False)"
    using assms by (auto simp: calcMemSize64_def uint256_simps split: if_splits)
  have u: "unat (ucast l :: u64) = unat l" using l by (rule unat_ucast_u64)
  with False have "(ucast l :: u64) \<noteq> 0" by (metis unat_0 unat_eq_zero)
  with calcMemSize64WithUint_covers [OF U c assms(3)] u show ?thesis by (simp add: covers_def)
qed (simp add: covers_def)

lemma sint_u64: "unat (x :: u64) < 2 ^ 63 \<Longrightarrow> sint x = int (unat x)"
proof -
  assume "unat x < 2 ^ 63"
  then have "uint x < 2 ^ 63" by (simp add: uint_nat del: of_nat_unat)
  then have "signed_take_bit 63 (uint x) = uint x"
    by (intro signed_take_bit_int_eq_self [OF order_trans [OF _ uint_ge_0]]) simp_all
  moreover have "sint x = signed_take_bit 63 (uint x)" by (subst sint_uint) simp
  ultimately show ?thesis by simp
qed

lemma sint_ucast_small: "unat (x :: u256) < 2 ^ 63 \<Longrightarrow> sint (ucast x :: u64) = int (unat x)"
  using unat_ucast_u64 [of x] sint_u64 [of "ucast x"] by simp

lemma mem_slice_covers:
  assumes "mem_ok m" "covers m off l"
  shows "safe (mem_GetPtr (sint (ucast off :: u64)) (sint (ucast l :: u64)) m) go_slice"
    "safe (mem_GetCopy (sint (ucast off :: u64)) (sint (ucast l :: u64)) m) go_slice"
proof -
  let ?a = "sint (ucast off :: u64)" let ?b = "sint (ucast l :: u64)"
  have "l = 0 \<or> (?a = int (unat off) \<and> ?b = int (unat l) \<and> unat l \<noteq> 0 \<and>
      unat off + unat l \<le> length (store m) \<and> length (store m) \<le> 0x1FFFFFFFE0)"
    using assms by (auto simp: covers_def mem_ok_def sint_ucast_small unat_eq_zero)
  then show "safe (mem_GetPtr ?a ?b m) go_slice" "safe (mem_GetCopy ?a ?b m) go_slice"
    by (auto simp: mem_GetPtr_def mem_GetCopy_def mem_slice_def copy_at_def go_slice_def Let_def
        simp del: of_nat_unat)
qed

lemma mem_GetPtr_32:
  assumes "mem_ok m" "unat off + 32 \<le> length (store m)"
  shows "safe (mem_GetPtr (sint (ucast (off :: u256) :: u64)) 32 m) (\<lambda>b. True)"
proof -
  have "sint (ucast off :: u64) = int (unat off)"
    using assms by (intro sint_ucast_small) (auto simp: mem_ok_def)
  with assms show ?thesis by (simp add: mem_GetPtr_def mem_slice_def del: of_nat_unat)
qed

text \<open>Writes keep the size and the cached fee.\<close>

definition same_size :: "Memory \<Rightarrow> Memory \<Rightarrow> bool" where
  "same_size m m' \<longleftrightarrow> length (store m') = length (store m) \<and> lastGasCost m' = lastGasCost m"

lemma same_size_ok: "mem_ok m \<Longrightarrow> same_size m m' \<Longrightarrow> mem_ok m'"
  by (simp add: mem_ok_def same_size_def)

lemma same_size_refl [simp]: "same_size m m"
  by (simp add: same_size_def)

lemma length_copy_at: "i + n \<le> length dst \<Longrightarrow> length (copy_at i n src dst) = length dst"
  by (simp add: copy_at_def Let_def)

lemma unat_mem_len: "mem_ok m \<Longrightarrow> unat (of_nat (length (store m)) :: u64) = length (store m)"
  by (simp add: mem_ok_def unat_of_nat)

lemma mem_Set_covers:
  assumes "mem_ok m" "covers m off l"
  shows "safe (mem_Set (ucast off) (ucast l) v m) (same_size m)"
proof (cases "l = 0")
  case False
  then have r: "unat off + unat l \<le> length (store m)" "length (store m) \<le> 0x1FFFFFFFE0"
    using assms by (auto simp: covers_def mem_ok_def)
  have u: "unat (ucast off :: u64) = unat off" "unat (ucast l :: u64) = unat l"
    using r by (auto intro!: unat_ucast_u64)
  then have s: "unat (ucast off + ucast l :: u64) = unat off + unat l"
    using r by (simp add: unat_add_u64)
  show ?thesis
    using r u s unat_mem_len [OF assms(1)]
    by (auto simp: mem_Set_def word_less_nat_alt same_size_def length_copy_at)
qed (simp add: mem_Set_def)

lemma mem_Set32_covers:
  assumes "mem_ok m" "unat off + 32 \<le> length (store m)" "length (u_Bytes32 U v) = 32"
  shows "safe (mem_Set32 U (ucast (off :: u256)) v m) (same_size m)"
proof -
  have r: "length (store m) \<le> 0x1FFFFFFFE0" using assms(1) by (simp add: mem_ok_def)
  have u: "unat (ucast off :: u64) = unat off" using r assms(2) by (intro unat_ucast_u64) simp
  then have "unat (ucast off + 32 :: u64) = unat off + 32" using r assms(2) by (simp add: unat_add_u64)
  with r u assms(2) unat_mem_len [OF assms(1)] show ?thesis
    by (auto simp: mem_Set32_def word_less_nat_alt same_size_def length_copy_at)
qed

lemma getData_Ret:
  assumes "go_slice data" "unat sz < 2 ^ 63"
  shows "\<exists>b. getData data start sz = Ret b"
proof -
  define len where "len = (of_nat (length data) :: u64)"
  define s where "s = (if len < start then len else start)"
  have l: "unat len = length data" using assms(1) by (simp add: len_def go_slice_def unat_of_nat)
  then have s: "unat s \<le> length data" by (simp add: s_def word_less_nat_alt)
  then have "unat (s + sz) = unat s + unat sz"
    using assms by (simp add: go_slice_def unat_add_u64)
  then have "\<not> (if len < s + sz then len else s + sz) < s"
    using l s by (simp add: word_less_nat_alt)
  then show ?thesis by (auto simp: getData_def Let_def simp flip: len_def s_def)
qed

lemma getData_safe:
  "go_slice data \<Longrightarrow> unat sz < 2 ^ 63 \<Longrightarrow> safe (getData data start sz) (\<lambda>_. True)"
  using getData_Ret [of data sz start] by auto

lemma getData_covers:
  assumes "go_slice data" "mem_ok m" "covers m off l"
  shows "safe (getData data start (ucast l)) (\<lambda>_. True)"
proof (rule getData_safe [OF assms(1)])
  have "unat l \<le> 0x1FFFFFFFE0" using assms(2,3) by (rule covers_length)
  then show "unat (ucast l :: u64) < 2 ^ 63" by (simp add: unat_ucast_u64)
qed

text \<open>After the price of \<open>sz\<close> bytes was paid and the memory resized, it has at least that size.\<close>

lemma memory_grows:
  assumes m: "mem_ok m" and g: "memoryGasCost m (toWordSize n * 32) = (Inr fee, m')"
    and n: "unat n \<le> 2 ^ 64 - 32"
  defines "sz \<equiv> toWordSize n * 32"
  shows "mem_ok (if 0 < sz then mem_Resize sz m' else m')"
    "unat n \<le> length (store (if 0 < sz then mem_Resize sz m' else m'))"
    "unat fee < 2 ^ 56"
proof -
  have t: "unat (toWordSize n) = (unat n + 31) div 32" by (rule unat_toWordSize)
  then have sz: "unat sz = (unat n + 31) div 32 * 32"
    unfolding sz_def using n by (subst unat_mult_u64) (simp_all add: t)
  have "mem_ok (if 0 < sz then mem_Resize sz m' else m') \<and>
    unat n \<le> length (store (if 0 < sz then mem_Resize sz m' else m')) \<and> unat fee < 2 ^ 56"
  proof (cases "sz = 0")
    case True
    then have "unat n = 0" using sz by simp
    moreover have "fee = 0" "m' = m" using g True by (simp_all add: sz_def memoryGasCost_def)
    ultimately show ?thesis using m True by simp
  next
    case False
    have le: "unat sz \<le> 0x1FFFFFFFE0"
      using g False by (auto simp: memoryGasCost_def sz_def word_less_nat_alt split: if_splits)
    from False have pos: "0 < unat sz" by (simp add: unat_gt_0)
    have tw: "toWordSize sz * 32 = sz"
      using unat_mem_words(1) [OF le] sz by (simp add: word_unat_eq_iff)
    from memoryGasCost_ok [OF m pos le] g tw
    have "unat fee \<le> mem_fee (max (length (store m) div 32) ((unat sz + 31) div 32))"
      "mem_ok (mem_Resize sz m')"
      "length (store (mem_Resize sz m')) = 32 * max (length (store m) div 32) ((unat sz + 31) div 32)"
      by (auto simp: sz_def)
    moreover have "mem_fee (max (length (store m) div 32) ((unat sz + 31) div 32)) < 2 ^ 56"
      using m le by (intro mem_fee_bound) (auto simp: mem_ok_def)
    moreover have "unat n \<le> 32 * ((unat sz + 31) div 32)"
      using sz div_mult_mod_eq [of "unat n + 31" 32] by simp
    ultimately show ?thesis using False by (auto simp: word_gt_0 max_def)
  qed
  then show "mem_ok (if 0 < sz then mem_Resize sz m' else m')"
    "unat n \<le> length (store (if 0 < sz then mem_Resize sz m' else m'))" "unat fee < 2 ^ 56"
    by blast+
qed

section \<open>Contracts\<close>

text \<open>The memory the size function of an instruction asks for is there.\<close>

definition covered :: "memorySizeFunc option \<Rightarrow> 'st frame \<Rightarrow> bool" where
  "covered ms fr \<longleftrightarrow>
     (\<forall>f. ms = Some f \<longrightarrow> (\<exists>v. f (fr_stack fr) = Ret (v, False) \<and> unat v \<le> length (store (fr_mem fr))))"

definition ct_ok :: "Contract \<Rightarrow> bool" where
  "ct_ok ct \<longleftrightarrow> go_slice (Code ct) \<and> go_slice (Input ct) \<and> ct_value ct \<noteq> None"

definition ct_keeps :: "Contract \<Rightarrow> Contract \<Rightarrow> bool" where
  "ct_keeps ct ct' \<longleftrightarrow> Code ct' = Code ct \<and> Input ct' = Input ct \<and> ct_value ct' = ct_value ct"

text \<open>An instruction that refuses to run under write protection, and one that always halts.\<close>

definition writer :: "'st executionFunc \<Rightarrow> bool" where
  "writer f \<longleftrightarrow> (\<forall>run fr. readOnly (fr_evm fr) \<longrightarrow> f run fr = fail ErrWriteProtection fr)"

definition halting :: "'st executionFunc \<Rightarrow> bool" where
  "halting f \<longleftrightarrow> (\<forall>run fr res fr'. f run fr \<noteq> Ret ((res, None), fr'))"

text \<open>An error that makes the caller keep the changes.\<close>

definition accepting :: "vm_error option \<Rightarrow> bool" where
  "accepting err \<longleftrightarrow> err = None \<or> err = Some errStopToken"

text \<open>The part of a turn of the loop that follows the stack check and the constant price.\<close>

definition op_body :: "'st operation \<Rightarrow> 'st runner \<Rightarrow> 'st frame \<Rightarrow> 'st step_result outcome" where
  "op_body op run fr =
     bind_outcome (charge_dynamic op fr) (\<lambda>(err, fr).
       if err \<noteq> None then Ret (Halt ([], err) fr)
       else bind_outcome (execute op run fr) (\<lambda>((res, err), fr).
         if err \<noteq> None then Ret (Halt (res, err) fr)
         else Ret (Next (fr\<lparr>fr_pc := fr_pc fr + 1\<rparr>))))"

lemma interp_step_op_body:
  "interp_step jt run fr =
     (let op = jt (GetOp (fr_pc fr) (fr_contract fr)); n = length (fr_stack fr)
      in if n < op_minStack op then Ret (Halt ([], Some (ErrStackUnderflow n (op_minStack op))) fr)
         else if op_maxStack op < n then Ret (Halt ([], Some (ErrStackOverflow n (op_maxStack op))) fr)
         else if Gas (fr_contract fr) < constantGas op then Ret (Halt ([], Some ErrOutOfGas) fr)
         else op_body op run
           (fr\<lparr>fr_contract := (fr_contract fr)\<lparr>Gas := Gas (fr_contract fr) - constantGas op\<rparr>\<rparr>))"
  by (simp add: interp_step_def op_body_def UseGas_def Let_def)

context vm_state begin

text \<open>
  No balance is negative, and no ether comes into being: from a state of sound balances the machine
  moves to one of sound balances whose sum is no larger.
\<close>

definition sound :: "'st \<Rightarrow> bool" where
  "sound s \<longleftrightarrow> (\<forall>a. 0 \<le> bal s a)"

definition total :: "'st \<Rightarrow> int" where
  "total s = sum (bal s) UNIV"

definition fair :: "'st \<Rightarrow> 'st \<Rightarrow> bool" where
  "fair s t \<longleftrightarrow> (sound s \<longrightarrow> sound t \<and> total t \<le> total s)"

definition evo_evm :: "'st EVM \<Rightarrow> 'st EVM \<Rightarrow> bool" where
  "evo_evm e e' \<longleftrightarrow> evo (evm_StateDB e) (evm_StateDB e') \<and> fair (evm_StateDB e) (evm_StateDB e') \<and>
     depth e' = depth e \<and> readOnly e' = readOnly e"

definition quiet_evm :: "'st EVM \<Rightarrow> 'st EVM \<Rightarrow> bool" where
  "quiet_evm e e' \<longleftrightarrow> quiet (evm_StateDB e) (evm_StateDB e')"

definition ok_evm :: "'st EVM \<Rightarrow> bool" where
  "ok_evm e \<longleftrightarrow> ok (evm_StateDB e)"

text \<open>What a run of the interpreter with \<open>n\<close> units of fuel keeps to.\<close>

definition run_post :: "Contract \<Rightarrow> bool \<Rightarrow> 'st EVM \<Rightarrow> (bytes \<times> vm_error option) \<times> Contract \<times> 'st EVM \<Rightarrow> bool" where
  "run_post ct ro e r \<longleftrightarrow>
     (case r of ((ret, err), ct', e') \<Rightarrow>
        evo_evm e e' \<and> unat (Gas ct') \<le> unat (Gas ct) \<and> go_slice ret \<and>
        ((readOnly e \<or> ro) \<and> err = None \<longrightarrow> quiet_evm e e'))"

definition good :: "nat \<Rightarrow> 'st runner \<Rightarrow> bool" where
  "good n run \<longleftrightarrow>
     (\<forall>ct input ro e. ok_evm e \<and> ct_ok ct \<and> go_slice input \<and> unat (Gas ct) < n \<and> unat (Gas ct) < 2 ^ 61 \<longrightarrow>
        safe (run ct input ro e) (run_post ct ro e))"

definition fr_ok :: "'st frame \<Rightarrow> bool" where
  "fr_ok fr \<longleftrightarrow> ok_evm (fr_evm fr) \<and> mem_ok (fr_mem fr) \<and> ct_ok (fr_contract fr) \<and>
     unat (Gas (fr_contract fr)) < 2 ^ 61"

text \<open>
  \<open>exec_safe calls pops push ms lo f\<close>: the instruction \<open>f\<close> takes \<open>pops\<close> operands and leaves \<open>push\<close>
  results, and after it at most \<open>b\<close> gas is left when \<open>lo\<close> more than the gas at its start was
  available before its dynamic price was paid. Only if \<open>calls\<close> holds it may run other contracts.
\<close>

definition exec_post ::
  "nat \<Rightarrow> nat \<Rightarrow> nat \<Rightarrow> 'st frame \<Rightarrow> (bytes \<times> vm_error option) \<times> 'st frame \<Rightarrow> bool" where
  "exec_post pops push b fr r \<longleftrightarrow>
     (case r of ((res, err), fr') \<Rightarrow>
        evo_evm (fr_evm fr) (fr_evm fr') \<and> ct_keeps (fr_contract fr) (fr_contract fr') \<and>
        mem_ok (fr_mem fr') \<and> unat (Gas (fr_contract fr')) \<le> b \<and> (err \<noteq> None \<longrightarrow> go_slice res) \<and>
        (err = None \<longrightarrow> length (fr_stack fr') + pops = length (fr_stack fr) + push) \<and>
        (readOnly (fr_evm fr) \<and> accepting err \<longrightarrow> quiet_evm (fr_evm fr) (fr_evm fr')))"

definition exec_safe ::
  "bool \<Rightarrow> nat \<Rightarrow> nat \<Rightarrow> memorySizeFunc option \<Rightarrow> (Stack \<Rightarrow> 'st EVM \<Rightarrow> nat) \<Rightarrow> 'st executionFunc \<Rightarrow> bool" where
  "exec_safe calls pops push ms lo f \<longleftrightarrow>
     (\<forall>n run fr b. fr_ok fr \<and> pops \<le> length (fr_stack fr) \<and> covered ms fr \<and>
        unat (fr_pc fr) < length (Code (fr_contract fr)) \<and>
        unat (Gas (fr_contract fr)) + lo (fr_stack fr) (fr_evm fr) \<le> b \<and> b < 2 ^ 61 \<and>
        (calls \<longrightarrow> good n run \<and> b < n) \<longrightarrow>
        safe (f run fr) (exec_post pops push b fr))"

text \<open>\<open>gas_safe q k mm lo g\<close>: a dynamic price that reads \<open>k\<close> operands and is at least \<open>lo\<close>.\<close>

definition gas_post ::
  "bool \<Rightarrow> (Stack \<Rightarrow> 'st EVM \<Rightarrow> nat) \<Rightarrow> 'st EVM \<Rightarrow> Contract \<Rightarrow> Stack \<Rightarrow> Memory \<Rightarrow> u64 \<Rightarrow>
     (vm_error + u64) \<times> 'st EVM \<times> Contract \<times> Memory \<Rightarrow> bool" where
  "gas_post q lo e ct st m sz r \<longleftrightarrow>
     (case r of (x, e', ct', m') \<Rightarrow>
        evo_evm e e' \<and> (q \<longrightarrow> quiet_evm e e') \<and>
        (case x of
           Inl _ \<Rightarrow> ct_keeps ct ct' \<and> unat (Gas ct') \<le> unat (Gas ct)
         | Inr g \<Rightarrow> ct' = ct \<and> lo st e' \<le> unat g \<and> (\<exists>fee. memoryGasCost m sz = (Inr fee, m'))))"

definition gas_safe :: "bool \<Rightarrow> nat \<Rightarrow> bool \<Rightarrow> (Stack \<Rightarrow> 'st EVM \<Rightarrow> nat) \<Rightarrow> 'st gasFunc \<Rightarrow> bool" where
  "gas_safe q k mm lo g \<longleftrightarrow>
     (\<forall>e ct st m sz. ok_evm e \<and> mem_ok m \<and> k \<le> length st \<and> unat (Gas ct) < 2 ^ 61 \<and> (\<not> mm \<longrightarrow> sz = 0) \<longrightarrow>
        safe (g e ct st m sz) (gas_post q lo e ct st m sz))"

text \<open>An entry for the opcode \<open>b\<close>. If its constant price is zero it must charge or halt.\<close>

definition step_post :: "'st operation \<Rightarrow> 'st frame \<Rightarrow> 'st step_result \<Rightarrow> bool" where
  "step_post op fr r \<longleftrightarrow>
     (case r of
        Halt (res, err) fr' \<Rightarrow>
          evo_evm (fr_evm fr) (fr_evm fr') \<and> unat (Gas (fr_contract fr')) \<le> unat (Gas (fr_contract fr)) \<and>
          go_slice res \<and> (readOnly (fr_evm fr) \<and> accepting err \<longrightarrow> quiet_evm (fr_evm fr) (fr_evm fr'))
      | Next fr' \<Rightarrow>
          evo_evm (fr_evm fr) (fr_evm fr') \<and> ct_keeps (fr_contract fr) (fr_contract fr') \<and>
          mem_ok (fr_mem fr') \<and>
          unat (Gas (fr_contract fr')) + (if constantGas op = 0 then 1 else 0) \<le> unat (Gas (fr_contract fr)) \<and>
          length (fr_stack fr') \<le> 1024 \<and>
          (readOnly (fr_evm fr) \<longrightarrow> quiet_evm (fr_evm fr) (fr_evm fr')))"

definition op_safe :: "'st operation \<Rightarrow> bool" where
  "op_safe op \<longleftrightarrow>
     (\<forall>n run fr. good n run \<and> fr_ok fr \<and> op_minStack op \<le> length (fr_stack fr) \<and>
        length (fr_stack fr) \<le> op_maxStack op \<and> unat (fr_pc fr) < length (Code (fr_contract fr)) \<and>
        (constantGas op = 0 \<or> unat (Gas (fr_contract fr)) < n) \<longrightarrow>
        safe (op_body op run fr) (step_post op fr))"

definition table_safe :: "'st JumpTable \<Rightarrow> bool" where
  "table_safe jt \<longleftrightarrow> (\<forall>b. b \<noteq> STOP \<longrightarrow> op_safe (jt b)) \<and> jt STOP = static opStop 0 0 0"

section \<open>The order of machine states\<close>

lemma fair_refl [simp]: "fair s s"
  by (simp add: fair_def)

lemma fair_trans: "fair s t \<Longrightarrow> fair t u \<Longrightarrow> fair s u"
  by (auto simp: fair_def)

lemma fair_bal: "bal t = bal s \<Longrightarrow> fair s t"
  by (simp add: fair_def sound_def total_def)

lemma evo_evm_refl [simp]: "ok_evm e \<Longrightarrow> evo_evm e e"
  by (simp add: evo_evm_def ok_evm_def evo_refl)

lemma evo_evm_trans: "evo_evm e f \<Longrightarrow> evo_evm f g \<Longrightarrow> evo_evm e g"
  using evo_trans fair_trans by (auto simp: evo_evm_def)

lemma evo_evm_ok: "evo_evm e f \<Longrightarrow> ok_evm f"
  using evo_ok by (auto simp: evo_evm_def ok_evm_def)

lemma evo_evm_flags: "evo_evm e f \<Longrightarrow> depth f = depth e" "evo_evm e f \<Longrightarrow> readOnly f = readOnly e"
  by (simp_all add: evo_evm_def)

lemma quiet_evm_refl [simp]: "quiet_evm e e"
  by (simp add: quiet_evm_def quiet_refl)

lemma quiet_evm_trans: "quiet_evm e f \<Longrightarrow> quiet_evm f g \<Longrightarrow> quiet_evm e g"
  using quiet_trans by (auto simp: quiet_evm_def)

lemma ct_keeps_refl [simp]: "ct_keeps ct ct" "ct_keeps ct (ct\<lparr>Gas := g\<rparr>)" "ct_keeps (ct\<lparr>Gas := g\<rparr>) ct"
  by (simp_all add: ct_keeps_def)

lemma ct_keeps_trans: "ct_keeps a b \<Longrightarrow> ct_keeps b c \<Longrightarrow> ct_keeps a c"
  by (simp add: ct_keeps_def)

lemma ct_keeps_ok: "ct_keeps ct ct' \<Longrightarrow> ct_ok ct' = ct_ok ct"
  by (simp add: ct_keeps_def ct_ok_def)

end

end
