(* ===== verification/VM_Loop.thy ===== *)
theory VM_Loop
  imports VM_Logic
begin

text \<open>
  From the contracts of instructions and prices to the interpreter: the rule that makes an entry of
  a jump table safe, and the loop, which with a safe table and more fuel than gas always returns.
\<close>

definition sizes_ok :: "nat \<Rightarrow> memorySizeFunc option \<Rightarrow> bool" where
  "sizes_ok k ms \<longleftrightarrow> (\<forall>f st. ms = Some f \<and> k \<le> length st \<longrightarrow> safe (f st) (\<lambda>_. True))"

lemma required_memory_safe:
  assumes "sizes_ok k (memorySize op)" "k \<le> length st"
  shows "safe (required_memory op st) (\<lambda>ms. \<forall>sz. ms = Some sz \<longrightarrow>
    (memorySize op = None \<and> sz = 0) \<or>
    (\<exists>f n. memorySize op = Some f \<and> f st = Ret (n, False) \<and> sz = toWordSize n * 32 \<and>
       unat n \<le> 2 ^ 64 - 32))"
proof (cases "memorySize op")
  case (Some f)
  then have f: "safe (f st) (\<lambda>_. True)" using assms by (simp add: sizes_ok_def)
  have "\<not> 576460752303423488 \<le> unat (toWordSize n) \<Longrightarrow> unat n \<le> 18446744073709551584" for n :: u64
    by (simp add: unat_toWordSize)
  then show ?thesis using Some f
    by (cases "f st") (auto simp: required_memory_def SafeMul_def)
qed (simp add: required_memory_def)

context vm_state begin

definition charge_post :: "bool \<Rightarrow> (Stack \<Rightarrow> 'st EVM \<Rightarrow> nat) \<Rightarrow> 'st operation \<Rightarrow> 'st frame \<Rightarrow>
    vm_error option \<times> 'st frame \<Rightarrow> bool" where
  "charge_post q lo op fr r \<longleftrightarrow>
     (case r of (err, fr') \<Rightarrow>
        evo_evm (fr_evm fr) (fr_evm fr') \<and> (q \<longrightarrow> quiet_evm (fr_evm fr) (fr_evm fr')) \<and>
        ct_keeps (fr_contract fr) (fr_contract fr') \<and>
        unat (Gas (fr_contract fr')) \<le> unat (Gas (fr_contract fr)) \<and> (accepting err \<longrightarrow> err = None) \<and>
        (err = None \<longrightarrow> mem_ok (fr_mem fr') \<and> covered (memorySize op) fr' \<and>
           fr_stack fr' = fr_stack fr \<and> fr_pc fr' = fr_pc fr \<and>
           unat (Gas (fr_contract fr')) + lo (fr_stack fr) (fr_evm fr') \<le> unat (Gas (fr_contract fr))))"

lemma pay_safe:
  assumes fr: "fr_ok fr" and g: "gas_post q lo (fr_evm fr) (fr_contract fr) (fr_stack fr) (fr_mem fr) sz (r, e, ct, m)"
    and sz: "(memorySize op = None \<and> sz = 0) \<or>
      (\<exists>f n. memorySize op = Some f \<and> f (fr_stack fr) = Ret (n, False) \<and> sz = toWordSize n * 32 \<and> unat n \<le> 2 ^ 64 - 32)"
  shows "charge_post q lo op fr
    (case r of
       Inl err \<Rightarrow> (Some ErrOutOfGas, fr\<lparr>fr_evm := e, fr_contract := ct, fr_mem := m\<rparr>)
     | Inr x \<Rightarrow>
         if Gas ct < x then (Some ErrOutOfGas, fr\<lparr>fr_evm := e, fr_contract := ct, fr_mem := m\<rparr>)
         else (None, fr\<lparr>fr_evm := e, fr_contract := ct\<lparr>Gas := Gas ct - x\<rparr>,
                       fr_mem := (if 0 < sz then mem_Resize sz m else m)\<rparr>))"
proof (cases r)
  case (Inl err)
  with g show ?thesis by (simp add: charge_post_def gas_post_def accepting_def)
next
  case (Inr x)
  then obtain fee where p: "evo_evm (fr_evm fr) e" "q \<longrightarrow> quiet_evm (fr_evm fr) e" "ct = fr_contract fr"
    "lo (fr_stack fr) e \<le> unat x" "memoryGasCost (fr_mem fr) sz = (Inr fee, m)"
    using g by (auto simp: gas_post_def)
  show ?thesis
  proof (cases "Gas ct < x")
    case True
    with Inr p show ?thesis by (simp add: charge_post_def accepting_def)
  next
    case False
    then have gas: "unat (Gas ct - x) = unat (Gas ct) - unat x" "unat x \<le> unat (Gas ct)"
      by (simp_all add: not_less unat_sub_u64 word_le_nat_alt)
    have mem: "mem_ok (if 0 < sz then mem_Resize sz m else m) \<and>
      covered (memorySize op) (fr\<lparr>fr_evm := e, fr_contract := ct\<lparr>Gas := Gas ct - x\<rparr>,
                       fr_mem := (if 0 < sz then mem_Resize sz m else m)\<rparr>)"
    proof (cases "memorySize op")
      case None
      with sz p(5) fr show ?thesis by (auto simp: memoryGasCost_def fr_ok_def covered_def)
    next
      case (Some f)
      with sz obtain n where n: "f (fr_stack fr) = Ret (n, False)" "sz = toWordSize n * 32" "unat n \<le> 2 ^ 64 - 32"
        by auto
      have "mem_ok (fr_mem fr)" using fr by (simp add: fr_ok_def)
      from memory_grows [OF this _ n(3), of fee m] p(5) n Some show ?thesis
        by (auto simp: covered_def split: if_splits)
    qed
    with Inr p False gas show ?thesis by (simp add: charge_post_def)
  qed
qed

lemma charge_safe:
  assumes "dynamicGas op = Some g" "gas_safe q k (memorySize op \<noteq> None) lo g" "sizes_ok k (memorySize op)"
    "fr_ok fr" "k \<le> length (fr_stack fr)"
  shows "safe (charge_dynamic op fr) (charge_post q lo op fr)"
proof -
  have none: "charge_post q lo op fr (Some ErrGasUintOverflow, fr)"
    using assms(4) by (simp add: charge_post_def accepting_def fr_ok_def)
  have gs: "safe (g (fr_evm fr) (fr_contract fr) (fr_stack fr) (fr_mem fr) sz)
      (gas_post q lo (fr_evm fr) (fr_contract fr) (fr_stack fr) (fr_mem fr) sz)"
    if "memorySize op = None \<longrightarrow> sz = 0" for sz
    using assms(2,4,5) that by (simp add: gas_safe_def fr_ok_def)
  have pay: "safe (bind_outcome (g (fr_evm fr) (fr_contract fr) (fr_stack fr) (fr_mem fr) sz) (\<lambda>(r, e, ct, m).
      Ret (case r of
       Inl err \<Rightarrow> (Some ErrOutOfGas, fr\<lparr>fr_evm := e, fr_contract := ct, fr_mem := m\<rparr>)
     | Inr x \<Rightarrow>
         if Gas ct < x then (Some ErrOutOfGas, fr\<lparr>fr_evm := e, fr_contract := ct, fr_mem := m\<rparr>)
         else (None, fr\<lparr>fr_evm := e, fr_contract := ct\<lparr>Gas := Gas ct - x\<rparr>,
                       fr_mem := (if 0 < sz then mem_Resize sz m else m)\<rparr>))))
      (charge_post q lo op fr)"
    if "(memorySize op = None \<and> sz = 0) \<or>
      (\<exists>f n. memorySize op = Some f \<and> f (fr_stack fr) = Ret (n, False) \<and> sz = toWordSize n * 32 \<and> unat n \<le> 2 ^ 64 - 32)" for sz
    unfolding safe_simps
    by (rule safe_mono [OF gs]) (use that pay_safe [OF assms(4) _ that] in auto)
  have eq: "charge_dynamic op fr = bind_outcome (required_memory op (fr_stack fr)) (\<lambda>ms.
      case ms of None \<Rightarrow> Ret (Some ErrGasUintOverflow, fr)
      | Some sz \<Rightarrow> bind_outcome (g (fr_evm fr) (fr_contract fr) (fr_stack fr) (fr_mem fr) sz) (\<lambda>(r, e, ct, m).
      Ret (case r of
       Inl err \<Rightarrow> (Some ErrOutOfGas, fr\<lparr>fr_evm := e, fr_contract := ct, fr_mem := m\<rparr>)
     | Inr x \<Rightarrow>
         if Gas ct < x then (Some ErrOutOfGas, fr\<lparr>fr_evm := e, fr_contract := ct, fr_mem := m\<rparr>)
         else (None, fr\<lparr>fr_evm := e, fr_contract := ct\<lparr>Gas := Gas ct - x\<rparr>,
                       fr_mem := (if 0 < sz then mem_Resize sz m else m)\<rparr>))))"
    by (auto simp: charge_dynamic_def assms(1) UseGas_def Let_def fun_eq_iff intro!: arg_cong2 [where f = bind_outcome]
        split: option.split sum.split)
  show ?thesis
    unfolding eq safe_simps(4)
    by (rule safe_mono [OF required_memory_safe [OF assms(3,5)]])
      (use none pay in \<open>auto split: option.split\<close>)
qed

section \<open>Table entries\<close>

text \<open>
  An entry is safe if its parts are: what the price adds to the lower bound the instruction relies
  on, the amount \<open>d\<close>, makes progress when there is no constant price.
\<close>

lemma step_after:
  assumes c: "charge_post q lo op fr (None, fr')" and e: "exec_post pops push b fr' ((res, err), fr2)"
    and q: "readOnly (fr_evm fr) \<longrightarrow> q" and b: "b + d \<le> unat (Gas (fr_contract fr))"
    and stack: "pops \<le> length (fr_stack fr)" "length (fr_stack fr) + push \<le> 1024 + pops"
    and progress: "err = None \<longrightarrow> constantGas op \<noteq> 0 \<or> 0 < d"
  shows "step_post op fr (if err \<noteq> None then Halt (res, err) fr2 else Next (fr2\<lparr>fr_pc := fr_pc fr2 + 1\<rparr>))"
proof -
  have C: "evo_evm (fr_evm fr) (fr_evm fr')" "q \<longrightarrow> quiet_evm (fr_evm fr) (fr_evm fr')"
    "ct_keeps (fr_contract fr) (fr_contract fr')" "fr_stack fr' = fr_stack fr"
    using c by (simp_all add: charge_post_def)
  have E: "evo_evm (fr_evm fr') (fr_evm fr2)" "ct_keeps (fr_contract fr') (fr_contract fr2)"
    "mem_ok (fr_mem fr2)" "unat (Gas (fr_contract fr2)) \<le> b" "err \<noteq> None \<longrightarrow> go_slice res"
    "err = None \<longrightarrow> length (fr_stack fr2) + pops = length (fr_stack fr') + push"
    "readOnly (fr_evm fr') \<and> accepting err \<longrightarrow> quiet_evm (fr_evm fr') (fr_evm fr2)"
    using e by (simp_all add: exec_post_def)
  have ev: "evo_evm (fr_evm fr) (fr_evm fr2)" using C(1) E(1) by (rule evo_evm_trans)
  have qu: "readOnly (fr_evm fr) \<and> accepting err \<longrightarrow> quiet_evm (fr_evm fr) (fr_evm fr2)"
    using C(1,2) E(7) q evo_evm_flags(2) [OF C(1)] quiet_evm_trans by blast
  have ct: "ct_keeps (fr_contract fr) (fr_contract fr2)" using C(3) E(2) by (rule ct_keeps_trans)
  show ?thesis
    using ev qu ct E C(4) b stack progress by (auto simp: step_post_def accepting_def)
qed

lemma op_safeI:
  assumes f: "exec_safe calls pops push (memorySize op) lo (execute op)"
    and stack: "op_minStack op = pops" "op_maxStack op + push \<le> 1024 + pops"
    and price: "(dynamicGas op = None \<and> memorySize op = None \<and> d = 0 \<and> q \<and> (\<forall>st e. lo st e = 0)) \<or>
      (\<exists>g. dynamicGas op = Some g \<and> gas_safe q pops (memorySize op \<noteq> None) (\<lambda>st e. lo st e + d) g \<and>
         sizes_ok pops (memorySize op) \<and> (q \<or> writer (execute op)))"
    and progress: "constantGas op \<noteq> 0 \<or> halting (execute op) \<or> 0 < d"
    and calls: "calls \<longrightarrow> constantGas op \<noteq> 0"
  shows "op_safe op"
  unfolding op_safe_def
proof (intro allI impI, elim conjE)
  fix n run fr
  assume A: "good n run" "fr_ok fr" "op_minStack op \<le> length (fr_stack fr)"
    "length (fr_stack fr) \<le> op_maxStack op" "unat (fr_pc fr) < length (Code (fr_contract fr))"
    "constantGas op = 0 \<or> unat (Gas (fr_contract fr)) < n"
  let ?G = "unat (Gas (fr_contract fr))"
  have charged: "safe (charge_dynamic op fr) (charge_post q (\<lambda>st e. lo st e + d) op fr)"
  proof (cases "dynamicGas op")
    case None
    with price A(2) show ?thesis
      by (auto simp: charge_dynamic_def charge_post_def fr_ok_def covered_def)
  next
    case (Some g)
    with price A(2,3) stack(1) show ?thesis by (auto intro!: charge_safe)
  qed
  have "safe (if err \<noteq> None then Ret (Halt ([], err) fr')
      else bind_outcome (execute op run fr') (\<lambda>((res, err), fr).
        if err \<noteq> None then Ret (Halt (res, err) fr) else Ret (Next (fr\<lparr>fr_pc := fr_pc fr + 1\<rparr>))))
      (step_post op fr)" if c: "charge_post q (\<lambda>st e. lo st e + d) op fr (err, fr')" for err fr'
  proof (cases err)
    case (Some x)
    with c show ?thesis by (auto simp: charge_post_def step_post_def accepting_def)
  next
    case None
    note P = c [unfolded charge_post_def, simplified, simplified None, simplified]
    have fr': "fr_ok fr'" using P A(2) ct_keeps_ok [of "fr_contract fr" "fr_contract fr'"]
      by (auto simp: fr_ok_def evo_evm_ok)
    have code: "Code (fr_contract fr') = Code (fr_contract fr)" using P by (simp add: ct_keeps_def)
    have ex: "safe (execute op run fr') (exec_post pops push (?G - d) fr')"
    proof (rule f [unfolded exec_safe_def, rule_format, of _ _ n])
      have "?G < 2 ^ 61" using A(2) by (simp add: fr_ok_def)
      moreover have "unat (Gas (fr_contract fr')) + (lo (fr_stack fr') (fr_evm fr') + d) \<le> ?G" using P by simp
      then have "unat (Gas (fr_contract fr')) + lo (fr_stack fr') (fr_evm fr') \<le> ?G - d" by linarith
      moreover have "calls \<longrightarrow> good n run \<and> ?G - d < n" using calls A(1,6) by auto
      ultimately show "fr_ok fr' \<and> pops \<le> length (fr_stack fr') \<and> covered (memorySize op) fr' \<and>
        unat (fr_pc fr') < length (Code (fr_contract fr')) \<and>
        unat (Gas (fr_contract fr')) + lo (fr_stack fr') (fr_evm fr') \<le> ?G - d \<and> ?G - d < 2 ^ 61 \<and>
        (calls \<longrightarrow> good n run \<and> ?G - d < n)"
        using fr' P A(3,5) stack(1) code by (auto intro: le_less_trans [OF diff_le_self])
    qed
    show ?thesis
    proof (cases "readOnly (fr_evm fr) \<longrightarrow> q")
      case True
      have "step_post op fr (if err2 \<noteq> None then Halt (res, err2) fr2 else Next (fr2\<lparr>fr_pc := fr_pc fr2 + 1\<rparr>))"
        if "execute op run fr' = Ret ((res, err2), fr2)" "exec_post pops push (?G - d) fr' ((res, err2), fr2)"
        for res err2 fr2
        using step_after [OF c [unfolded None] that(2) True, of d] P A(3,4) stack progress that(1)
        by (auto simp: halting_def)
      with ex show ?thesis
        by (cases "execute op run fr'") (auto simp: None split: prod.split)
    next
      case False
      then have "execute op run fr' = fail ErrWriteProtection fr'"
        using price evo_evm_flags(2) [of "fr_evm fr" "fr_evm fr'"] P by (auto simp: writer_def)
      with P None show ?thesis by (simp add: fail_def step_post_def accepting_def)
    qed
  qed
  then show "safe (op_body op run fr) (step_post op fr)"
    unfolding op_body_def safe_simps(4) by (intro safe_mono [OF charged]) auto
qed

section \<open>The loop\<close>

definition loop_post :: "'st frame \<Rightarrow> (bytes \<times> vm_error option) \<times> 'st frame \<Rightarrow> bool" where
  "loop_post fr r \<longleftrightarrow>
     (case r of ((res, err), fr') \<Rightarrow>
        evo_evm (fr_evm fr) (fr_evm fr') \<and> unat (Gas (fr_contract fr')) \<le> unat (Gas (fr_contract fr)) \<and>
        go_slice res \<and> (readOnly (fr_evm fr) \<and> accepting err \<longrightarrow> quiet_evm (fr_evm fr) (fr_evm fr')))"

lemma good_run_frame:
  assumes "\<And>fr. fr_ok fr \<Longrightarrow> unat (Gas (fr_contract fr)) < n \<Longrightarrow> safe (loop fr) (loop_post fr)"
  shows "good n (run_frame loop)"
  unfolding good_def
proof (intro allI impI, elim conjE)
  fix ct ro and input :: bytes and e :: "'st EVM"
  assume A: "ok_evm e" "ct_ok ct" "go_slice input" "unat (Gas ct) < n" "unat (Gas ct) < 2 ^ 61"
  define e1 where "e1 = e\<lparr>depth := depth e + 1, readOnly := (readOnly e \<or> ro), returnData := []\<rparr>"
  define fr where "fr = \<lparr>fr_pc = 0, fr_evm = e1, fr_contract = ct\<lparr>Input := input\<rparr>, fr_stack = [], fr_mem = NewMemory\<rparr>"
  define fin where "fin = (\<lambda>e' :: 'st EVM. e'\<lparr>depth := depth e' - 1, readOnly := (if ro \<and> \<not> readOnly e then False else readOnly e')\<rparr>)"
  have "fr_ok fr" using A by (simp add: fr_def e1_def fr_ok_def ok_evm_def ct_ok_def)
  from assms [OF this] A(4) have l: "safe (loop fr) (loop_post fr)" by (simp add: fr_def)
  have fin: "run_post ct ro e ((res, err'), ct', fin e')"
    if "evo_evm e1 e'" "unat (Gas ct') \<le> unat (Gas ct)" "go_slice res"
      "readOnly e1 \<and> err' = None \<longrightarrow> quiet_evm e1 e'" for res err' ct' e'
    using that by (auto simp: run_post_def evo_evm_def quiet_evm_def fin_def e1_def)
  show "safe (run_frame loop ct input ro e) (run_post ct ro e)"
  proof (cases "length (Code ct) = 0")
    case True
    have "evo_evm e1 e1" using A(1) by (simp add: ok_evm_def e1_def)
    then have "run_post ct ro e (([], None), ct, fin e1)" by (intro fin) simp_all
    with True show ?thesis by (simp add: run_frame_def Let_def fin_def e1_def)
  next
    case False
    have eq: "safe (run_frame loop ct input ro e) Q = safe (loop fr) (\<lambda>((res, err), fr').
        Q ((res, if err = Some errStopToken then None else err), fr_contract fr', fin (fr_evm fr')))" for Q
      using False by (cases "loop fr") (simp_all add: run_frame_def Let_def fr_def e1_def fin_def case_prod_beta)
    show ?thesis unfolding eq
    proof (rule safe_mono [OF l], clarify)
      fix res err fr' assume "loop_post fr ((res, err), fr')"
      then show "run_post ct ro e ((res, if err = Some errStopToken then None else err), fr_contract fr', fin (fr_evm fr'))"
        by (intro fin) (auto simp: loop_post_def fr_def accepting_def)
    qed
  qed
qed

lemma interp_step_safe:
  assumes t: "table_safe jt" and g: "good n run" and fr: "fr_ok fr" "unat (Gas (fr_contract fr)) \<le> n"
  shows "safe (interp_step jt run fr) (\<lambda>r. case r of
      Halt res fr' \<Rightarrow> loop_post fr (res, fr')
    | Next fr' \<Rightarrow> fr_ok fr' \<and> length (fr_stack fr') \<le> 1024 \<and>
        unat (Gas (fr_contract fr')) < unat (Gas (fr_contract fr)) \<and>
        evo_evm (fr_evm fr) (fr_evm fr') \<and> (readOnly (fr_evm fr) \<longrightarrow> quiet_evm (fr_evm fr) (fr_evm fr')))"
    (is "safe _ ?Q")
proof -
  let ?b = "GetOp (fr_pc fr) (fr_contract fr)"
  let ?op = "jt ?b"
  have ok: "ok_evm (fr_evm fr)" using fr(1) by (simp add: fr_ok_def)
  have halt: "loop_post fr (([], err), fr)" for err using ok by (simp add: loop_post_def)
  show ?thesis
  proof (cases "?b = STOP")
    case True
    with t halt show ?thesis
      by (simp add: interp_step_op_body op_body_def table_safe_def static_def minStack_def maxStack_def
          charge_dynamic_def opStop_def fail_def Let_def)
  next
    case False
    have pc: "unat (fr_pc fr) < length (Code (fr_contract fr))"
      using False fr(1) by (auto simp: GetOp_def fr_ok_def ct_ok_def go_slice_def word_less_nat_alt
          unat_of_nat split: if_splits)
    let ?fr = "fr\<lparr>fr_contract := (fr_contract fr)\<lparr>Gas := Gas (fr_contract fr) - constantGas ?op\<rparr>\<rparr>"
    have "safe (op_body ?op run ?fr) ?Q"
      if s: "op_minStack ?op \<le> length (fr_stack fr)" "length (fr_stack fr) \<le> op_maxStack ?op"
        "constantGas ?op \<le> Gas (fr_contract fr)"
    proof -
      have gas: "unat (Gas (fr_contract ?fr)) = unat (Gas (fr_contract fr)) - unat (constantGas ?op)"
        "unat (constantGas ?op) \<le> unat (Gas (fr_contract fr))"
        using s(3) by (simp_all add: unat_sub_u64 word_le_nat_alt)
      have pos: "constantGas ?op \<noteq> 0 \<Longrightarrow> 0 < unat (constantGas ?op)" by (simp add: unat_gt_0)
      have ok': "fr_ok ?fr" using fr(1) gas by (simp add: fr_ok_def ct_ok_def less_imp_diff_less)
      have "op_safe ?op" using t False by (simp add: table_safe_def)
      moreover have "constantGas ?op = 0 \<or> unat (Gas (fr_contract ?fr)) < n"
        using pos gas fr(2) by linarith
      ultimately have "safe (op_body ?op run ?fr) (step_post ?op ?fr)"
        using g ok' s(1,2) pc by (simp add: op_safe_def)
      then show ?thesis
      proof (rule safe_mono)
        fix r assume P: "step_post ?op ?fr r"
        show "?Q r"
        proof (cases r)
          case (Halt res fr')
          with P gas show ?thesis
            by (cases res) (auto simp: step_post_def loop_post_def)
        next
          case (Next fr')
          have "ct_ok (fr_contract fr')" using P Next ok' ct_keeps_ok [of "fr_contract ?fr" "fr_contract fr'"]
            by (simp add: step_post_def fr_ok_def)
          moreover have "unat (Gas (fr_contract fr')) < unat (Gas (fr_contract fr))"
            using P Next gas pos by (cases "constantGas ?op = 0") (auto simp: step_post_def)
          ultimately show ?thesis using P Next fr(1) by (auto simp: step_post_def fr_ok_def evo_evm_ok)
        qed
      qed
    qed
    with halt show ?thesis by (auto simp: interp_step_op_body Let_def not_less)
  qed
qed

theorem interp_loop_safe:
  assumes t: "table_safe jt"
  shows "fr_ok fr \<Longrightarrow> unat (Gas (fr_contract fr)) < n \<Longrightarrow> safe (interp_loop jt n fr) (loop_post fr)"
proof (induction n arbitrary: fr)
  case (Suc n)
  have g: "good n (run_frame (interp_loop jt n))" by (rule good_run_frame) (rule Suc.IH)
  have "unat (Gas (fr_contract fr)) \<le> n" using Suc.prems(2) by simp
  note step = interp_step_safe [OF t g Suc.prems(1) this]
  show ?case
  proof (simp, rule safe_mono [OF step], goal_cases)
    case (1 r)
    show ?case
    proof (cases r)
      case (Next fr')
      with 1 Suc.prems(2) have "safe (interp_loop jt n fr') (loop_post fr')" by (auto intro!: Suc.IH)
      then show ?thesis
        using 1 Next evo_evm_flags(2) [of "fr_evm fr" "fr_evm fr'"]
        by (auto elim!: safe_mono simp: loop_post_def intro: evo_evm_trans quiet_evm_trans)
    qed (use 1 in simp)
  qed
qed simp

corollary interp_Run_good: "table_safe jt \<Longrightarrow> good n (interp_Run jt n)"
  unfolding interp_Run_def by (rule good_run_frame) (rule interp_loop_safe)

end

end
