(* ===== verification/VM_Call_Safety.thy ===== *)
theory VM_Call_Safety
  imports VM_Loop
begin

text \<open>
  The contracts of the precompiled contracts, the message calls and the creations: they never
  return more gas than they got, undo the changes of a failed call, and leave the world alone under
  write protection.
\<close>

section \<open>Precompiled contracts\<close>

lemma go_slice_drop: "go_slice xs \<Longrightarrow> go_slice (drop n xs)"
  by (simp add: go_slice_def)

lemma big_read_Ret:
  "go_slice input \<Longrightarrow> unat sz < 2 ^ 63 \<Longrightarrow> \<exists>x. big_read input start sz = Ret x"
  using getData_Ret [of input sz start] by (auto simp: big_read_def)

lemma modexpMultComplexity_bounds:
  "1 \<le> x \<Longrightarrow> 1 \<le> modexpMultComplexity x" "int x * int x \<le> 16 * modexpMultComplexity x"
proof -
  have a: "int (x * x) \<le> 4 * (int (x * x) div 4) + 3" "int (x * x) \<le> 16 * (int (x * x) div 16) + 15"
    by linarith+
  have sq: "1 \<le> x \<Longrightarrow> 1 * 1 \<le> int x * int x" by (intro mult_mono) simp_all
  have nn: "0 \<le> int x * int x div 4" "0 \<le> int x * int x div 16"
    by (simp_all add: pos_imp_zdiv_nonneg_iff)
  from sq nn show "1 \<le> x \<Longrightarrow> 1 \<le> modexpMultComplexity x"
    by (auto simp: modexpMultComplexity_def)
  show "int x * int x \<le> 16 * modexpMultComplexity x"
    using a nn by (auto simp: modexpMultComplexity_def)
qed

lemma unat_MaxUint64: "unat MaxUint64 = 18446744073709551615"
  by (simp add: MaxUint64_def unsigned_minus_1_eq_mask mask_eq_exp_minus_1)

lemma cap_u64_less: "0 \<le> k \<Longrightarrow> unat (cap_u64 k) < 2 ^ 61 \<Longrightarrow> k < 2 ^ 61"
proof (cases "2 ^ 64 \<le> k")
  case False
  assume a: "0 \<le> k" "unat (cap_u64 k) < 2 ^ 61"
  have "unat (of_nat (nat k) :: u64) = nat k" using False a(1) by (intro unat_of_nat_u64) simp
  with False a show ?thesis by (simp add: cap_u64_def)
qed (simp add: cap_u64_def unat_MaxUint64)

lemma price_u64_less:
  "g = (if 2 ^ 64 \<le> n then MaxUint64 else if n < 200 then 200 else of_nat n) \<Longrightarrow> unat g < 2 ^ 61 \<Longrightarrow> n < 2 ^ 61"
  using unat_of_nat_u64 [of n] by (auto simp: unat_MaxUint64 split: if_splits)

text \<open>A price that anyone can pay bounds the lengths an exponentiation reads.\<close>

lemma modexp_price_sizes:
  fixes X E msb :: nat
  defines "adj \<equiv> (if 32 < E then 8 * (E - 32) else 0) + msb"
  assumes "1 \<le> X"
    and "(X + 7) div 8 * ((X + 7) div 8) * max adj 1 div 3 < 2 ^ 61 \<or>
      modexpMultComplexity X * int (max adj 1) div 20 < 2 ^ 61"
  shows "X < 2 ^ 62" "E < 2 ^ 63"
proof -
  have m: "1 \<le> max adj 1" "E \<le> max adj 1 div 8 + 33" by (auto simp: adj_def)
  have "X < 2 ^ 62 \<and> E < 2 ^ 63"
    using assms(3)
  proof
    let ?w = "(X + 7) div 8"
    assume "?w * ?w * max adj 1 div 3 < 2 ^ 61"
    then have b: "?w * ?w * max adj 1 < 2 ^ 63" by simp
    have w: "1 \<le> ?w" using assms(2) by simp
    have "?w \<le> ?w * ?w * max adj 1" using w m(1) by simp
    moreover have "1 * max adj 1 \<le> ?w * ?w * max adj 1" using w by (intro mult_le_mono1) simp
    then have "max adj 1 \<le> ?w * ?w * max adj 1" by (simp only: mult_1)
    ultimately have "?w \<le> ?w * ?w * max adj 1" "max adj 1 \<le> ?w * ?w * max adj 1" by blast+
    with b have "?w < 2 ^ 63" "max adj 1 < 2 ^ 63" by linarith+
    moreover have "?w * ?w \<le> ?w * ?w * max adj 1" using m(1) by simp
    then have "?w * ?w < 2 ^ 63" using b by linarith
    then have "?w ^ 2 < (2 ^ 32) ^ 2" by (simp add: power2_eq_square)
    then have "?w < 2 ^ 32" by (rule power_less_imp_less_base) simp
    ultimately show ?thesis using m by auto
  next
    let ?c = "modexpMultComplexity X"
    assume "?c * int (max adj 1) div 20 < 2 ^ 61"
    then have b: "?c * int (max adj 1) < 20 * 2 ^ 61" by simp
    have c: "1 \<le> ?c" using assms(2) by (rule modexpMultComplexity_bounds)
    have "1 * int (max adj 1) \<le> ?c * int (max adj 1)" using c by (intro mult_right_mono) simp_all
    with b have a: "int (max adj 1) < 20 * 2 ^ 61" by linarith
    have "?c * 1 \<le> ?c * int (max adj 1)" using c m(1) by (intro mult_left_mono) simp_all
    with b have "?c < 20 * 2 ^ 61" by linarith
    then have "int X * int X < 320 * 2 ^ 61" using modexpMultComplexity_bounds(2) [of X] by linarith
    then have "int X ^ 2 < (2 ^ 35) ^ 2" by (simp add: power2_eq_square)
    then have "int X < 2 ^ 35" by (rule power_less_imp_less_base) simp
    then show ?thesis using a m by auto
  qed
  then show "X < 2 ^ 62" "E < 2 ^ 63" by blast+
qed

lemma bigModExp_Run_Ret:
  assumes i: "go_slice input" and g: "bigModExp_RequiredGas eip2565 input = Ret g" "unat g < 2 ^ 61"
  shows "\<exists>b. bigModExp_Run input = Ret b"
proof -
  obtain B E M where r: "big_read input 0 32 = Ret B" "big_read input 32 32 = Ret E" "big_read input 64 32 = Ret M"
    using big_read_Ret [OF i, of 32] by fastforce
  let ?in = "if 96 < length input then drop 96 input else []"
  have i2: "go_slice ?in" using i by (simp add: go_slice_drop)
  show ?thesis
  proof (cases "max M B = 0")
    case True
    then show ?thesis by (simp add: bigModExp_Run_def r)
  next
    case nz: False
    from g(1) [unfolded bigModExp_RequiredGas_def r Let_def bind_outcome.simps bind_outcome_Ret_iff]
    obtain H where H:
      "(if eip2565 then
          Ret (if 2 ^ 64 \<le> (max M B + 7) div 8 * ((max M B + 7) div 8) *
                 max ((if 32 < E then 8 * (E - 32) else 0) + (if 0 < bit_len H then bit_len H - 1 else 0)) 1 div 3
               then MaxUint64
               else if (max M B + 7) div 8 * ((max M B + 7) div 8) *
                 max ((if 32 < E then 8 * (E - 32) else 0) + (if 0 < bit_len H then bit_len H - 1 else 0)) 1 div 3 < 200
               then 200
               else of_nat ((max M B + 7) div 8 * ((max M B + 7) div 8) *
                 max ((if 32 < E then 8 * (E - 32) else 0) + (if 0 < bit_len H then bit_len H - 1 else 0)) 1 div 3))
        else Ret (cap_u64 (modexpMultComplexity (max M B) *
          int (max ((if 32 < E then 8 * (E - 32) else 0) + (if 0 < bit_len H then bit_len H - 1 else 0)) 1) div 20))) = Ret g"
      by blast
    define msb where "msb = (if 0 < bit_len H then bit_len H - 1 else 0)"
    define adj where "adj = (if 32 < E then 8 * (E - 32) else 0) + msb"
    define X where "X = max M B"
    note H = H [folded msb_def, folded adj_def, folded X_def]
    have "(X + 7) div 8 * ((X + 7) div 8) * max adj 1 div 3 < 2 ^ 61 \<or>
      modexpMultComplexity X * int (max adj 1) div 20 < 2 ^ 61"
      (is "?new \<or> ?old")
    proof (cases eip2565)
      case True
      let ?gas = "(X + 7) div 8 * ((X + 7) div 8) * max adj 1 div 3"
      have "g = (if 2 ^ 64 \<le> ?gas then MaxUint64 else if ?gas < 200 then 200 else of_nat ?gas)"
        using H True by (simp only: if_True outcome.inject)
      then have "?gas < 2 ^ 61" using g(2) by (rule price_u64_less)
      then show ?thesis by blast
    next
      case False
      let ?gas = "modexpMultComplexity X * int (max adj 1) div 20"
      have "g = cap_u64 ?gas"
        using H False by (simp only: if_False outcome.inject)
      moreover have "0 \<le> ?gas" using modexpMultComplexity_bounds(1) [of X] nz
        by (simp add: X_def pos_imp_zdiv_nonneg_iff)
      ultimately have "?gas < 2 ^ 61" using g(2) cap_u64_less by blast
      then show ?thesis by blast
    qed
    moreover have "1 \<le> X" using nz by (auto simp: X_def)
    ultimately have s: "max M B < 2 ^ 62" "E < 2 ^ 63"
      using modexp_price_sizes [of X E msb, folded adj_def] by (simp_all add: X_def)
    then have u: "unat (of_nat B :: u64) = B" "unat (of_nat E :: u64) = E" "unat (of_nat M :: u64) = M"
      by (auto intro!: unat_of_nat_u64)
    show ?thesis
      using big_read_Ret [OF i2, of "of_nat B" 0] big_read_Ret [OF i2, of "of_nat E" "of_nat B"]
        big_read_Ret [OF i2, of "of_nat M" "of_nat B + of_nat E"] u s
      by (fastforce simp: bigModExp_Run_def r Let_def)
  qed
qed

lemma bigModExp_RequiredGas_Ret:
  assumes "go_slice input"
  shows "\<exists>g. bigModExp_RequiredGas eip2565 input = Ret g"
proof -
  let ?in = "if 96 < length input then drop 96 input else []"
  have i2: "go_slice ?in" using assms by (simp add: go_slice_drop)
  obtain B E M where r: "big_read input 0 32 = Ret B" "big_read input 32 32 = Ret E" "big_read input 64 32 = Ret M"
    using big_read_Ret [OF assms, of 32] by fastforce
  have s: "unat (32 :: u64) < 2 ^ 63" by simp
  have "E \<le> 32 \<Longrightarrow> unat (of_nat E :: u64) < 2 ^ 63" using unat_of_nat_u64 [of E] by simp
  then obtain H where "(if length ?in \<le> B then Ret 0
        else if 32 < E then big_read ?in (of_nat B) 32 else big_read ?in (of_nat B) (of_nat E)) = Ret H"
    using big_read_Ret [OF i2 s, of "of_nat B"] big_read_Ret [OF i2, of "of_nat E" "of_nat B"]
    by (metis linorder_not_less)
  then show ?thesis
    unfolding bigModExp_RequiredGas_def r Let_def bind_outcome.simps bind_outcome_Ret_iff by metis
qed

lemma runBn256_safe:
  assumes "go_slice input"
  shows "safe (runBn256Add K input) (\<lambda>_. True)" "safe (runBn256ScalarMul K input) (\<lambda>_. True)"
proof -
  obtain a b d where "getData input 0 64 = Ret a" "getData input 64 64 = Ret b" "getData input 64 32 = Ret d"
    using getData_Ret [OF assms, of 64] getData_Ret [OF assms, of 32] by fastforce
  then show "safe (runBn256Add K input) (\<lambda>_. True)" "safe (runBn256ScalarMul K input) (\<lambda>_. True)"
    by (simp_all add: runBn256Add_def runBn256ScalarMul_def split: sum.split)
qed

lemma RunPrecompiledContract_safe:
  assumes "go_slice input" "unat gas < 2 ^ 61"
  shows "safe (RunPrecompiledContract K p input gas) (\<lambda>(ret, gas', err). unat gas' \<le> unat gas)"
proof -
  obtain g where g: "RequiredGas p input = Ret g"
    using bigModExp_RequiredGas_Ret [OF assms(1)] by (cases p) (auto simp: RequiredGas_def)
  show ?thesis
  proof (cases "gas < g")
    case False
    then have le: "unat g \<le> unat gas" "unat (gas - g) \<le> unat gas"
      by (simp_all add: not_less word_le_nat_alt unat_sub_u64)
    have "safe (Run_precompile K p input) (\<lambda>_. True)"
      using bigModExp_Run_Ret [OF assms(1)] g le(1) assms(2) runBn256_safe [OF assms(1)]
      by (cases p) (fastforce simp: Run_precompile_def RequiredGas_def)+
    then show ?thesis using False g le(2)
      by (auto simp: RunPrecompiledContract_def elim!: safe_mono split: sum.split)
  qed (simp add: RunPrecompiledContract_def g)
qed

section \<open>The address of a new contract\<close>

lemma length_puthead_le: "length (puthead st lt n) \<le> 9"
  using length_putint_8 [of n] by (simp add: puthead_def Let_def)

lemma length_string_enc_le: "length (string_enc b) \<le> length b + 9"
  using length_puthead_le [of "0x80" "0xB7" "of_nat (length b)"] by (simp add: string_enc_def)

lemma CreateAddress_Ret: "\<exists>a. CreateAddress K b nonce = Ret a"
proof -
  let ?v = "RList [RBytes (address_bytes b), RUint nonce]"
  have "length (uint_enc nonce) \<le> 17"
    using length_string_enc_le [of "[]"] length_string_enc_le [of "putint nonce"] length_putint_8 [of nonce]
    by (simp add: uint_enc_def)
  then have "length (rlp_enc ?v) < 2 ^ 63"
    using length_string_enc_le [of "address_bytes b"]
      length_puthead_le [of "0xC0" "0xF7" "of_nat (length (string_enc (address_bytes b) @ uint_enc nonce))"]
    by (simp add: list_enc_def)
  then have "EncodeToBytes ?v = Some (rlp_enc ?v)" by (rule EncodeToBytes_rlp_enc)
  then show ?thesis by (simp add: CreateAddress_def)
qed

section \<open>Moving from state to state\<close>

context vm_state begin

definition mv :: "bool \<Rightarrow> 'st EVM \<Rightarrow> 'st EVM \<Rightarrow> bool" where
  "mv q e e' \<longleftrightarrow> evo_evm e e' \<and> (q \<longrightarrow> quiet_evm e e')"

definition query :: "('st \<Rightarrow> 'a \<times> 'st) \<Rightarrow> bool" where
  "query f \<longleftrightarrow> (\<forall>s. ok s \<longrightarrow> evo s (snd (f s)) \<and> same s (snd (f s)))"

definition step :: "bool \<Rightarrow> ('st \<Rightarrow> 'st) \<Rightarrow> bool" where
  "step q f \<longleftrightarrow> (\<forall>s. ok s \<longrightarrow> evo s (f s) \<and> bal (f s) = bal s \<and> (q \<longrightarrow> quiet s (f s)))"

text \<open>The balances an account of the machine's state has.\<close>

abbreviation evm_bal :: "'st EVM \<Rightarrow> Address \<Rightarrow> int" where
  "evm_bal e \<equiv> bal (evm_StateDB e)"

definition same_evm :: "'st EVM \<Rightarrow> 'st EVM \<Rightarrow> bool" where
  "same_evm e e' \<longleftrightarrow> same (evm_StateDB e) (evm_StateDB e')"

lemma mv_refl [simp]: "ok_evm e \<Longrightarrow> mv q e e"
  by (simp add: mv_def)

lemma mv_trans: "mv q e f \<Longrightarrow> mv q f g \<Longrightarrow> mv q e g"
  by (auto simp: mv_def intro: evo_evm_trans quiet_evm_trans)

lemma mv_mono: "mv True e f \<Longrightarrow> mv q e f"
  by (simp add: mv_def)

lemma mv_ok: "mv q e f \<Longrightarrow> ok_evm f"
  by (auto simp: mv_def evo_evm_ok)

lemma mv_readOnly: "mv q e f \<Longrightarrow> readOnly f = readOnly e"
  by (simp add: mv_def evo_evm_def)

lemma mv_ask: "query f \<Longrightarrow> mv q e e1 \<Longrightarrow> mv q e (snd (ask f e1))"
proof -
  assume f: "query f" and m: "mv q e e1"
  have "ok (evm_StateDB e1)" using mv_ok [OF m] by (simp add: ok_evm_def)
  with f same_quiet same_bal have "mv q e1 (snd (ask f e1))"
    by (auto simp: mv_def query_def ask_def evo_evm_def quiet_evm_def case_prod_beta fair_bal)
  with m show ?thesis by (rule mv_trans)
qed

lemma mv_upd: "step q f \<Longrightarrow> mv q e e1 \<Longrightarrow> mv q e (upd f e1)"
proof -
  assume f: "step q f" and m: "mv q e e1"
  have "ok (evm_StateDB e1)" using mv_ok [OF m] by (simp add: ok_evm_def)
  with f have "mv q e1 (upd f e1)" by (auto simp: mv_def step_def upd_def evo_evm_def quiet_evm_def fair_bal)
  with m show ?thesis by (rule mv_trans)
qed

lemma evm_bal_steps:
  "query f \<Longrightarrow> ok_evm e \<Longrightarrow> evm_bal (snd (ask f e)) = evm_bal e"
  "step q g \<Longrightarrow> ok_evm e \<Longrightarrow> evm_bal (upd g e) = evm_bal e"
  using same_bal by (auto simp: query_def ask_def step_def upd_def ok_evm_def case_prod_beta)

lemma mv_fields [simp]:
  "mv q e (e1\<lparr>callGasTemp := g\<rparr>) = mv q e e1" "mv q e (e1\<lparr>returnData := d\<rparr>) = mv q e e1"
  "mv q e (e1\<lparr>evm_jumpdests := j\<rparr>) = mv q e e1" "mv q e (e1\<lparr>aborts := a\<rparr>) = mv q e e1"
  by (simp_all add: mv_def evo_evm_def quiet_evm_def)

lemma same_evm_ask: "query f \<Longrightarrow> ok_evm e \<Longrightarrow> same_evm e (snd (ask f e))"
  by (simp add: same_evm_def query_def ask_def ok_evm_def case_prod_beta)

lemma same_evm_trans: "same_evm e f \<Longrightarrow> same_evm f g \<Longrightarrow> same_evm e g"
  using same_trans by (auto simp: same_evm_def)

lemma queries [simp]:
  "query (i_GetBalance ops a)" "query (i_GetNonce ops a)" "query (i_GetCodeHash ops a)"
  "query (i_GetCode ops a)" "query (i_GetCodeSize ops a)" "query (i_GetCommittedState ops a k)"
  "query (i_GetState ops a k)" "query (i_HasSuicided ops a)" "query (i_Exist ops a)" "query (i_Empty ops a)"
  by (simp_all add: query_def GetBalance_evo GetNonce_evo GetCodeHash_evo GetCode_evo GetCodeSize_evo
      GetCommittedState_evo GetState_evo HasSuicided_evo Exist_evo Empty_evo GetBalance_same GetNonce_same
      GetCodeHash_same GetCode_same GetCodeSize_same GetCommittedState_same GetState_same
      HasSuicided_same Exist_same Empty_same)

lemma steps [simp]:
  "step False (i_CreateAccount ops a)"
  "step q (i_SubBalance ops a 0)" "step q (i_AddBalance ops a 0)" "step False (i_SetNonce ops a nn)"
  "go_slice code \<Longrightarrow> step False (i_SetCode ops a code)" "step False (i_AddRefund ops g)"
  "step False (i_SetState ops a k w)" "step False (i_SetTransientState ops a k w)"
  "step False (i_AddLog ops l)" "step q (i_AddPreimage ops h p)"
  "step q (i_AddAddressToAccessList ops a)" "step q (i_AddSlotToAccessList ops a k)"
  by (simp_all add: step_def CreateAccount_evo SubBalance_evo AddBalance_evo SetNonce_evo SetCode_evo
      AddRefund_evo SetState_evo SetTransientState_evo AddLog_evo AddPreimage_evo
      AddAddressToAccessList_evo AddSlotToAccessList_evo SubBalance_quiet AddBalance_quiet
      AddPreimage_quiet AddAddressToAccessList_quiet AddSlotToAccessList_quiet SubBalance_bal AddBalance_bal
      CreateAccount_bal SetNonce_bal SetCode_bal AddRefund_bal SetState_bal SetTransientState_bal AddLog_bal
      AddPreimage_bal AddAddressToAccessList_bal AddSlotToAccessList_bal)

lemma sum_fun_upd: "sum (f(a := y)) UNIV = sum f UNIV - f a + (y :: int)" for f :: "Address \<Rightarrow> int"
proof -
  have "sum f UNIV = f a + sum f (UNIV - {a})" for f :: "Address \<Rightarrow> int"
    by (rule sum.remove) simp_all
  from this [of "f(a := y)"] this [of f] show ?thesis by simp
qed

text \<open>A transfer that the payer can afford, and a self-destruction that pays the beneficiary first.\<close>

lemma Transfer_moves:
  fixes a b :: Address
  assumes "ok s" "v = 0 \<or> 0 \<le> v \<and> v \<le> bal s a"
  defines "t \<equiv> i_AddBalance ops b v (i_SubBalance ops a v s)"
  shows "evo s t" "fair s t" "v = 0 \<Longrightarrow> quiet s t"
proof -
  have s1: "ok (i_SubBalance ops a v s)" using evo_ok [OF SubBalance_evo [OF assms(1)]] .
  show "evo s t" unfolding t_def using SubBalance_evo [OF assms(1)] AddBalance_evo [OF s1] by (rule evo_trans)
  show "v = 0 \<Longrightarrow> quiet s t"
    unfolding t_def using SubBalance_quiet [OF assms(1), of a] AddBalance_quiet [OF s1, of b] quiet_trans by simp
  have "total t = total s"
    by (simp only: total_def t_def AddBalance_bal [OF s1] SubBalance_bal [OF assms(1)] sum_fun_upd)
  moreover have "sound s \<Longrightarrow> sound t"
    using assms(2) by (auto simp: sound_def t_def AddBalance_bal [OF s1] SubBalance_bal [OF assms(1)])
  ultimately show "fair s t" by (simp add: fair_def)
qed

lemma Suicide_moves:
  fixes a b :: Address
  assumes "ok s"
  defines "t \<equiv> i_AddBalance ops b (bal s a) s"
  defines "u \<equiv> snd (i_Suicide ops a t)"
  shows "evo s u" "fair s u"
proof -
  have t: "ok t" using evo_ok [OF AddBalance_evo [OF assms(1)]] by (simp add: t_def)
  show "evo s u" unfolding u_def using AddBalance_evo [OF assms(1)] Suicide_evo [OF t] evo_trans t_def by blast
  have u: "bal u = ((bal s)(b := bal s b + bal s a))(a := 0)"
    by (simp add: u_def Suicide_bal [OF t]) (simp add: t_def AddBalance_bal [OF assms(1)])
  then have "total u = total s - (if a = b then bal s a else 0)" by (simp only: total_def sum_fun_upd) simp
  then show "fair s u" by (auto simp: fair_def sound_def u)
qed

lemma mv_Transfer:
  assumes "sops c = ops" "mv q e e1" "q \<longrightarrow> v = 0" "v = 0 \<or> 0 \<le> v \<and> v \<le> evm_bal e1 a"
  shows "mv q e (Transfer c a b v e1)"
proof -
  have "ok (evm_StateDB e1)" using mv_ok [OF assms(2)] by (simp add: ok_evm_def)
  from Transfer_moves [OF this assms(4), of b] assms(3) have "mv q e1 (Transfer c a b v e1)"
    by (auto simp: Transfer_def assms(1) mv_def upd_def evo_evm_def quiet_evm_def)
  with assms(2) show ?thesis by (rule mv_trans)
qed

lemma mv_pay_and_destroy:
  assumes "mv False e e1"
  shows "mv False e (upd (\<lambda>s. snd (i_Suicide ops a s)) (upd (i_AddBalance ops b (evm_bal e1 a)) e1))"
proof -
  have "ok (evm_StateDB e1)" using mv_ok [OF assms] by (simp add: ok_evm_def)
  from Suicide_moves [OF this, of a b]
  have "mv False e1 (upd (\<lambda>s. snd (i_Suicide ops a s)) (upd (i_AddBalance ops b (evm_bal e1 a)) e1))"
    by (simp add: mv_def upd_def evo_evm_def)
  with assms show ?thesis by (rule mv_trans)
qed

lemma CanTransfer_mv:
  assumes "sops c = ops" "ok_evm e"
  shows "mv q e (snd (CanTransfer c a v e))" "same_evm e (snd (CanTransfer c a v e))"
    "fst (CanTransfer c a v e) \<Longrightarrow> v \<le> evm_bal (snd (CanTransfer c a v e)) a"
  using assms mv_ask [of "i_GetBalance ops a" q e e] same_evm_ask [of "i_GetBalance ops a" e]
    evm_bal_steps(1) [of "i_GetBalance ops a" e]
  by (simp_all add: CanTransfer_def case_prod_beta) (simp add: ask_def GetBalance_bal ok_evm_def case_prod_beta)

section \<open>Snapshots\<close>

definition call_post :: "u64 \<Rightarrow> 'st EVM \<Rightarrow> bool \<Rightarrow> (bytes \<times> u64 \<times> vm_error option) \<times> 'st EVM \<Rightarrow> bool" where
  "call_post gas e q r \<longleftrightarrow>
     (case r of ((ret, gas', err), e') \<Rightarrow>
        mv q e e' \<and> unat gas' \<le> unat gas \<and> (err \<noteq> None \<longrightarrow> same_evm e e'))"

definition mid_post :: "u64 \<Rightarrow> 'st EVM \<Rightarrow> bool \<Rightarrow> (bytes \<times> u64 \<times> vm_error option) \<times> 'st EVM \<Rightarrow> bool" where
  "mid_post gas e q r \<longleftrightarrow>
     (case r of ((ret, gas', err), e') \<Rightarrow> mv (q \<and> err = None) e e' \<and> unat gas' \<le> unat gas)"

lemma Snapshot_mv:
  assumes "ok_evm e" "ask (i_Snapshot ops) e = (i, e1)"
  shows "mv q e e1" "i_Snapshot ops (evm_StateDB e) = (i, evm_StateDB e1)" "evm_bal e1 = evm_bal e"
proof -
  obtain t where t: "i_Snapshot ops (evm_StateDB e) = (i, t)" "e1 = e\<lparr>evm_StateDB := t\<rparr>"
    using assms(2) by (auto simp: ask_def split: prod.splits)
  then show "i_Snapshot ops (evm_StateDB e) = (i, evm_StateDB e1)" by simp
  show "mv q e e1" "evm_bal e1 = evm_bal e"
    using t assms(1) Snapshot_evo [of "evm_StateDB e" i t] Snapshot_same [of "evm_StateDB e" i t] same_quiet
      same_bal [of "evm_StateDB e" t]
    by (auto simp: mv_def evo_evm_def quiet_evm_def ok_evm_def fair_bal)
qed

text \<open>Going back to a snapshot after undoable changes restores what can be seen.\<close>

lemma revert_evm:
  assumes "ok_evm e" "ask (i_Snapshot ops) e = (i, e1)" "mv p e1 e2"
  shows "\<exists>e'. upd_panic SnapshotPanic (i_RevertToSnapshot ops i) e2 = Ret e' \<and> mv q e e' \<and> same_evm e e'"
proof -
  have "ok (evm_StateDB e)" "evo (evm_StateDB e1) (evm_StateDB e2)"
    using assms by (simp_all add: ok_evm_def mv_def evo_evm_def)
  from Revert [OF this(1) Snapshot_mv(2) [OF assms(1,2)] this(2)] obtain v where
    v: "i_RevertToSnapshot ops i (evm_StateDB e2) = Some v" "same (evm_StateDB e) v" "evo (evm_StateDB e) v"
    by blast
  have fl: "depth e2 = depth e" "readOnly e2 = readOnly e"
    using Snapshot_mv(1) [OF assms(1,2), of q] assms(3) by (simp_all add: mv_def evo_evm_def)
  show ?thesis
    using v fl same_quiet same_bal [OF v(2)]
    by (simp add: upd_panic_def mv_def evo_evm_def quiet_evm_def same_evm_def fair_bal)
qed

lemma finish_call:
  assumes c: "sops c = ops" and e: "ok_evm e" "ask (i_Snapshot ops) e = (i, e1)"
    and body: "safe body (mid_post gas e1 q)"
  shows "safe (bind_outcome body (\<lambda>(r, e). conclude c i r e)) (call_post gas e q)"
  unfolding safe_simps(4)
proof (rule safe_mono [OF body], clarify)
  fix ret g' err e2 assume m: "mid_post gas e1 q ((ret, g', err), e2)"
  then have m2: "mv (q \<and> err = None) e1 e2" "unat g' \<le> unat gas" by (simp_all add: mid_post_def)
  show "safe (conclude c i (ret, g', err) e2) (call_post gas e q)"
  proof (cases err)
    case None
    with m2 mv_trans [OF Snapshot_mv(1) [OF e, of q], of e2] show ?thesis
      by (simp add: conclude_def call_post_def)
  next
    case (Some x)
    with revert_evm [OF e m2(1), of q] m2(2) c show ?thesis
      by (auto simp: conclude_def call_post_def)
  qed
qed

lemma call_post_pre:
  assumes "mv q e e0" "same_evm e e0" "call_post gas e0 q r"
  shows "call_post gas e q r"
  using assms mv_trans [OF assms(1)] same_evm_trans [OF assms(2)]
  by (auto simp: call_post_def split: prod.splits)

lemma run_precompile_safe:
  assumes "go_slice input" "unat gas < 2 ^ 61" "mv q e1 e"
  shows "safe (run_precompile c p input gas e) (mid_post gas e1 q)"
  unfolding run_precompile_def safe_simps(4)
  by (rule safe_mono [OF RunPrecompiledContract_safe [OF assms(1,2)]])
    (use assms(3) in \<open>auto simp: mid_post_def mv_def\<close>)

lemma run_contract_safe:
  assumes "good n run" "unat (Gas ct) < n" "unat (Gas ct) < 2 ^ 61" "ct_ok ct" "go_slice input"
    "mv q e1 e" "q \<longrightarrow> readOnly e1 \<or> ro"
  shows "safe (run_contract run ct input ro e) (mid_post (Gas ct) e1 q)"
proof -
  have run: "safe (run ct input ro e) (run_post ct ro e)"
    using assms(1-5) mv_ok [OF assms(6)] by (simp add: good_def)
  have "safe (case y of ((ret, err), ct, e) \<Rightarrow> Ret ((ret, Gas ct, err), e)) (mid_post (Gas ct) e1 q)"
    if post: "run_post ct ro e y" for y
  proof -
  obtain ret err ct' e' where y: "y = ((ret, err), ct', e')" by (metis prod.collapse)
  have "mv (q \<and> err = None) e e'" "unat (Gas ct') \<le> unat (Gas ct)"
    using post y assms(7) mv_readOnly [OF assms(6)] by (auto simp: run_post_def mv_def)
  moreover have "mv (q \<and> err = None) e1 e" using assms(6) by (simp add: mv_def)
  ultimately show ?thesis using y by (auto simp: mid_post_def intro: mv_trans)
  qed
  with run show ?thesis by (auto simp: run_contract_def elim: safe_mono)
qed

section \<open>Calls\<close>

lemma safe_ifI: "(b \<Longrightarrow> safe x Q) \<Longrightarrow> (\<not> b \<Longrightarrow> safe y Q) \<Longrightarrow> safe (if b then x else y) Q"
  by simp

lemma depth_error: "ok_evm e \<Longrightarrow> call_post gas e q (([], gas, err), e)"
  by (simp add: call_post_def same_evm_def same_refl)

lemma load_code_ok:
  assumes "sops c = ops" "mv q e e1" "ct_value ct \<noteq> None" "go_slice (Input ct)"
  shows "mv q e (snd (load_code c addr ct e1))" "ct_ok (fst (load_code c addr ct e1))"
    "Gas (fst (load_code c addr ct e1)) = Gas ct"
proof -
  have m: "mv q e (snd (ask (i_GetCodeHash ops addr) e1))" using assms(2) by (simp add: mv_ask)
  have "go_slice (fst (ask (i_GetCode ops addr) (snd (ask (i_GetCodeHash ops addr) e1))))"
    using mv_ok [OF m] GetCode_size by (simp add: ask_def ok_evm_def case_prod_beta)
  with assms(1,3,4) mv_ask [OF _ m, of "i_GetCode ops addr"] show
    "mv q e (snd (load_code c addr ct e1))" "ct_ok (fst (load_code c addr ct e1))"
    "Gas (fst (load_code c addr ct e1)) = Gas ct"
    by (simp_all add: load_code_def case_prod_beta Let_def SetCallCode_def ct_ok_def)
qed

lemma new_contract_ok:
  "Gas (fst (new_contract clr ob v gas e)) = gas" "ct_value (fst (new_contract clr ob v gas e)) = v"
  "Input (fst (new_contract clr ob v gas e)) = []" "caller (fst (new_contract clr ob v gas e)) = clr"
  "mv q e0 (snd (new_contract clr ob v gas e)) = mv q e0 e"
  by (simp_all add: new_contract_def NewContract_def)

lemma evm_CallCode_safe:
  assumes c: "sops c = ops" and e: "ok_evm e" and run: "good n run" "unat gas < n" "unat gas < 2 ^ 61"
    and i: "go_slice input"
  shows "safe (evm_CallCode c run clr addr input gas v e) (call_post gas e (readOnly e))"
proof -
  obtain can e0 where e0: "CanTransfer c (ref_Address clr) v e = (can, e0)" by fastforce
  have m: "mv q e e0" "same_evm e e0" for q
    using CanTransfer_mv(1) [OF c e, of q "ref_Address clr" v] CanTransfer_mv(2) [OF c e, of "ref_Address clr" v]
      e0 by simp_all
  have ro: "readOnly e0 = readOnly e" using m(1) by (rule mv_readOnly)
  have ok0: "ok_evm e0" using m(1) by (rule mv_ok)
  obtain i e1 where e1: "ask (i_Snapshot ops) e0 = (i, e1)" by fastforce
  note S = Snapshot_mv(1) [OF ok0 e1]
  have ok1: "ok_evm e1" using S by (rule mv_ok)
  have ro1: "readOnly e1 = readOnly e" using mv_readOnly [OF S] ro by simp
  let ?N = "new_contract clr (AccountRef (ref_Address clr)) (Some v) gas e1"
  let ?L = "load_code c addr (fst ?N) (snd ?N)"
  have L: "mv q e1 (snd ?L)" "ct_ok (fst ?L)" "Gas (fst ?L) = gas" for q
    using load_code_ok [OF c, of q e1 "snd ?N" "fst ?N" addr] ok1 by (simp_all add: new_contract_ok)
  have body: "safe (case precompile (chainRules c) addr of
       Some p \<Rightarrow> run_precompile c p input gas e1
     | None \<Rightarrow> run_contract run (fst ?L) input False (snd ?L)) (mid_post gas e1 (readOnly e))"
    using run_precompile_safe [OF i run(3) mv_refl [OF ok1]]
      run_contract_safe [OF run(1) _ _ L(2) i L(1), of "readOnly e" False] run(2,3) ro1
    by (simp add: L(3) split: option.split)
  from finish_call [OF c ok0 e1 body] have "safe (bind_outcome (case precompile (chainRules c) addr of
       Some p \<Rightarrow> run_precompile c p input gas e1
     | None \<Rightarrow> run_contract run (fst ?L) input False (snd ?L)) (\<lambda>(r, e). conclude c i r e))
     (call_post gas e (readOnly e))"
    by (rule safe_mono) (rule call_post_pre [OF m])
  moreover have "call_post gas e (readOnly e) (([], gas, Some ErrInsufficientBalance), e0)"
    using m by (simp add: call_post_def)
  ultimately show ?thesis
    using depth_error [OF e] e0 e1 c
    by (cases "precompile (chainRules c) addr") (simp_all add: evm_CallCode_def Let_def case_prod_beta)
qed

lemma evm_DelegateCall_safe:
  assumes c: "sops c = ops" and e: "ok_evm e" and run: "good n run" "unat gas < n" "unat gas < 2 ^ 61"
    and i: "go_slice input" and clr: "clr = ContractPtr a b (Some w)"
  shows "safe (evm_DelegateCall c run clr addr input gas e) (call_post gas e (readOnly e))"
proof -
  obtain i e1 where e1: "ask (i_Snapshot ops) e = (i, e1)" by fastforce
  note S = Snapshot_mv(1) [OF e e1]
  have ok1: "ok_evm e1" using S by (rule mv_ok)
  let ?N = "new_contract clr (AccountRef (ref_Address clr)) None gas e1"
  let ?D = "(fst ?N)\<lparr>CallerAddress := b, ct_value := Some w\<rparr>"
  let ?L = "load_code c addr ?D (snd ?N)"
  have del: "AsDelegate (fst ?N) = Ret ?D" by (simp add: AsDelegate_def new_contract_ok clr)
  have L: "mv q e1 (snd ?L)" "ct_ok (fst ?L)" "Gas (fst ?L) = gas" for q
    using load_code_ok [OF c, of q e1 "snd ?N" ?D addr] ok1 by (simp_all add: new_contract_ok)
  have body: "safe (case precompile (chainRules c) addr of
       Some p \<Rightarrow> run_precompile c p input gas e1
     | None \<Rightarrow> run_contract run (fst ?L) input False (snd ?L)) (mid_post gas e1 (readOnly e))"
    using run_precompile_safe [OF i run(3) mv_refl [OF ok1]]
      run_contract_safe [OF run(1) _ _ L(2) i L(1), of "readOnly e" False] run(2,3) mv_readOnly [OF S]
    by (simp add: L(3) split: option.split)
  from finish_call [OF c e e1 body] show ?thesis
    using depth_error [OF e] e1 c
    by (cases "precompile (chainRules c) addr")
      (simp_all add: evm_DelegateCall_def Let_def case_prod_beta del)
qed

lemma evm_StaticCall_safe:
  assumes c: "sops c = ops" and e: "ok_evm e" and run: "good n run" "unat gas < n" "unat gas < 2 ^ 61"
    and i: "go_slice input"
  shows "safe (evm_StaticCall c run clr addr input gas e) (call_post gas e True)"
proof -
  obtain i e1 where e1: "ask (i_Snapshot ops) e = (i, e1)" by fastforce
  note S = Snapshot_mv(1) [OF e e1]
  have ok1: "ok_evm e1" using S by (rule mv_ok)
  let ?T = "upd (i_AddBalance ops addr 0) e1"
  have T: "mv q e1 ?T" for q using ok1 by (simp add: mv_upd)
  let ?N = "new_contract clr (AccountRef addr) (Some 0) gas ?T"
  let ?L = "load_code c addr (fst ?N) (snd ?N)"
  have L: "mv q e1 (snd ?L)" "ct_ok (fst ?L)" "Gas (fst ?L) = gas" for q
    using load_code_ok [OF c, of q e1 "snd ?N" "fst ?N" addr] T by (simp_all add: new_contract_ok)
  have body: "safe (case precompile (chainRules c) addr of
       Some p \<Rightarrow> run_precompile c p input gas ?T
     | None \<Rightarrow> run_contract run (fst ?L) input True (snd ?L)) (mid_post gas e1 True)"
    using run_precompile_safe [OF i run(3) T]
      run_contract_safe [OF run(1) _ _ L(2) i L(1), of True True] run(2,3)
    by (simp add: L(3) split: option.split)
  from finish_call [OF c e e1 body] show ?thesis
    using depth_error [OF e] e1 c
    by (cases "precompile (chainRules c) addr") (simp_all add: evm_StaticCall_def Let_def case_prod_beta)
qed

lemma evm_Call_body:
  assumes c: "sops c = ops" and run: "good n run" "unat gas < n" "unat gas < 2 ^ 61" and i: "go_slice input"
    and m: "mv q e1 e" "q \<longrightarrow> readOnly e1"
  shows "safe (case precompile (chainRules c) addr of
       Some p \<Rightarrow> run_precompile c p input gas e
     | None \<Rightarrow>
         let (code, e) = ask (i_GetCode (sops c) addr) e
         in if length code = 0 then Ret (([], gas, None), e)
            else
              let (ct, e) = new_contract clr (AccountRef addr) (Some v) gas e;
                  (h, e) = ask (i_GetCodeHash (sops c) addr) e
              in run_contract run (SetCallCode addr h code ct) input False e) (mid_post gas e1 q)"
proof (cases "precompile (chainRules c) addr")
  case None
  obtain code e2 where e2: "ask (i_GetCode ops addr) e = (code, e2)" by fastforce
  have m2: "mv q e1 e2" using mv_ask [OF _ m(1), of "i_GetCode ops addr"] e2 by simp
  have code: "go_slice code"
    using mv_ok [OF m(1)] GetCode_size [of "evm_StateDB e" addr] e2
    by (auto simp: ask_def ok_evm_def split: prod.splits)
  let ?N = "new_contract clr (AccountRef addr) (Some v) gas e2"
  obtain h e3 where e3: "ask (i_GetCodeHash ops addr) (snd ?N) = (h, e3)" by fastforce
  have m3: "mv q e1 e3"
    using mv_ask [of "i_GetCodeHash ops addr" q e1 "snd ?N"] m2 e3 by (simp add: new_contract_ok)
  have "ct_ok (SetCallCode addr h code (fst ?N))" "Gas (SetCallCode addr h code (fst ?N)) = gas"
    using code by (simp_all add: SetCallCode_def ct_ok_def new_contract_ok)
  with run_contract_safe [OF run(1) _ _ this(1) i m3, of False] run(2,3) m
  have "safe (run_contract run (SetCallCode addr h code (fst ?N)) input False e3) (mid_post gas e1 q)"
    by simp
  moreover have "mid_post gas e1 q (([], gas, None), e2)" using m2 by (simp add: mid_post_def)
  ultimately show ?thesis using None c e2 e3 by (simp add: case_prod_beta)
qed (simp add: run_precompile_safe [OF i run(3) m(1)])

lemma evm_Call_safe:
  fixes v :: int
  assumes c: "sops c = ops" and e: "ok_evm e" and run: "good n run" "unat gas < n" "unat gas < 2 ^ 61"
    and i: "go_slice input" and v: "0 \<le> v"
  defines "q \<equiv> readOnly e \<and> v = 0"
  shows "safe (evm_Call c run clr addr input gas v e) (call_post gas e q)"
proof -
  obtain can e0 where e0: "(if v \<noteq> 0 then CanTransfer c (ref_Address clr) v e else (True, e)) = (can, e0)"
    by fastforce
  have m: "mv q e e0" "same_evm e e0"
    using CanTransfer_mv(1) [OF c e, of q "ref_Address clr" v] CanTransfer_mv(2) [OF c e, of "ref_Address clr" v]
      e0 e by (auto simp: same_evm_def same_refl split: if_splits)
  have ok0: "ok_evm e0" using m(1) by (rule mv_ok)
  obtain i e1 where e1: "ask (i_Snapshot ops) e0 = (i, e1)" by fastforce
  note S = Snapshot_mv(1) [OF ok0 e1]
  have ok1: "ok_evm e1" using S by (rule mv_ok)
  obtain ex e2 where e2: "ask (i_Exist ops addr) e1 = (ex, e2)" by fastforce
  have m2: "mv q e1 e2" using mv_ask [of "i_Exist ops addr" q e1 e1] ok1 e2 by simp
  let ?e3 = "if ex then e2 else upd (i_CreateAccount ops addr) e2"
  have m3: "mv q e1 ?e3"
  proof (cases ex)
    case False
    have "evo_evm e1 (upd (i_CreateAccount ops addr) e2)"
      using mv_upd [of False "i_CreateAccount ops addr" e1 e2] m2 by (simp add: mv_def)
    moreover have "quiet_evm e1 (upd (i_CreateAccount ops addr) e2)"
      using CreateAccount_quiet [of "evm_StateDB e1" addr] ok1 e2 False
      by (auto simp: quiet_evm_def upd_def ask_def ok_evm_def split: prod.splits)
    ultimately show ?thesis using False by (simp add: mv_def)
  qed (use m2 in simp)
  have ok2: "ok_evm e2" using m2 by (rule mv_ok)
  have "evm_bal ?e3 = evm_bal e0"
    using evm_bal_steps(1) [of "i_Exist ops addr" e1] evm_bal_steps(2) [of False "i_CreateAccount ops addr" e2]
      Snapshot_mv(3) [OF ok0 e1] ok1 ok2 e2 by simp
  moreover have "can \<Longrightarrow> v = 0 \<or> v \<le> evm_bal e0 (ref_Address clr)"
    using CanTransfer_mv(3) [OF c e, of "ref_Address clr" v] e0 by (cases "v = 0") simp_all
  ultimately have m4: "mv q e1 (Transfer c (ref_Address clr) addr v ?e3)" if can
    using that v by (intro mv_Transfer [OF c m3]) (auto simp: q_def)
  have ro: "q \<longrightarrow> readOnly e1" using mv_readOnly [OF S] mv_readOnly [OF m(1)] by (simp add: q_def)
  note body = finish_call [OF c ok0 e1 evm_Call_body [OF c run i m4 ro, of addr clr v]]
  have "call_post gas e q (([], gas, None), e2)"
    using mv_trans [OF m(1) mv_trans [OF S m2]] by (simp add: call_post_def)
  moreover have "call_post gas e q (([], gas, Some ErrInsufficientBalance), e0)"
    using m by (simp add: call_post_def)
  ultimately show ?thesis
    unfolding evm_Call_def Let_def e0 prod.case c e1 e2
  proof (intro safe_ifI, goal_cases)
    case 1 show ?case using depth_error [OF e] by simp
  next
    case 4
    then have can by simp
    then show ?case
      by (rule safe_mono [OF body [unfolded c Let_def] call_post_pre [OF m]])
  qed simp_all
qed

section \<open>Creation\<close>

definition create_post :: "u64 \<Rightarrow> 'st EVM \<Rightarrow> (bytes \<times> Address \<times> u64 \<times> vm_error option) \<times> 'st EVM \<Rightarrow> bool" where
  "create_post gas e r \<longleftrightarrow> (case r of ((ret, addr, gas', err), e') \<Rightarrow> mv False e e' \<and> unat gas' \<le> unat gas)"

lemma store_code_ok:
  assumes "sops c = ops" "mv False e e1" "go_slice ret" "store_code c a ret err ct e1 = (err', ct', e2)"
  shows "mv False e e2" "unat (Gas ct') \<le> unat (Gas ct)"
proof -
  have "mv False e (upd (i_SetCode ops a ret) e1)" using assms(2,3) by (simp add: mv_upd)
  with assms UseGas_cases(4) [of "of_nat (length ret) * CreateDataGas" ct] show
    "mv False e e2" "unat (Gas ct') \<le> unat (Gas ct)"
    by (auto simp: store_code_def Let_def split: if_splits prod.splits)
qed

lemma create_end_safe:
  assumes c: "sops c = ops" and e: "ok_evm e" "ask (i_Snapshot ops) e = (i, e1)"
    and m: "mv False e1 e2" and gas: "unat (Gas ct) \<le> unat gas" and ret: "go_slice ret"
  shows "safe (let err = deployment_error c ret err;
            (err, ct, e) = store_code c address ret err ct e2
        in if err \<noteq> None \<and> (r_IsHomestead (chainRules c) \<or> err \<noteq> Some ErrCodeStoreOutOfGas) then
             bind_outcome (upd_panic SnapshotPanic (i_RevertToSnapshot (sops c) i) e) (\<lambda>e.
               let ct = (if err \<noteq> Some ErrExecutionReverted then snd (UseGas (Gas ct) ct) else ct)
               in Ret ((ret, address, Gas ct, err), e))
           else Ret ((ret, address, Gas ct, err), e)) (create_post gas e)"
proof -
  obtain err' ct' e3 where s: "store_code c address ret (deployment_error c ret err) ct e2 = (err', ct', e3)"
    by (metis prod_cases3)
  note S = store_code_ok [OF c m ret s]
  from revert_evm [OF e S(1), of False] obtain e4 where r:
    "upd_panic SnapshotPanic (i_RevertToSnapshot ops i) e3 = Ret e4" "mv False e e4" by blast
  have "mv False e e3" using mv_trans [OF Snapshot_mv(1) [OF e] S(1)] .
  with r S(2) gas c UseGas_cases(4) [of "Gas ct'" ct'] s show ?thesis
    by (auto simp: Let_def create_post_def)
qed

lemma evm_create_safe:
  assumes c: "sops c = ops" and e: "ok_evm e" and run: "good n run" "unat gas < n" "unat gas < 2 ^ 61"
    and code: "go_slice (cah_code ch)" and v: "0 \<le> v"
  shows "safe (evm_create c run clr ch gas v address e) (create_post gas e)"
proof -
  obtain can e1 where e1: "CanTransfer c (ref_Address clr) v e = (can, e1)" by fastforce
  have m1: "mv False e e1" using CanTransfer_mv(1) [OF c e, of False "ref_Address clr" v] e1 by simp
  obtain nonce e2 where e2: "ask (i_GetNonce ops (ref_Address clr)) e1 = (nonce, e2)" by fastforce
  have m2: "mv False e e2" using mv_ask [OF _ m1, of "i_GetNonce ops (ref_Address clr)"] e2 by simp
  let ?e3 = "upd (i_SetNonce ops (ref_Address clr) (nonce + 1)) e2"
  let ?e4 = "if r_IsBerlin (chainRules c) then upd (i_AddAddressToAccessList ops address) ?e3 else ?e3"
  have m4: "mv False e ?e4" using m2 by (simp add: mv_upd)
  obtain h e5 where e5: "ask (i_GetCodeHash ops address) ?e4 = (h, e5)" by fastforce
  have m5: "mv False e e5" using mv_ask [OF _ m4, of "i_GetCodeHash ops address"] e5 by simp
  obtain k e6 where e6: "ask (i_GetNonce ops address) e5 = (k, e6)" by fastforce
  have m6: "mv False e e6" using mv_ask [OF _ m5, of "i_GetNonce ops address"] e6 by simp
  obtain i e7 where e7: "ask (i_Snapshot ops) e6 = (i, e7)" by fastforce
  have ok6: "ok_evm e6" using m6 by (rule mv_ok)
  have ok7: "ok_evm e7" using Snapshot_mv(1) [OF ok6 e7] by (rule mv_ok)
  let ?e8 = "upd (i_CreateAccount ops address) e7"
  let ?e9 = "if r_IsEIP158 (chainRules c) then upd (i_SetNonce ops address 1) ?e8 else ?e8"
  have m9: "mv False e7 ?e9" using ok7 by (simp add: mv_upd)
  have ok1: "ok_evm e1" and ok2: "ok_evm e2" and ok5: "ok_evm e5" using m1 m2 m5 by (auto dest: mv_ok)
  have ok3: "ok_evm ?e3" using mv_ok [OF mv_upd [OF _ m2]] by simp
  have ok4: "ok_evm ?e4" using m4 by (rule mv_ok)
  have ok8: "ok_evm ?e8" using mv_ok [OF mv_upd, of False "i_CreateAccount ops address" e7 e7] ok7 by simp
  note B = evm_bal_steps
  have "evm_bal ?e9 = evm_bal e1"
    using B(1) [of "i_GetNonce ops (ref_Address clr)" e1] B(2) [of False "i_SetNonce ops (ref_Address clr) (nonce + 1)" e2]
      B(2) [of False "i_AddAddressToAccessList ops address" ?e3] B(1) [of "i_GetCodeHash ops address" ?e4]
      B(1) [of "i_GetNonce ops address" e5] Snapshot_mv(3) [OF ok6 e7] B(2) [of False "i_CreateAccount ops address" e7]
      B(2) [of False "i_SetNonce ops address 1" ?e8] ok1 ok2 ok3 ok4 ok5 ok7 ok8 e2 e5 e6 by (auto split: if_splits)
  moreover have "can \<Longrightarrow> v \<le> evm_bal e1 (ref_Address clr)"
    using CanTransfer_mv(3) [OF c e, of "ref_Address clr" v] e1 by simp
  ultimately have m10: "mv False e7 (Transfer c (ref_Address clr) address v ?e9)" if can
    using that v by (intro mv_Transfer [OF c m9]) simp_all
  obtain ct e11 where N: "new_contract clr (AccountRef address) (Some v) gas (Transfer c (ref_Address clr) address v ?e9) = (ct, e11)"
    by fastforce
  have m11: "mv False e7 e11" if can
    using new_contract_ok(5) [of False e7 clr "AccountRef address" "Some v" gas] m10 [OF that] N by (metis snd_conv)
  let ?ct = "SetCodeOptionalHash address ch ct"
  have ct: "ct_ok ?ct" "Gas ?ct = gas"
    using N code by (auto simp: new_contract_def NewContract_def SetCodeOptionalHash_def ct_ok_def)
  have R: "safe (run ?ct [] False e11) (run_post ?ct False e11)" if can
    using run ct mv_ok [OF m11 [OF that]] by (simp add: good_def)
  have fin: "safe (bind_outcome (run ?ct [] False e11) (\<lambda>((ret, err), ct, e).
      let err = deployment_error c ret err;
          (err, ct, e) = store_code c address ret err ct e
      in if err \<noteq> None \<and> (r_IsHomestead (chainRules c) \<or> err \<noteq> Some ErrCodeStoreOutOfGas) then
           bind_outcome (upd_panic SnapshotPanic (i_RevertToSnapshot (sops c) i) e) (\<lambda>e.
             let ct = (if err \<noteq> Some ErrExecutionReverted then snd (UseGas (Gas ct) ct) else ct)
             in Ret ((ret, address, Gas ct, err), e))
         else Ret ((ret, address, Gas ct, err), e))) (create_post gas e6)" if can
    unfolding safe_simps(4)
  proof (rule safe_mono [OF R [OF that]], clarify)
    fix ret err ct' e12 assume "run_post ?ct False e11 ((ret, err), ct', e12)"
    then have "mv False e11 e12" "unat (Gas ct') \<le> unat gas" "go_slice ret"
      using ct(2) by (simp_all add: run_post_def mv_def)
    then show "safe (let err = deployment_error c ret err;
          (err, ct, e) = store_code c address ret err ct' e12
      in if err \<noteq> None \<and> (r_IsHomestead (chainRules c) \<or> err \<noteq> Some ErrCodeStoreOutOfGas) then
           bind_outcome (upd_panic SnapshotPanic (i_RevertToSnapshot (sops c) i) e) (\<lambda>e.
             let ct = (if err \<noteq> Some ErrExecutionReverted then snd (UseGas (Gas ct) ct) else ct)
             in Ret ((ret, address, Gas ct, err), e))
         else Ret ((ret, address, Gas ct, err), e)) (create_post gas e6)"
      by (intro create_end_safe [OF c ok6 e7 mv_trans [OF m11 [OF that]]])
  qed
  have lift: "create_post gas e6 r \<Longrightarrow> create_post gas e r" for r
    using mv_trans [OF m6] by (auto simp: create_post_def)
  show ?thesis
    unfolding evm_create_def Let_def e1 prod.case c e2 e5 e6 e7 N
  proof (intro safe_ifI, goal_cases)
    case 5 then show ?case by (intro safe_mono [OF fin [unfolded c Let_def] lift]) simp_all
  qed (use e m1 m2 m6 in \<open>simp_all add: create_post_def\<close>)
qed

lemma evm_Create_safe:
  assumes c: "sops c = ops" and e: "ok_evm e" and run: "good n run" "unat gas < n" "unat gas < 2 ^ 61"
    and code: "go_slice code" and v: "0 \<le> v"
  shows "safe (evm_Create c run clr code gas v e) (create_post gas e)"
    "safe (evm_Create2 c run clr code gas v salt e) (create_post gas e)"
proof -
  obtain nonce e1 where e1: "ask (i_GetNonce ops (ref_Address clr)) e = (nonce, e1)" by fastforce
  have m: "mv False e e1" using mv_ask [of "i_GetNonce ops (ref_Address clr)" False e e] e e1 by simp
  obtain a where a: "CreateAddress (clib c) (ref_Address clr) nonce = Ret a" using CreateAddress_Ret by blast
  have "create_post gas e1 r \<Longrightarrow> create_post gas e r" for r
    using mv_trans [OF m] by (auto simp: create_post_def)
  with safe_mono [OF evm_create_safe [OF c mv_ok [OF m] run, of "\<lparr>cah_code = code, cah_hash = 0\<rparr>" v clr a]] code v
  show "safe (evm_Create c run clr code gas v e) (create_post gas e)"
    using c e1 a by (simp add: evm_Create_def)
  show "safe (evm_Create2 c run clr code gas v salt e) (create_post gas e)"
    using code v by (simp add: evm_Create2_def case_prod_beta Let_def cah_Hash_def evm_create_safe [OF c e run])
qed

end

end
