(* ===== verification/VM_Gas_Safety.thy ===== *)
theory VM_Gas_Safety
  imports VM_Call_Safety
begin

text \<open>
  The contracts of the dynamic gas functions: how they change the state and the memory, and the
  lower bounds of their prices on which the interpreter's progress and the gas of a callee rest.
\<close>

lemma stack_Back_Ret [simp]: "n < length st \<Longrightarrow> stack_Back n st = Ret (st ! n)"
  by (simp add: stack_Back_def)

lemma stack_peek_nth [simp]: "0 < length st \<Longrightarrow> stack_peek st = Ret (st ! 0)"
  by (cases st) simp_all

lemma stack_Back_Cons [simp]:
  "stack_Back 0 (x # st) = Ret x" "stack_Back (Suc n) (x # st) = stack_Back n st"
  "stack_Back 1 (x # st) = stack_Back 0 st" "stack_Back (numeral k) (x # st) = stack_Back (pred_numeral k) st"
  by (simp_all add: stack_Back_def numeral_eq_Suc)

lemma numeral_le_length_iff:
  "numeral k \<le> length st \<longleftrightarrow> (\<exists>x s. st = x # s \<and> pred_numeral k \<le> length s)"
  by (simp add: numeral_eq_Suc Suc_le_length_iff)

lemmas length_destruct = numeral_le_length_iff Suc_le_length_iff

lemma with_memory_gas_safe:
  assumes "\<And>fee m'. memoryGasCost m sz = (Inr fee, m') \<Longrightarrow> safe (k fee m') Q"
    "\<And>err m'. memoryGasCost m sz = (Inl err, m') \<Longrightarrow> Q (Inl err, e, ct, m')"
  shows "safe (with_memory_gas e ct m sz k) Q"
  using assms by (auto simp: with_memory_gas_def split: prod.split sum.split)

lemma memory_fee_bound:
  assumes "mem_ok m" "memoryGasCost m sz = (Inr fee, m')"
  shows "unat fee < 2 ^ 56"
proof (cases "sz = 0 \<or> 0x1FFFFFFFE0 < sz")
  case True
  with assms(2) show ?thesis by (auto simp: memoryGasCost_def split: if_splits)
next
  case False
  then have sz: "0 < unat sz" "unat sz \<le> 0x1FFFFFFFE0"
    by (simp_all add: unat_gt_0 word_less_nat_alt)
  have "max (length (store m) div 32) ((unat sz + 31) div 32) \<le> 0xFFFFFFFF"
    using assms(1) sz by (auto simp: mem_ok_def)
  from mem_fee_bound [OF this] memoryGasCost_ok [OF assms(1) sz] assms(2) show ?thesis by auto
qed

lemma SafeAdd_le: "\<not> snd (SafeAdd x y) \<Longrightarrow> unat (fst (SafeAdd x y)) = unat x + unat y"
  using SafeAdd_no_overflow [of x y] by (metis prod.collapse)

section \<open>Prices that leave the state alone\<close>

context vm_state begin

lemma gas_safeI:
  assumes "\<And>e ct st m sz. ok_evm e \<Longrightarrow> mem_ok m \<Longrightarrow> k \<le> length st \<Longrightarrow> unat (Gas ct) < 2 ^ 61 \<Longrightarrow>
    (\<not> mm \<Longrightarrow> sz = 0) \<Longrightarrow> safe (g e ct st m sz) (gas_post q lo e ct st m sz)"
  shows "gas_safe q k mm lo g"
  using assms by (auto simp: gas_safe_def)

lemma gas_post_pure:
  "ok_evm e \<Longrightarrow> gas_post q lo e ct st m sz (Inl err, e, ct, m')"
  "ok_evm e \<Longrightarrow> memoryGasCost m sz = (Inr fee, m') \<Longrightarrow> lo st e \<le> unat x \<Longrightarrow> gas_post q lo e ct st m sz (Inr x, e, ct, m')"
  by (simp_all add: gas_post_def)

lemma memoryGasCost_0 [simp]: "memoryGasCost m 0 = (Inr 0, m)"
  by (simp add: memoryGasCost_def)

lemma gas_memory_safe:
  "gas_safe q 0 True (\<lambda>_ _. 0) pureMemoryGascost"
  "gas_safe q 3 True (\<lambda>_ _. 0) (gasCallDataCopy U)" "gas_safe q 3 True (\<lambda>_ _. 0) (gasCodeCopy U)"
  "gas_safe q 3 True (\<lambda>_ _. 0) (gasReturnDataCopy U)" "gas_safe q 4 True (\<lambda>_ _. 0) (gasExtCodeCopy U)"
  "gas_safe q 2 True (\<lambda>_ _. 0) (gasKeccak256 U)"
  "gas_safe q 3 True (\<lambda>_ _. 0) (gasCreate2 U)"
  "gas_safe q 3 True (\<lambda>_ _. 0) (gasCreateEip3860 U)" "gas_safe q 3 True (\<lambda>_ _. 0) (gasCreate2Eip3860 U)"
  unfolding gasCallDataCopy_def gasCodeCopy_def gasReturnDataCopy_def gasExtCodeCopy_def
  by (intro gas_safeI; auto simp: pureMemoryGascost_def memoryCopierGas_def gasKeccak256_def gasCreate2_def
      gasCreateEip3860_def gasCreate2Eip3860_def checked_def Let_def case_prod_beta
      intro!: with_memory_gas_safe gas_post_pure)+

lemma gas_safe_mono:
  "gas_safe q k mm lo g \<Longrightarrow> k \<le> k' \<Longrightarrow> (mm' \<longrightarrow> mm) \<Longrightarrow> gas_safe q k' mm' lo g"
  by (auto simp: gas_safe_def)

lemma gas_exp_safe:
  "gas_safe q 2 False (\<lambda>_ _. 1) (gasExpFrontier U)" "gas_safe q 2 False (\<lambda>_ _. 1) (gasExpEIP158 U)"
  by (intro gas_safeI; simp add: gasExpFrontier_def gasExpEIP158_def checked_def Let_def gas_post_pure SafeAdd_le)+

lemma gas_log_safe: "gas_safe q 2 True (\<lambda>_ _. 1) (makeGasLog U n)"
proof (rule gas_safeI)
  fix e :: "'st EVM" and ct st m sz
  assume a: "ok_evm e" "2 \<le> length (st :: Stack)"
  have "\<lbrakk>\<not> snd (SafeAdd w LogGas); \<not> snd (SafeAdd (fst (SafeAdd w LogGas)) y); \<not> snd (SafeAdd (fst (SafeAdd (fst (SafeAdd w LogGas)) y)) z)\<rbrakk> \<Longrightarrow>
    1 \<le> unat (fst (SafeAdd (fst (SafeAdd (fst (SafeAdd w LogGas)) y)) z))" for w y z
    by (simp add: SafeAdd_le)
  with a show "safe (makeGasLog U n e ct st m sz) (gas_post q (\<lambda>_ _. 1) e ct st m sz)"
    by (auto simp: makeGasLog_def checked_def intro!: with_memory_gas_safe gas_post_pure)
qed

section \<open>Prices that read or write the state\<close>

lemma gas_post_mv:
  "mv q e e' \<Longrightarrow> gas_post q lo e ct st m sz (Inl err, e', ct, m')"
  "mv q e e' \<Longrightarrow> memoryGasCost m sz = (Inr fee, m') \<Longrightarrow> lo st e' \<le> unat x \<Longrightarrow> gas_post q lo e ct st m sz (Inr x, e', ct, m')"
  by (simp_all add: gas_post_def mv_def)

lemma mv_refunds:
  assumes "sops c = ops" "mv False e e1"
  shows "mv False e (add_refund c g e1)" "safe (sub_refund c g e1) (mv False e)"
proof -
  show "mv False e (add_refund c g e1)" using assms by (simp add: add_refund_def mv_upd)
  have ok: "ok (evm_StateDB e1)" using mv_ok [OF assms(2)] by (simp add: ok_evm_def)
  show "safe (sub_refund c g e1) (mv False e)"
  proof (cases "i_SubRefund ops g (evm_StateDB e1)")
    case (Some t)
    have "mv False e1 (e1\<lparr>evm_StateDB := t\<rparr>)"
      using SubRefund_evo [OF ok Some] SubRefund_bal [OF ok Some] by (simp add: mv_def evo_evm_def fair_bal)
    with assms Some show ?thesis by (auto simp: sub_refund_def upd_panic_def intro: mv_trans)
  qed (simp add: sub_refund_def upd_panic_def assms(1))
qed

lemma dirty_refunds_safe:
  assumes "sops c = ops" "mv False e e1"
  shows "safe (dirty_refunds c x y z original current v e1) (mv False e)"
proof -
  have 2: "safe (if original = v then if original = 0 then Ret (add_refund c y e2) else Ret (add_refund c z e2) else Ret e2)
      (mv False e)" if "mv False e e2" for e2
    using mv_refunds(1) [OF assms(1) that] that by simp
  show ?thesis
    unfolding dirty_refunds_def safe_simps(4)
  proof (rule safe_mono)
    show "safe (if original \<noteq> 0 then if current = 0 then sub_refund c x e1
        else if v = 0 then Ret (add_refund c x e1) else Ret e1 else Ret e1) (mv False e)"
      using mv_refunds [OF assms] assms(2) by simp
  qed (rule 2)
qed

lemma gas_sstore_safe:
  assumes c: "sops c = ops"
  shows "gas_safe False 2 False (\<lambda>_ _. 1) (gasSStore c)" "gas_safe False 2 False (\<lambda>_ _. 1) (gasSStoreEIP2200 c)"
    "gas_safe False 2 False (\<lambda>_ _. 1) (makeGasSStoreFunc r c)"
proof -
  have d: "safe (bind_outcome (dirty_refunds c x y z original current v e1) (\<lambda>e. Ret (Inr g, e, ct, m)))
      (gas_post False lo e ct st m 0)" if "mv False e e1" "\<And>e'. lo st e' \<le> unat g"
    for x y z original current v e e1 g ct st m lo
    unfolding safe_simps(4)
    by (rule safe_mono [OF dirty_refunds_safe [OF c that(1)]]) (use that(2) in \<open>simp add: gas_post_mv(2) [where fee = 0]\<close>)
  note rules = d gas_post_mv(1) gas_post_mv(2) [where fee = 0] mv_ask mv_upd mv_refunds(1)
  show "gas_safe False 2 False (\<lambda>_ _. 1) (gasSStore c)"
    by (rule gas_safeI) (auto simp: length_destruct gasSStore_def back2_def Let_def case_prod_beta c
      simp del: safe_simps(4) intro!: rules)
  show "gas_safe False 2 False (\<lambda>_ _. 1) (gasSStoreEIP2200 c)"
    by (rule gas_safeI) (auto simp: length_destruct gasSStoreEIP2200_def back2_def Let_def case_prod_beta c
      simp del: safe_simps(4) intro!: rules)
  show "gas_safe False 2 False (\<lambda>_ _. 1) (makeGasSStoreFunc r c)"
    by (rule gas_safeI) (auto simp: length_destruct makeGasSStoreFunc_def back2_def Let_def case_prod_beta c
      simp del: safe_simps(4) intro!: rules)
qed

lemma gas_access_safe:
  assumes c: "sops c = ops"
  shows "gas_safe q 1 False (\<lambda>_ _. 1) (gasSLoadEIP2929 c)"
    "gas_safe q 1 False (\<lambda>_ _. 0) (gasEip2929AccountCheck c)"
    "gas_safe q 4 True (\<lambda>_ _. 0) (gasExtCodeCopyEIP2929 c)"
proof -
  note rules = gas_post_mv(1) gas_post_mv(2) [where fee = 0] mv_upd
  show "gas_safe q 1 False (\<lambda>_ _. 1) (gasSLoadEIP2929 c)"
    by (rule gas_safeI) (auto simp: length_destruct gasSLoadEIP2929_def Let_def c intro!: rules)
  show "gas_safe q 1 False (\<lambda>_ _. 0) (gasEip2929AccountCheck c)"
    by (rule gas_safeI) (auto simp: length_destruct gasEip2929AccountCheck_def Let_def c intro!: rules)
  show "gas_safe q 4 True (\<lambda>_ _. 0) (gasExtCodeCopyEIP2929 c)"
  proof (rule gas_safeI)
    fix e :: "'st EVM" and ct :: Contract and st m sz
    assume a: "ok_evm e" "mem_ok m" "4 \<le> length (st :: Stack)" "unat (Gas ct) < 2 ^ 61"
    have "safe (gasExtCodeCopy (ulib c) e ct st m sz) (\<lambda>(x, e', ct', m'). e' = e \<and> ct' = ct \<and>
        (\<forall>g. x = Inr g \<longrightarrow> (\<exists>fee. memoryGasCost m sz = (Inr fee, m'))))"
      using a(3) by (auto simp: gasExtCodeCopy_def memoryCopierGas_def checked_def intro!: with_memory_gas_safe)
    then show "safe (gasExtCodeCopyEIP2929 c e ct st m sz) (gas_post q (\<lambda>_ _. 0) e ct st m sz)"
      unfolding gasExtCodeCopyEIP2929_def safe_simps(4)
      by (rule safe_mono) (use a(1,3) in \<open>auto simp: length_destruct checked_def Let_def c
        intro!: gas_post_mv mv_upd split: sum.split\<close>)
  qed
qed

lemma mv_selfdestruct:
  assumes c: "sops c = ops" and m: "mv q e e1"
  shows "mv q e (snd (endows_new c a ct e1))" "mv False e e1 \<Longrightarrow> mv False e (refund_selfdestruct c ct e1)"
  using m by (auto simp: endows_new_def refund_selfdestruct_def c case_prod_beta Let_def
      intro!: mv_ask mv_refunds(1))

lemma gas_selfdestruct_safe:
  assumes c: "sops c = ops"
  shows "gas_safe False 1 False (\<lambda>_ _. 0) (gasSelfdestruct c)"
    "gas_safe False 1 False (\<lambda>_ _. 0) (makeSelfdestructGasFn b c)"
  by (rule gas_safeI; auto simp: length_destruct gasSelfdestruct_def makeSelfdestructGasFn_def Let_def
      case_prod_beta c intro!: gas_post_mv(2) [where fee = 0] mv_ask mv_upd mv_selfdestruct)+

section \<open>Prices of calls\<close>

definition temp_gas :: "Stack \<Rightarrow> 'st EVM \<Rightarrow> nat" where
  "temp_gas st e = unat (callGasTemp e)"

definition temp_gas_value :: "Stack \<Rightarrow> 'st EVM \<Rightarrow> nat" where
  "temp_gas_value st e = unat (callGasTemp e) + (if st ! 2 \<noteq> 0 then 9000 else 0)"

lemma price_call_safe:
  assumes "mv q e e1" "\<exists>fee. memoryGasCost m sz = (Inr fee, m')" "\<And>temp. lo st (e1\<lparr>callGasTemp := temp\<rparr>) \<le> unat gas + unat temp"
  shows "safe (price_call c gas callCost e1 ct m') (gas_post q lo e ct st m sz)"
  using assms by (auto simp: price_call_def checked_def Let_def SafeAdd_le intro!: gas_post_mv split: sum.split)

lemma gas_calls_safe:
  assumes c: "sops c = ops" and U: "uint256_ok (ulib c)"
  shows "gas_safe q 7 True temp_gas_value (gasCall c)" "gas_safe q 7 True temp_gas_value (gasCallCode c)"
    "gas_safe q 6 True temp_gas (gasDelegateCall c)" "gas_safe q 6 True temp_gas (gasStaticCall c)"
proof -
  show "gas_safe q 6 True temp_gas (gasDelegateCall c)" "gas_safe q 6 True temp_gas (gasStaticCall c)"
    by (rule gas_safeI; auto simp: gasDelegateCall_def gasStaticCall_def length_destruct temp_gas_def
        intro!: with_memory_gas_safe price_call_safe gas_post_mv(1))+
  show "gas_safe q 7 True temp_gas_value (gasCallCode c)"
    by (rule gas_safeI) (auto simp: gasCallCode_def length_destruct temp_gas_value_def checked_def Let_def SafeAdd_le
        uint256_simps(2) [OF U] intro!: with_memory_gas_safe price_call_safe gas_post_mv(1))
  show "gas_safe q 7 True temp_gas_value (gasCall c)"
    by (rule gas_safeI) (auto simp: gasCall_def back2_def length_destruct temp_gas_value_def checked_def Let_def SafeAdd_le
        uint256_simps(1) [OF U] c case_prod_beta intro!: with_memory_gas_safe price_call_safe gas_post_mv(1) mv_ask)
qed

text \<open>
  With the rule that a caller keeps a 64th part of its gas, no call price comes near 2^64: the
  price of a cold account can be added without a wrap-around.
\<close>

definition cap :: "(vm_error + u64) \<times> 'st EVM \<times> Contract \<times> Memory \<Rightarrow> bool" where
  "cap r \<longleftrightarrow> (\<forall>x. fst r = Inr x \<longrightarrow> unat x < 2 ^ 64 - 2 ^ 57)"

definition capped :: "nat \<Rightarrow> 'st gasFunc \<Rightarrow> bool" where
  "capped k g \<longleftrightarrow> (\<forall>e ct st m sz. ok_evm e \<and> mem_ok m \<and> k \<le> length st \<longrightarrow> safe (g e ct st m sz) cap)"

lemma callGas_capped:
  assumes "callGas U True avail base cost = Inr temp"
  shows "unat temp \<le> 2 ^ 64 - 2 ^ 58"
proof -
  let ?a = "avail - base"
  have "temp \<le> ?a - ?a div 64"
    using assms by (auto simp: callGas_def Let_def split: if_splits)
  moreover have "unat (?a - ?a div 64) = unat ?a - unat ?a div 64"
    by (subst unat_sub_u64) (simp_all add: word_le_nat_alt unat_div div_le_dividend)
  ultimately have "unat temp \<le> unat ?a - unat ?a div 64" by (simp add: word_le_nat_alt)
  with unat_lt_u64 [of ?a] show ?thesis by simp
qed

lemma price_call_capped:
  assumes "r_IsEIP150 (chainRules c)" "unat gas < 2 ^ 57"
  shows "safe (price_call c gas cost e ct m) cap"
proof (cases "callGas (ulib c) True (Gas ct) gas cost")
  case (Inr temp)
  with SafeAdd_le [of gas temp] callGas_capped [OF Inr] assms show ?thesis
    by (auto simp: price_call_def checked_def Let_def cap_def)
qed (simp add: price_call_def assms(1) cap_def)

lemma calls_capped:
  assumes r: "r_IsEIP150 (chainRules c)"
  shows "capped 7 (gasCall c)" "capped 7 (gasCallCode c)" "capped 6 (gasDelegateCall c)" "capped 6 (gasStaticCall c)"
proof -
  have fee: "unat (fst (SafeAdd g fee)) < 2 ^ 57"
    if "mem_ok m" "memoryGasCost m sz = (Inr fee, m')" "\<not> snd (SafeAdd g fee)" "unat g \<le> 34000" for m sz fee m' g
    using memory_fee_bound [OF that(1,2)] SafeAdd_le [OF that(3)] that(4) by simp
  show "capped 6 (gasDelegateCall c)" "capped 6 (gasStaticCall c)"
    by (auto simp: capped_def gasDelegateCall_def gasStaticCall_def length_destruct cap_def
        intro!: with_memory_gas_safe price_call_capped [OF r] order_less_trans [OF memory_fee_bound])
  show "capped 7 (gasCallCode c)"
    by (auto simp: capped_def gasCallCode_def length_destruct cap_def checked_def Let_def
        intro!: with_memory_gas_safe price_call_capped [OF r] fee)
  show "capped 7 (gasCall c)"
    by (auto simp: capped_def gasCall_def back2_def length_destruct cap_def checked_def Let_def case_prod_beta
        intro!: with_memory_gas_safe price_call_capped [OF r] fee)
qed

lemma gas_2929_after:
  assumes old: "gas_post q lo e1 ct1 st m sz (r, e2, ct2, m2)" and capd: "cap (r, e2, ct2, m2)"
    and m: "mv q e e1" and ct: "ct1 = ct\<lparr>Gas := Gas ct - 2500\<rparr>" "2500 \<le> unat (Gas ct)"
  shows "gas_post q lo e ct st m sz
    (case r of Inl err \<Rightarrow> (Inl err, e2, ct2, m2) | Inr x \<Rightarrow> (Inr (x + 2500), e2, ct2\<lparr>Gas := Gas ct2 + 2500\<rparr>, m2))"
proof -
  have "mv q e1 e2" using old by (simp add: gas_post_def mv_def)
  with m have m2: "mv q e e2" by (rule mv_trans)
  have g: "unat (Gas ct - 2500) = unat (Gas ct) - 2500"
    using ct(2) by (subst unat_sub_u64) (simp_all add: word_le_nat_alt)
  show ?thesis
  proof (cases r)
    case (Inl err)
    with old m2 g ct show ?thesis by (auto simp: gas_post_def mv_def ct_keeps_def)
  next
    case (Inr x)
    have x: "unat (x + 2500) = unat x + 2500"
      using capd Inr by (simp add: cap_def unat_add_u64)
    from old Inr m2 x ct show ?thesis by (auto simp: gas_post_def mv_def)
  qed
qed

lemma gas_2929_safe:
  assumes c: "sops c = ops" and old: "gas_safe q k True lo old" "capped k old" "2 \<le> k"
  shows "gas_safe q k True lo (makeCallVariantGasCallEIP2929 c old)"
proof (rule gas_safeI)
  fix e :: "'st EVM" and ct :: Contract and st m sz
  assume a: "ok_evm e" "mem_ok m" "k \<le> length (st :: Stack)" "unat (Gas ct) < 2 ^ 61"
  let ?addr = "u256_address (ulib c) (st ! 1)"
  let ?e1 = "upd (i_AddAddressToAccessList ops ?addr) e"
  let ?ct1 = "ct\<lparr>Gas := Gas ct - 2500\<rparr>"
  have b: "stack_Back 1 st = Ret (st ! 1)" using a(3) old(3) by simp
  have m1: "mv q e ?e1" using a(1) by (simp add: mv_upd)
  show "safe (makeCallVariantGasCallEIP2929 c old e ct st m sz) (gas_post q lo e ct st m sz)"
  proof (cases "i_AddressInAccessList ops ?addr (evm_StateDB e)")
    case True
    have "safe (old e ct st m sz) (gas_post q lo e ct st m sz)" using old(1) a by (simp add: gas_safe_def)
    then show ?thesis
      using True b c by (auto simp: makeCallVariantGasCallEIP2929_def Let_def elim!: safe_mono)
  next
    case False
    show ?thesis
    proof (cases "Gas ct < 2500")
      case True
      with False b c m1 show ?thesis
        by (simp add: makeCallVariantGasCallEIP2929_def Let_def UseGas_def gas_post_mv(1))
    next
      case gas: False
      then have le: "2500 \<le> unat (Gas ct)" by (simp add: word_less_nat_alt)
      then have "unat (Gas ?ct1) < 2 ^ 61" using a(4) gas
        by (simp add: unat_sub_u64 not_less less_imp_diff_less)
      then have "safe (old ?e1 ?ct1 st m sz) (gas_post q lo ?e1 ?ct1 st m sz)" "safe (old ?e1 ?ct1 st m sz) cap"
        using old a mv_ok [OF m1] by (simp_all add: gas_safe_def capped_def)
      then have "safe (old ?e1 ?ct1 st m sz) (\<lambda>(r, e2, ct2, m2). gas_post q lo e ct st m sz
          (case r of Inl err \<Rightarrow> (Inl err, e2, ct2, m2) | Inr x \<Rightarrow> (Inr (x + 2500), e2, ct2\<lparr>Gas := Gas ct2 + 2500\<rparr>, m2)))"
        using gas_2929_after [OF _ _ m1 refl le]
        by (cases "old ?e1 ?ct1 st m sz") auto
      then show ?thesis
        using False gas b c
        by (auto simp: makeCallVariantGasCallEIP2929_def Let_def UseGas_def elim!: safe_mono split: sum.splits)
    qed
  qed
qed

lemma gas_calls_2929_safe:
  assumes "sops c = ops" "uint256_ok (ulib c)" "r_IsEIP150 (chainRules c)"
  shows "gas_safe q 7 True temp_gas_value (gasCallEIP2929 c)" "gas_safe q 7 True temp_gas_value (gasCallCodeEIP2929 c)"
    "gas_safe q 6 True temp_gas (gasDelegateCallEIP2929 c)" "gas_safe q 6 True temp_gas (gasStaticCallEIP2929 c)"
  unfolding gasCallEIP2929_def gasCallCodeEIP2929_def gasDelegateCallEIP2929_def gasStaticCallEIP2929_def
  by (rule gas_2929_safe [OF assms(1) gas_calls_safe(1) [OF assms(1,2)] calls_capped(1) [OF assms(3)]]
      gas_2929_safe [OF assms(1) gas_calls_safe(2) [OF assms(1,2)] calls_capped(2) [OF assms(3)]]
      gas_2929_safe [OF assms(1) gas_calls_safe(3) [OF assms(1,2)] calls_capped(3) [OF assms(3)]]
      gas_2929_safe [OF assms(1) gas_calls_safe(4) [OF assms(1,2)] calls_capped(4) [OF assms(3)]]; simp)+

end

end
