(* ===== verification/VM_Exec_Safety.thy ===== *)
theory VM_Exec_Safety
  imports VM_Gas_Safety
begin

text \<open>
  The contracts of the instructions. The operands an instruction pops are on the stack and the
  memory it touches has been paid for, so that it neither panics nor runs out of fuel; it leaves
  the number of results its table entry declares, never more gas than its caller gave, and under
  write protection it changes nothing in the world or fails.
\<close>

context vm_state begin

lemma exec_plainI:
  assumes "\<And>run fr. fr_ok fr \<Longrightarrow> pops \<le> length (fr_stack fr) \<Longrightarrow> covered ms fr \<Longrightarrow>
    unat (fr_pc fr) < length (Code (fr_contract fr)) \<Longrightarrow>
    safe (f run fr) (exec_post pops push (unat (Gas (fr_contract fr))) fr)"
  shows "exec_safe calls pops push ms (\<lambda>_ _. 0) f"
  unfolding exec_safe_def
proof (intro allI impI, elim conjE)
  fix n run fr b
  assume "fr_ok fr" "pops \<le> length (fr_stack fr)" "covered ms fr"
    "unat (fr_pc fr) < length (Code (fr_contract fr))" and b: "unat (Gas (fr_contract fr)) + 0 \<le> b"
  from assms [OF this(1-4), of run] show "safe (f run fr) (exec_post pops push b fr)"
    by (rule safe_mono) (use b in \<open>auto simp: exec_post_def\<close>)
qed

lemma exec_postI:
  assumes "mv True (fr_evm fr) (fr_evm fr')" "ct_keeps (fr_contract fr) (fr_contract fr')" "mem_ok (fr_mem fr')"
    "unat (Gas (fr_contract fr')) \<le> b" "err \<noteq> None \<Longrightarrow> go_slice res"
    "err = None \<Longrightarrow> length (fr_stack fr') + pops = length (fr_stack fr) + push"
  shows "exec_post pops push b fr ((res, err), fr')"
  using assms by (simp add: exec_post_def mv_def)

lemma fr_okD: "fr_ok fr \<Longrightarrow> ok_evm (fr_evm fr)" "fr_ok fr \<Longrightarrow> mem_ok (fr_mem fr)"
  "fr_ok fr \<Longrightarrow> go_slice (Code (fr_contract fr))" "fr_ok fr \<Longrightarrow> go_slice (Input (fr_contract fr))"
  "fr_ok fr \<Longrightarrow> \<exists>v. ct_value (fr_contract fr) = Some v"
  by (auto simp: fr_ok_def ct_ok_def)

lemma safe_bindI: "safe x P \<Longrightarrow> (\<And>y. P y \<Longrightarrow> safe (f y) Q) \<Longrightarrow> safe (bind_outcome x f) Q"
  by (simp add: safe_mono)

section \<open>Arithmetic\<close>

lemma unop_safe: "exec_safe calls 1 1 ms (\<lambda>_ _. 0) (unop f)"
  and binop_safe: "exec_safe calls 2 1 ms (\<lambda>_ _. 0) (binop g)"
  and ternop_safe: "exec_safe calls 3 1 ms (\<lambda>_ _. 0) (ternop h)"
  by (rule exec_plainI; auto simp: length_destruct unop_def binop_def ternop_def push_value_def proceed_def fr_okD
      intro!: exec_postI)+

lemmas arith_defs = opAdd_def opSub_def opMul_def opDiv_def opSdiv_def opMod_def opSmod_def opExp_def
  opSignExtend_def opNot_def opLt_def opGt_def opSlt_def opSgt_def opEq_def opIszero_def opAnd_def
  opOr_def opXor_def opByte_def opAddmod_def opMulmod_def opSHL_def opSHR_def opSAR_def opBlockhash_def

section \<open>Pushes of the environment\<close>

lemma push_safe:
  "fr_ok fr \<Longrightarrow> safe (push_value v fr) (exec_post 0 (Suc 0) (unat (Gas (fr_contract fr))) fr)"
  by (auto simp: push_value_def proceed_def fr_okD intro!: exec_postI)

lemma env_safe:
  "exec_safe calls 0 1 ms (\<lambda>_ _. 0) (opAddress c)" "exec_safe calls 0 1 ms (\<lambda>_ _. 0) (opOrigin c)"
  "exec_safe calls 0 1 ms (\<lambda>_ _. 0) (opCaller c)" "exec_safe calls 0 1 ms (\<lambda>_ _. 0) (opCallDataSize c)"
  "exec_safe calls 0 1 ms (\<lambda>_ _. 0) (opReturnDataSize c)" "exec_safe calls 0 1 ms (\<lambda>_ _. 0) (opCodeSize c)"
  "exec_safe calls 0 1 ms (\<lambda>_ _. 0) (opGasprice c)" "exec_safe calls 0 1 ms (\<lambda>_ _. 0) (opCoinbase c)"
  "exec_safe calls 0 1 ms (\<lambda>_ _. 0) (opTimestamp c)" "exec_safe calls 0 1 ms (\<lambda>_ _. 0) (opNumber c)"
  "exec_safe calls 0 1 ms (\<lambda>_ _. 0) (opDifficulty c)" "exec_safe calls 0 1 ms (\<lambda>_ _. 0) (opGasLimit c)"
  "exec_safe calls 0 1 ms (\<lambda>_ _. 0) (opPc c)" "exec_safe calls 0 1 ms (\<lambda>_ _. 0) (opMsize c)"
  "exec_safe calls 0 1 ms (\<lambda>_ _. 0) (opGas c)" "exec_safe calls 0 1 ms (\<lambda>_ _. 0) opPush0"
  by (rule exec_plainI; simp add: opAddress_def opOrigin_def opCaller_def opCallDataSize_def opReturnDataSize_def
      opCodeSize_def opGasprice_def opCoinbase_def opTimestamp_def opNumber_def opDifficulty_def opGasLimit_def
      opPc_def opMsize_def opGas_def opPush0_def push_address_def push_len64_def push_big_def push_safe)+

lemma nil_safe:
  "exec_safe calls 0 1 ms (\<lambda>_ _. 0) (opCallValue c)"
  "Random c \<noteq> None \<Longrightarrow> exec_safe calls 0 1 ms (\<lambda>_ _. 0) (opRandom c)"
  "vm_ChainID c \<noteq> None \<Longrightarrow> exec_safe calls 0 1 ms (\<lambda>_ _. 0) (opChainID c)"
  "BaseFee c \<noteq> None \<Longrightarrow> exec_safe calls 0 1 ms (\<lambda>_ _. 0) (opBaseFee c)"
proof -
  show "exec_safe calls 0 1 ms (\<lambda>_ _. 0) (opCallValue c)"
    by (rule exec_plainI) (auto simp: opCallValue_def push_big_def push_safe dest: fr_okD(5) split: option.split)
qed (rule exec_plainI; auto simp: opRandom_def opChainID_def opBaseFee_def push_big_def push_safe)+

section \<open>Queries of the state\<close>

lemma query_safe:
  assumes c: "sops c = ops"
  shows "exec_safe calls 1 1 ms (\<lambda>_ _. 0) (opBalance c)" "exec_safe calls 1 1 ms (\<lambda>_ _. 0) (opExtCodeSize c)"
    "exec_safe calls 1 1 ms (\<lambda>_ _. 0) (opExtCodeHash c)" "exec_safe calls 0 1 ms (\<lambda>_ _. 0) (opSelfBalance c)"
    "exec_safe calls 1 1 ms (\<lambda>_ _. 0) (opSload c)" "exec_safe calls 1 1 ms (\<lambda>_ _. 0) (opTload c)"
  by (rule exec_plainI; auto simp: length_destruct opBalance_def opExtCodeSize_def opExtCodeHash_def opSelfBalance_def
      opSload_def opTload_def c push_value_def push_big_def proceed_def fr_okD case_prod_beta Let_def
      intro!: exec_postI mv_ask)+

section \<open>Memory and data\<close>

lemma covered_calc:
  assumes "uint256_ok U" "covered (Some ms) fr" "ms (fr_stack fr) = Ret (calcMemSize64 U off l)"
  shows "covers (fr_mem fr) off l"
  using assms calcMemSize64_covers [OF assms(1), of off l] by (auto simp: covered_def)

lemma covered_calc_Uint:
  assumes "uint256_ok U" "covered (Some ms) fr" "ms (fr_stack fr) = Ret (calcMemSize64WithUint U off n)" "n \<noteq> 0"
  shows "unat off + unat n \<le> length (store (fr_mem fr))"
  using assms calcMemSize64WithUint_covers [OF assms(1), of off n] by (auto simp: covered_def)

lemma covered_max:
  assumes "uint256_ok U" "covered (Some ms) fr"
    "ms (fr_stack fr) = Ret (max_size (calcMemSize64 U a b) (calcMemSize64 U c d))"
  shows "covers (fr_mem fr) a b" "covers (fr_mem fr) c d"
proof -
  obtain v where v: "max_size (calcMemSize64 U a b) (calcMemSize64 U c d) = (v, False)"
    "unat v \<le> length (store (fr_mem fr))" using assms(2,3) by (auto simp: covered_def)
  obtain x y where xy: "calcMemSize64 U a b = (x, False)" "calcMemSize64 U c d = (y, False)"
    using v(1) by (cases "calcMemSize64 U a b"; cases "calcMemSize64 U c d") (auto simp: max_size_def split: if_splits)
  then have "unat x \<le> unat v" "unat y \<le> unat v"
    using v(1) by (auto simp: max_size_def word_less_nat_alt split: if_splits)
  with v(2) xy show "covers (fr_mem fr) a b" "covers (fr_mem fr) c d"
    using calcMemSize64_covers [OF assms(1)] by (meson le_trans)+
qed

lemma write_mem_safe:
  assumes "fr_ok fr" "covers (fr_mem fr) off l" "mv True (fr_evm fr) e'" "length st + pops = length (fr_stack fr)"
  shows "safe (write_mem (ucast off) (ucast l) d (fr\<lparr>fr_stack := st, fr_evm := e'\<rparr>))
    (exec_post pops 0 (unat (Gas (fr_contract fr))) fr)"
proof -
  have "safe (mem_Set (ucast off) (ucast l) d (fr_mem fr)) (same_size (fr_mem fr))"
    by (rule mem_Set_covers [OF fr_okD(2) [OF assms(1)] assms(2)])
  moreover have "same_size (fr_mem fr) m' \<Longrightarrow> mem_ok m'" for m'
    using fr_okD(2) [OF assms(1)] by (rule same_size_ok)
  ultimately show ?thesis
    using assms by (auto simp: write_mem_def proceed_def elim!: safe_mono intro!: exec_postI)
qed

lemma copy_safe:
  assumes c: "sops c = ops" and U: "uint256_ok (ulib c)"
  shows "exec_safe calls 3 0 (Some (memoryCallDataCopy (ulib c))) (\<lambda>_ _. 0) (opCallDataCopy c)"
    "exec_safe calls 3 0 (Some (memoryCodeCopy (ulib c))) (\<lambda>_ _. 0) (opCodeCopy c)"
    "exec_safe calls 3 0 (Some (memoryReturnDataCopy (ulib c))) (\<lambda>_ _. 0) (opReturnDataCopy c)"
    "exec_safe calls 4 0 (Some (memoryExtCodeCopy (ulib c))) (\<lambda>_ _. 0) (opExtCodeCopy c)"
proof -
  have W: "safe (write_mem (ucast off) (ucast l) d (fr\<lparr>fr_stack := st\<rparr>)) (exec_post pops 0 (unat (Gas (fr_contract fr))) fr)"
    if "fr_ok fr" "covers (fr_mem fr) off l" "length st + pops = length (fr_stack fr)" for off l d fr st pops
    using write_mem_safe [OF that(1,2), of "fr_evm fr" st pops] that fr_okD(1) [OF that(1)] by simp
  show "exec_safe calls 3 0 (Some (memoryCallDataCopy (ulib c))) (\<lambda>_ _. 0) (opCallDataCopy c)"
  proof (rule exec_plainI)
    fix run and fr :: "'st frame"
    assume f: "fr_ok fr" "3 \<le> length (fr_stack fr)" "covered (Some (memoryCallDataCopy (ulib c))) fr"
    then obtain x y z s where st: "fr_stack fr = x # y # z # s" by (auto simp: length_destruct)
    have cv: "covers (fr_mem fr) x z"
      using f(3) by (rule covered_calc [OF U]) (simp add: memoryCallDataCopy_def back2_def st)
    show "safe (opCallDataCopy c run fr) (exec_post 3 0 (unat (Gas (fr_contract fr))) fr)"
      using W [OF f(1) cv] getData_covers [OF fr_okD(4) [OF f(1)] fr_okD(2) [OF f(1)] cv]
      by (auto simp: opCallDataCopy_def st uint256_simps [OF U] elim!: safe_mono)
  qed
  show "exec_safe calls 3 0 (Some (memoryCodeCopy (ulib c))) (\<lambda>_ _. 0) (opCodeCopy c)"
  proof (rule exec_plainI)
    fix run and fr :: "'st frame"
    assume f: "fr_ok fr" "3 \<le> length (fr_stack fr)" "covered (Some (memoryCodeCopy (ulib c))) fr"
    then obtain x y z s where st: "fr_stack fr = x # y # z # s" by (auto simp: length_destruct)
    have cv: "covers (fr_mem fr) x z"
      using f(3) by (rule covered_calc [OF U]) (simp add: memoryCodeCopy_def back2_def st)
    show "safe (opCodeCopy c run fr) (exec_post 3 0 (unat (Gas (fr_contract fr))) fr)"
      using W [OF f(1) cv] getData_covers [OF fr_okD(3) [OF f(1)] fr_okD(2) [OF f(1)] cv]
      by (auto simp: opCodeCopy_def st uint256_simps [OF U] elim!: safe_mono)
  qed
  show "exec_safe calls 3 0 (Some (memoryReturnDataCopy (ulib c))) (\<lambda>_ _. 0) (opReturnDataCopy c)"
  proof (rule exec_plainI)
    fix run and fr :: "'st frame"
    assume f: "fr_ok fr" "3 \<le> length (fr_stack fr)" "covered (Some (memoryReturnDataCopy (ulib c))) fr"
    then obtain x y z s where st: "fr_stack fr = x # y # z # s" by (auto simp: length_destruct)
    have cv: "covers (fr_mem fr) x z"
      using f(3) by (rule covered_calc [OF U]) (simp add: memoryReturnDataCopy_def back2_def st)
    have no: "\<not> (ucast (y + z) :: u64) < ucast y" if "unat y < 2 ^ 64" "unat (y + z) < 2 ^ 64"
    proof -
      have "unat z \<le> 0x1FFFFFFFE0" by (rule covers_length [OF fr_okD(2) [OF f(1)] cv])
      then have "unat (y + z) = unat y + unat z" using that(1) by (subst unat_add_lem [symmetric]) simp
      then show ?thesis using that by (simp add: word_less_nat_alt unat_ucast_u64)
    qed
    show "safe (opReturnDataCopy c run fr) (exec_post 3 0 (unat (Gas (fr_contract fr))) fr)"
      using W [OF f(1) cv, of s 3] no f(1)
      by (auto simp: opReturnDataCopy_def st uint256_simps [OF U] fail_def Let_def fr_okD intro!: exec_postI)
  qed
  show "exec_safe calls 4 0 (Some (memoryExtCodeCopy (ulib c))) (\<lambda>_ _. 0) (opExtCodeCopy c)"
  proof (rule exec_plainI)
    fix run and fr :: "'st frame"
    assume f: "fr_ok fr" "4 \<le> length (fr_stack fr)" "covered (Some (memoryExtCodeCopy (ulib c))) fr"
    then obtain w x y z s where st: "fr_stack fr = w # x # y # z # s" by (auto simp: length_destruct)
    have cv: "covers (fr_mem fr) x z"
      using f(3) by (rule covered_calc [OF U]) (simp add: memoryExtCodeCopy_def back2_def st)
    let ?q = "i_GetCode ops (u256_address (ulib c) w)"
    have m: "mv True (fr_evm fr) (snd (ask ?q (fr_evm fr)))" using fr_okD(1) [OF f(1)] by (simp add: mv_ask)
    have "go_slice (fst (ask ?q (fr_evm fr)))"
      using fr_okD(1) [OF f(1)] GetCode_size by (simp add: ask_def ok_evm_def case_prod_beta)
    from getData_covers [OF this fr_okD(2) [OF f(1)] cv] write_mem_safe [OF f(1) cv m, of s 4]
    show "safe (opExtCodeCopy c run fr) (exec_post 4 0 (unat (Gas (fr_contract fr))) fr)"
      by (auto simp: opExtCodeCopy_def st c uint256_simps [OF U] case_prod_beta elim!: safe_mono)
  qed
qed

lemma memory_safe:
  assumes c: "sops c = ops" and U: "uint256_ok (ulib c)"
  shows "exec_safe calls 2 1 (Some (memoryKeccak256 (ulib c))) (\<lambda>_ _. 0) (opKeccak256 c)"
    "exec_safe calls 1 1 (Some (memoryMLoad (ulib c))) (\<lambda>_ _. 0) (opMload c)"
    "exec_safe calls 2 0 (Some (memoryMStore (ulib c))) (\<lambda>_ _. 0) (opMstore c)"
    "exec_safe calls 2 0 (Some (memoryMStore8 (ulib c))) (\<lambda>_ _. 0) (opMstore8 c)"
    "exec_safe calls 2 0 (Some (memoryReturn (ulib c))) (\<lambda>_ _. 0) (opReturn c)"
    "exec_safe calls 2 0 (Some (memoryRevert (ulib c))) (\<lambda>_ _. 0) (opRevert c)"
proof -
  note I = uint256_simps [OF U] and D = fr_okD
  have two: "\<exists>x y s. fr_stack fr = x # y # s" if "2 \<le> length (fr_stack fr)" for fr :: "'st frame"
    using that by (auto simp: length_destruct)
  show "exec_safe calls 2 1 (Some (memoryKeccak256 (ulib c))) (\<lambda>_ _. 0) (opKeccak256 c)"
  proof (rule exec_plainI)
    fix run and fr :: "'st frame"
    assume f: "fr_ok fr" "2 \<le> length (fr_stack fr)" "covered (Some (memoryKeccak256 (ulib c))) fr"
    from two [OF f(2)] obtain x y s where st: "fr_stack fr = x # y # s" by blast
    have cv: "covers (fr_mem fr) x y"
      using f(3) by (rule covered_calc [OF U]) (simp add: memoryKeccak256_def back2_def st)
    show "safe (opKeccak256 c run fr) (exec_post 2 1 (unat (Gas (fr_contract fr))) fr)"
      using mem_slice_covers(1) [OF D(2) [OF f(1)] cv] f(1)
      by (auto simp: opKeccak256_def st I c push_value_def proceed_def Let_def D elim!: safe_mono
          intro!: exec_postI mv_upd)
  qed
  show "exec_safe calls 1 1 (Some (memoryMLoad (ulib c))) (\<lambda>_ _. 0) (opMload c)"
  proof (rule exec_plainI)
    fix run and fr :: "'st frame"
    assume f: "fr_ok fr" "1 \<le> length (fr_stack fr)" "covered (Some (memoryMLoad (ulib c))) fr"
    then obtain x s where st: "fr_stack fr = x # s" by (auto simp: length_destruct)
    have "unat x + unat (32 :: u64) \<le> length (store (fr_mem fr))"
      using f(3) by (rule covered_calc_Uint [OF U]) (simp_all add: memoryMLoad_def st)
    then have "safe (mem_GetPtr (sint (ucast x :: u64)) 32 (fr_mem fr)) (\<lambda>b. True)"
      by (intro mem_GetPtr_32 D(2) f(1)) simp
    then show "safe (opMload c run fr) (exec_post 1 1 (unat (Gas (fr_contract fr))) fr)"
      using f(1) by (auto simp: opMload_def st I push_value_def proceed_def D elim!: safe_mono intro!: exec_postI)
  qed
  show "exec_safe calls 2 0 (Some (memoryMStore (ulib c))) (\<lambda>_ _. 0) (opMstore c)"
  proof (rule exec_plainI)
    fix run and fr :: "'st frame"
    assume f: "fr_ok fr" "2 \<le> length (fr_stack fr)" "covered (Some (memoryMStore (ulib c))) fr"
    from two [OF f(2)] obtain x y s where st: "fr_stack fr = x # y # s" by blast
    have "unat x + unat (32 :: u64) \<le> length (store (fr_mem fr))"
      using f(3) by (rule covered_calc_Uint [OF U]) (simp_all add: memoryMStore_def st)
    then have "safe (mem_Set32 (ulib c) (ucast x) y (fr_mem fr)) (same_size (fr_mem fr))"
      by (intro mem_Set32_covers D(2) f(1) I(6)) simp
    moreover have "same_size (fr_mem fr) m' \<Longrightarrow> mem_ok m'" for m'
      using D(2) [OF f(1)] by (rule same_size_ok)
    ultimately show "safe (opMstore c run fr) (exec_post 2 0 (unat (Gas (fr_contract fr))) fr)"
      using f(1) by (auto simp: opMstore_def st I proceed_def D elim!: safe_mono intro!: exec_postI)
  qed
  show "exec_safe calls 2 0 (Some (memoryMStore8 (ulib c))) (\<lambda>_ _. 0) (opMstore8 c)"
  proof (rule exec_plainI)
    fix run and fr :: "'st frame"
    assume f: "fr_ok fr" "2 \<le> length (fr_stack fr)" "covered (Some (memoryMStore8 (ulib c))) fr"
    from two [OF f(2)] obtain x y s where st: "fr_stack fr = x # y # s" by blast
    have l: "unat x + unat (1 :: u64) \<le> length (store (fr_mem fr))"
      using f(3) by (rule covered_calc_Uint [OF U]) (simp_all add: memoryMStore8_def st)
    then have "unat (ucast x :: u64) = unat x" using D(2) [OF f(1)]
      by (intro unat_ucast_u64) (simp add: mem_ok_def)
    moreover have "mem_ok ((fr_mem fr)\<lparr>store := (store (fr_mem fr))[i := b]\<rparr>)" for i b
      using D(2) [OF f(1)] by (simp add: mem_ok_def)
    ultimately show "safe (opMstore8 c run fr) (exec_post 2 0 (unat (Gas (fr_contract fr))) fr)"
      using f(1) l by (auto simp: opMstore8_def st I proceed_def Let_def D intro!: exec_postI)
  qed
  have R: "safe (mem_GetPtr (sint (ucast x :: u64)) (sint (ucast y :: u64)) (fr_mem fr)) go_slice"
    if "fr_ok fr" "covered (Some ms) fr" "ms (x # y # s) = Ret (calcMemSize64 (ulib c) x y)" "fr_stack fr = x # y # s"
    for fr ms x y s
    using that by (intro mem_slice_covers D(2)) (simp_all add: covered_calc [OF U])
  show "exec_safe calls 2 0 (Some (memoryReturn (ulib c))) (\<lambda>_ _. 0) (opReturn c)"
  proof (rule exec_plainI)
    fix run and fr :: "'st frame"
    assume f: "fr_ok fr" "2 \<le> length (fr_stack fr)" "covered (Some (memoryReturn (ulib c))) fr"
    from two [OF f(2)] obtain x y s where st: "fr_stack fr = x # y # s" by blast
    from R [OF f(1,3) _ st] show "safe (opReturn c run fr) (exec_post 2 0 (unat (Gas (fr_contract fr))) fr)"
      using f(1) by (auto simp: opReturn_def memoryReturn_def back2_def st I D elim!: safe_mono intro!: exec_postI)
  qed
  show "exec_safe calls 2 0 (Some (memoryRevert (ulib c))) (\<lambda>_ _. 0) (opRevert c)"
  proof (rule exec_plainI)
    fix run and fr :: "'st frame"
    assume f: "fr_ok fr" "2 \<le> length (fr_stack fr)" "covered (Some (memoryRevert (ulib c))) fr"
    from two [OF f(2)] obtain x y s where st: "fr_stack fr = x # y # s" by blast
    from R [OF f(1,3) _ st] show "safe (opRevert c run fr) (exec_post 2 0 (unat (Gas (fr_contract fr))) fr)"
      using f(1) by (auto simp: opRevert_def memoryRevert_def back2_def st I D elim!: safe_mono intro!: exec_postI)
  qed
qed

section \<open>Stack and flow\<close>

lemma isCode_safe:
  "safe (isCode d ct jd) (\<lambda>(b, ct', jd'). ct_keeps ct ct' \<and> Gas ct' = Gas ct)"
proof -
  obtain a where a: "codeBitmap (Code ct) = Ret a" using codeBitmap_spec by blast
  have s: "safe (codeSegment b i) (\<lambda>_. True)" for b i by (simp add: codeSegment_def)
  show ?thesis
    using s by (auto simp: isCode_def a ct_keeps_def elim!: safe_mono split: option.split)
qed

lemma jump_to_safe:
  assumes "fr_ok fr" "length st + pops = length (fr_stack fr)" "mv True (fr_evm fr) e"
  shows "safe (jump_to c pos (fr\<lparr>fr_evm := e, fr_stack := st\<rparr>)) (exec_post pops 0 (unat (Gas (fr_contract fr))) fr)"
proof -
  have v: "safe (validJumpdest (ulib c) pos (fr_contract fr) jd)
      (\<lambda>(b, ct', jd'). ct_keeps (fr_contract fr) ct' \<and> Gas ct' = Gas (fr_contract fr))" for jd
    using isCode_safe by (simp add: validJumpdest_def case_prod_beta)
  show ?thesis
    unfolding jump_to_def safe_simps(4)
    by (rule safe_mono, simp, rule v)
      (use assms in \<open>auto simp: fail_def proceed_def fr_okD Let_def intro!: exec_postI\<close>)
qed

lemma abort_Load_mv: "mv q e0 e \<Longrightarrow> mv q e0 (snd (abort_Load e))"
  by (simp add: abort_Load_def split: list.split)

lemma flow_safe:
  "exec_safe calls 1 0 ms (\<lambda>_ _. 0) opPop" "exec_safe calls 0 0 ms (\<lambda>_ _. 0) opJumpdest"
  "exec_safe calls 0 0 ms (\<lambda>_ _. 0) opUndefined"
  "exec_safe calls 1 0 ms (\<lambda>_ _. 0) (opJump c)" "exec_safe calls 2 0 ms (\<lambda>_ _. 0) (opJumpi c)"
proof -
  show "exec_safe calls 1 0 ms (\<lambda>_ _. 0) opPop" "exec_safe calls 0 0 ms (\<lambda>_ _. 0) opJumpdest"
    "exec_safe calls 0 0 ms (\<lambda>_ _. 0) opUndefined"
    by (rule exec_plainI; auto simp: length_destruct opPop_def opJumpdest_def opUndefined_def proceed_def fail_def fr_okD
        intro!: exec_postI)+
  show "exec_safe calls 1 0 ms (\<lambda>_ _. 0) (opJump c)" "exec_safe calls 2 0 ms (\<lambda>_ _. 0) (opJumpi c)"
    by (rule exec_plainI; auto simp: length_destruct opJump_def opJumpi_def proceed_def fail_def fr_okD Let_def case_prod_beta
        intro!: exec_postI jump_to_safe abort_Load_mv)+
qed

lemma sint_pc: "unat (pc :: u64) < n \<Longrightarrow> n < 2 ^ 63 \<Longrightarrow> 0 \<le> sint (pc + 1)"
proof -
  assume "unat pc < n" "n < 2 ^ 63"
  then have "unat (pc + 1) < 2 ^ 63 \<or> unat (pc + 1) = 2 ^ 63" "unat pc + 1 < 2 ^ 63"
    by (simp_all add: unat_add_u64)
  then have "unat (pc + 1) < 2 ^ 63" by (simp add: unat_add_u64)
  then show ?thesis by (simp add: sint_u64)
qed

lemma stack_safe:
  "exec_safe calls 0 1 ms (\<lambda>_ _. 0) (opPush1 c)" "exec_safe calls 0 1 ms (\<lambda>_ _. 0) (makePush c sz n)"
  "0 < n \<Longrightarrow> exec_safe calls n (n + 1) ms (\<lambda>_ _. 0) (makeDup n)"
  "exec_safe calls (n + 1) (n + 1) ms (\<lambda>_ _. 0) (makeSwap n)"
  "exec_safe calls 1 1 ms (\<lambda>_ _. 0) (opCallDataLoad c)"
proof -
  show "exec_safe calls 0 1 ms (\<lambda>_ _. 0) (makePush c sz n)"
  proof (rule exec_plainI)
    fix run and fr :: "'st frame"
    assume f: "fr_ok fr" "unat (fr_pc fr) < length (Code (fr_contract fr))"
    have "0 \<le> sint (fr_pc fr + 1)"
      using f(2) by (rule sint_pc) (use fr_okD(3) [OF f(1)] in \<open>simp add: go_slice_def\<close>)
    then show "safe (makePush c sz n run fr) (exec_post 0 1 (unat (Gas (fr_contract fr))) fr)"
      using f(1) by (auto simp: makePush_def Let_def push_value_def proceed_def fr_okD intro!: exec_postI)
  qed
  show "exec_safe calls 1 1 ms (\<lambda>_ _. 0) (opCallDataLoad c)"
  proof (rule exec_plainI)
    fix run and fr :: "'st frame"
    assume f: "fr_ok fr" "1 \<le> length (fr_stack fr)"
    have d: "safe (getData (Input (fr_contract fr)) o64 32) (\<lambda>_. True)" for o64
      by (rule getData_safe [OF fr_okD(4) [OF f(1)]]) simp
    show "safe (opCallDataLoad c run fr) (exec_post 1 1 (unat (Gas (fr_contract fr))) fr)"
      using f by (auto simp: length_destruct opCallDataLoad_def push_value_def proceed_def fr_okD case_prod_beta
          intro!: exec_postI safe_mono [OF d])
  qed
qed (rule exec_plainI; auto simp: length_destruct opPush1_def makeDup_def makeSwap_def stack_dup_def stack_swap_def
    push_value_def proceed_def fr_okD Let_def intro!: exec_postI split: nat.split)+

section \<open>Instructions that write\<close>

lemma exec_post_write:
  assumes "\<not> readOnly (fr_evm fr)" "mv False (fr_evm fr) (fr_evm fr')" "ct_keeps (fr_contract fr) (fr_contract fr')"
    "mem_ok (fr_mem fr')" "unat (Gas (fr_contract fr')) \<le> b" "err \<noteq> None \<Longrightarrow> go_slice res"
    "err = None \<Longrightarrow> length (fr_stack fr') + pops = length (fr_stack fr) + push"
  shows "exec_post pops push b fr ((res, err), fr')"
  using assms by (simp add: exec_post_def mv_def)

lemma protected_safe:
  "fr_ok fr \<Longrightarrow> unat (Gas (fr_contract fr)) \<le> b \<Longrightarrow> safe (fail ErrWriteProtection fr) (exec_post pops push b fr)"
  by (auto simp: fail_def fr_okD intro!: exec_postI)

lemma pop_topics_safe:
  "n \<le> length st \<Longrightarrow> (\<And>ts. safe (k ts (drop n st)) Q) \<Longrightarrow> safe (pop_topics U n st k) Q"
proof (induction n arbitrary: st k)
  case (Suc n)
  then show ?case by (cases st) auto
qed simp

lemma write_safe:
  assumes c: "sops c = ops" and U: "uint256_ok (ulib c)"
  shows "exec_safe calls 2 0 ms (\<lambda>_ _. 0) (opSstore c)" "exec_safe calls 2 0 ms (\<lambda>_ _. 0) (opTstore c)"
    "exec_safe calls 1 0 ms (\<lambda>_ _. 0) (opSelfdestruct c)"
    "exec_safe calls (n + 2) 0 (Some (memoryLog (ulib c))) (\<lambda>_ _. 0) (makeLog c n)"
proof -
  show "exec_safe calls 2 0 ms (\<lambda>_ _. 0) (opSstore c)" "exec_safe calls 2 0 ms (\<lambda>_ _. 0) (opTstore c)"
    by (rule exec_plainI; auto simp: length_destruct opSstore_def opTstore_def protected_safe proceed_def c fr_okD
        intro!: exec_post_write mv_upd)+
  have su: "snd (ask (i_Suicide ops a) e) = upd (\<lambda>s. snd (i_Suicide ops a s)) e" for a e
    by (simp add: ask_def upd_def case_prod_beta)
  have paid: "fst (ask (i_GetBalance ops a) e) = evm_bal (snd (ask (i_GetBalance ops a) e)) a" if "ok_evm e" for a e
    using that evm_bal_steps(1) [of "i_GetBalance ops a" e]
    by (simp add: ask_def case_prod_beta GetBalance_bal ok_evm_def)
  have sd: "mv False e (upd (\<lambda>s. snd (i_Suicide ops a s))
      (upd (i_AddBalance ops b (fst (ask (i_GetBalance ops a) e))) (snd (ask (i_GetBalance ops a) e))))"
    if "ok_evm e" for a b e
    unfolding paid [OF that] by (rule mv_pay_and_destroy) (simp add: mv_ask that)
  show "exec_safe calls 1 0 ms (\<lambda>_ _. 0) (opSelfdestruct c)"
    by (rule exec_plainI) (auto simp: length_destruct opSelfdestruct_def protected_safe [unfolded fail_def safe_simps] fail_def c fr_okD
        case_prod_beta Let_def su sd intro!: exec_post_write)
  show "exec_safe calls (n + 2) 0 (Some (memoryLog (ulib c))) (\<lambda>_ _. 0) (makeLog c n)"
  proof (rule exec_plainI)
    fix run and fr :: "'st frame"
    assume f: "fr_ok fr" "n + 2 \<le> length (fr_stack fr)" "covered (Some (memoryLog (ulib c))) fr"
    then obtain x y s where st: "fr_stack fr = x # y # s" "n \<le> length s" by (auto simp: length_destruct)
    have cv: "covers (fr_mem fr) x y"
      using f(3) by (rule covered_calc [OF U]) (simp add: memoryLog_def back2_def st)
    note g = mem_slice_covers(2) [OF fr_okD(2) [OF f(1)] cv]
    show "safe (makeLog c n run fr) (exec_post (n + 2) 0 (unat (Gas (fr_contract fr))) fr)"
      using f(1) st(2) by (auto simp: makeLog_def protected_safe st(1) uint256_simps [OF U] proceed_def c fr_okD Let_def
          intro!: pop_topics_safe safe_mono [OF g] exec_post_write mv_upd)
  qed
qed

lemma write_writer:
  "writer (opSstore c)" "writer (opTstore c)" "writer (opSelfdestruct c)" "writer (makeLog c n)"
  "writer (opCreate c)" "writer (opCreate2 c)"
  by (simp_all add: writer_def opSstore_def opTstore_def opSelfdestruct_def makeLog_def opCreate_def opCreate2_def)

lemma halting_ops:
  "halting opStop" "halting opUndefined" "halting (opReturn c)" "halting (opRevert c)" "halting (opSelfdestruct c)"
  by (auto simp: halting_def opStop_def opUndefined_def opReturn_def opRevert_def opSelfdestruct_def fail_def
      pops_Ret Let_def split: if_splits prod.splits)

section \<open>Creation and calls\<close>

lemma add_gas_unat:
  "unat (Gas ct) + unat g \<le> b \<Longrightarrow> b < 2 ^ 61 \<Longrightarrow> unat (Gas (add_gas g ct)) \<le> b"
  by (simp add: add_gas_def unat_add_u64)

lemma end_create_safe:
  assumes "fr_ok fr" "\<not> readOnly (fr_evm fr)" "mv False (fr_evm fr) e" "ct_keeps (fr_contract fr) ct"
    "unat (Gas ct) + unat returnGas \<le> b" "b < 2 ^ 61" "length st + pops = length (fr_stack fr)"
  shows "safe (end_create v returnGas res suberr (fr\<lparr>fr_stack := st, fr_contract := ct, fr_evm := e\<rparr>))
    (exec_post pops 1 b fr)"
proof -
  have "ct_keeps (fr_contract fr) (add_gas returnGas ct)" using assms(4) by (simp add: ct_keeps_def add_gas_def)
  then show ?thesis
    using assms add_gas_unat [OF assms(5,6)]
    by (auto simp: end_create_def Let_def fr_okD intro!: exec_post_write)
qed

lemma create_gas:
  assumes "unat g \<le> unat (Gas ct)"
  shows "unat (Gas (snd (UseGas g ct))) + unat g = unat (Gas ct)" "ct_keeps ct (snd (UseGas g ct))"
  using assms by (auto simp: UseGas_def word_less_nat_alt unat_sub_u64 word_le_nat_alt)

lemma big_of_nonneg: "uint256_ok (ulib c) \<Longrightarrow> 0 \<le> big_of c v"
  by (simp add: big_of_def uint256_simps)

lemma create_safe:
  assumes c: "sops c = ops" and U: "uint256_ok (ulib c)"
  shows "exec_safe True 3 1 (Some (memoryCreate (ulib c))) (\<lambda>_ _. 0) (opCreate c)"
    "exec_safe True 4 1 (Some (memoryCreate2 (ulib c))) (\<lambda>_ _. 0) (opCreate2 c)"
proof -
  have div64: "unat (g - g div 64) \<le> unat (g :: u64)" for g
    by (subst unat_sub_u64) (simp_all add: word_le_nat_alt unat_div div_le_dividend)
  have E: "safe (bind_outcome X (\<lambda>((res, addr, returnGas, suberr), e).
      end_create (sv addr suberr) returnGas res suberr (fr\<lparr>fr_stack := s, fr_contract := snd (UseGas gas (fr_contract fr)), fr_evm := e\<rparr>)))
      (exec_post pops 1 b fr)"
    if "safe X (create_post gas (fr_evm fr))" "fr_ok fr" "\<not> readOnly (fr_evm fr)" "unat gas \<le> unat (Gas (fr_contract fr))"
      "unat (Gas (fr_contract fr)) \<le> b" "b < 2 ^ 61" "length s + pops = length (fr_stack fr)" for X sv fr s gas pops b
    unfolding safe_simps(4)
    by (rule safe_mono [OF that(1)])
      (use that(2-) create_gas [OF that(4)] in \<open>auto simp: create_post_def simp del: One_nat_def intro!: end_create_safe\<close>)
  show "exec_safe True 3 1 (Some (memoryCreate (ulib c))) (\<lambda>_ _. 0) (opCreate c)"
    unfolding exec_safe_def
  proof (intro allI impI, elim conjE)
    fix n run b and fr :: "'st frame"
    assume f: "fr_ok fr" "3 \<le> length (fr_stack fr)" "covered (Some (memoryCreate (ulib c))) fr"
      "unat (Gas (fr_contract fr)) + 0 \<le> b" "b < 2 ^ 61" "True \<longrightarrow> good n run \<and> b < n"
    obtain x y z s where st: "fr_stack fr = x # y # z # s" using f(2) by (auto simp: length_destruct)
    have cv: "covers (fr_mem fr) y z"
      using f(3) by (rule covered_calc [OF U]) (simp add: memoryCreate_def back2_def st)
    note g = mem_slice_covers(2) [OF fr_okD(2) [OF f(1)] cv]
    define gas where "gas = (if r_IsEIP150 (chainRules c) then Gas (fr_contract fr) - Gas (fr_contract fr) div 64
      else Gas (fr_contract fr))"
    define sv where "sv addr suberr = (if r_IsHomestead (chainRules c) \<and> suberr = Some ErrCodeStoreOutOfGas then 0
        else if suberr \<noteq> None \<and> suberr \<noteq> Some ErrCodeStoreOutOfGas then 0
        else u_SetBytes (ulib c) (address_bytes addr))" for addr suberr
    have gas: "unat gas \<le> unat (Gas (fr_contract fr))" using div64 by (simp add: gas_def)
    have "safe (evm_Create c run clr input gas v (fr_evm fr)) (create_post gas (fr_evm fr))"
      if "go_slice input" "0 \<le> v" for clr input v
      using that f gas by (intro evm_Create_safe(1) [OF c fr_okD(1) [OF f(1)], of n]) simp_all
    note C = E [OF this f(1) _ gas]
    have eq: "opCreate c run fr =
      bind_outcome (mem_GetCopy (sint (ucast y :: u64)) (sint (ucast z :: u64)) (fr_mem fr)) (\<lambda>input.
        bind_outcome (evm_Create c run (contract_ref (snd (UseGas gas (fr_contract fr)))) input gas (big_of c x) (fr_evm fr))
          (\<lambda>((res, addr, returnGas, suberr), e). end_create (sv addr suberr) returnGas res suberr
            (fr\<lparr>fr_stack := s, fr_contract := snd (UseGas gas (fr_contract fr)), fr_evm := e\<rparr>)))"
      if "\<not> readOnly (fr_evm fr)"
      using that by (simp add: opCreate_def st uint256_simps [OF U] Let_def gas_def sv_def)
    show "safe (opCreate c run fr) (exec_post 3 1 b fr)"
    proof (cases "readOnly (fr_evm fr)")
      case True
      with f show ?thesis by (simp add: opCreate_def protected_safe)
    next
      case False
      show ?thesis unfolding eq [OF False] by (rule safe_bindI [OF g C]) (use f st False big_of_nonneg [OF U] in simp_all)
    qed
  qed
  show "exec_safe True 4 1 (Some (memoryCreate2 (ulib c))) (\<lambda>_ _. 0) (opCreate2 c)"
    unfolding exec_safe_def
  proof (intro allI impI, elim conjE)
    fix n run b and fr :: "'st frame"
    assume f: "fr_ok fr" "4 \<le> length (fr_stack fr)" "covered (Some (memoryCreate2 (ulib c))) fr"
      "unat (Gas (fr_contract fr)) + 0 \<le> b" "b < 2 ^ 61" "True \<longrightarrow> good n run \<and> b < n"
    obtain x y z w s where st: "fr_stack fr = x # y # z # w # s" using f(2) by (auto simp: length_destruct)
    have cv: "covers (fr_mem fr) y z"
      using f(3) by (rule covered_calc [OF U]) (simp add: memoryCreate2_def back2_def st)
    note g = mem_slice_covers(2) [OF fr_okD(2) [OF f(1)] cv]
    define gas where "gas = Gas (fr_contract fr) - Gas (fr_contract fr) div 64"
    define sv where "sv addr suberr = (if suberr \<noteq> None then 0 else u_SetBytes (ulib c) (address_bytes addr))"
      for addr and suberr :: "vm_error option"
    have gas: "unat gas \<le> unat (Gas (fr_contract fr))" using div64 by (simp add: gas_def)
    have "safe (evm_Create2 c run clr input gas v salt (fr_evm fr)) (create_post gas (fr_evm fr))"
      if "go_slice input" "0 \<le> v" for clr input v salt
      using that f gas by (intro evm_Create_safe(2) [OF c fr_okD(1) [OF f(1)], of n]) simp_all
    note C = E [OF this f(1) _ gas]
    have eq: "opCreate2 c run fr =
      bind_outcome (mem_GetCopy (sint (ucast y :: u64)) (sint (ucast z :: u64)) (fr_mem fr)) (\<lambda>input.
        bind_outcome (evm_Create2 c run (contract_ref (snd (UseGas gas (fr_contract fr)))) input gas (big_of c x) w (fr_evm fr))
          (\<lambda>((res, addr, returnGas, suberr), e). end_create (sv addr suberr) returnGas res suberr
            (fr\<lparr>fr_stack := s, fr_contract := snd (UseGas gas (fr_contract fr)), fr_evm := e\<rparr>)))"
      if "\<not> readOnly (fr_evm fr)"
      using that by (simp add: opCreate2_def st uint256_simps [OF U] Let_def gas_def sv_def)
    show "safe (opCreate2 c run fr) (exec_post 4 1 b fr)"
    proof (cases "readOnly (fr_evm fr)")
      case True
      with f show ?thesis by (simp add: opCreate2_def protected_safe)
    next
      case False
      show ?thesis unfolding eq [OF False] by (rule safe_bindI [OF g C]) (use f st False big_of_nonneg [OF U] in simp_all)
    qed
  qed
qed

lemma end_call_safe:
  assumes "fr_ok fr" "covers (fr_mem fr) ro rs" "mv (readOnly (fr_evm fr)) (fr_evm fr) e"
    "unat (Gas (fr_contract fr)) + unat returnGas \<le> b" "b < 2 ^ 61" "length st + pops = length (fr_stack fr)"
  shows "safe (end_call (ucast ro) (ucast rs) (ret, returnGas, err) (fr\<lparr>fr_stack := st, fr_evm := e\<rparr>))
    (exec_post pops 1 b fr)"
proof -
  have set: "safe (mem_Set (ucast ro) (ucast rs) ret (fr_mem fr)) mem_ok"
    by (rule safe_mono [OF mem_Set_covers [OF fr_okD(2) [OF assms(1)] assms(2)]])
      (rule same_size_ok [OF fr_okD(2) [OF assms(1)]])
  have post: "exec_post pops 1 b fr ((ret, None), fr\<lparr>fr_stack := x # st, fr_mem := m,
      fr_contract := add_gas returnGas (fr_contract fr), fr_evm := e\<lparr>returnData := ret\<rparr>\<rparr>)" if "mem_ok m" for x m
    using assms(3,6) that add_gas_unat [OF assms(4,5)]
    by (simp add: exec_post_def mv_def evo_evm_def quiet_evm_def ct_keeps_def add_gas_def)
  show ?thesis
  proof (cases "err = None \<or> err = Some ErrExecutionReverted")
    case True
    with set post show ?thesis by (auto simp: end_call_def Let_def elim!: safe_mono)
  next
    case False
    with post [OF fr_okD(2) [OF assms(1)]] show ?thesis by (auto simp: end_call_def Let_def)
  qed
qed

lemma call_tail_safe:
  assumes "safe X (call_post gas (fr_evm fr) q)" "fr_ok fr" "covers (fr_mem fr) ro rs" "readOnly (fr_evm fr) \<Longrightarrow> q"
    "unat (Gas (fr_contract fr)) + unat gas \<le> b" "b < 2 ^ 61" "length st + pops = length (fr_stack fr)"
  shows "safe (bind_outcome X (\<lambda>(r, e). end_call (ucast ro) (ucast rs) r (fr\<lparr>fr_stack := st, fr_evm := e\<rparr>)))
    (exec_post pops 1 b fr)"
proof (rule safe_bindI [OF assms(1)], clarify)
  fix ret g err e assume p: "call_post gas (fr_evm fr) q ((ret, g, err), e)"
  then have "mv (readOnly (fr_evm fr)) (fr_evm fr) e" "unat (Gas (fr_contract fr)) + unat g \<le> b"
    using assms(4,5) by (auto simp: call_post_def mv_def)
  then show "safe (end_call (ucast ro) (ucast rs) (ret, g, err) (fr\<lparr>fr_stack := st, fr_evm := e\<rparr>)) (exec_post pops 1 b fr)"
    by (intro end_call_safe assms)
qed

lemma call_value_safe:
  assumes c: "sops c = ops" and U: "uint256_ok (ulib c)"
  shows "exec_safe True 7 1 (Some (memoryCall (ulib c))) temp_gas_value (opCall c)"
    "exec_safe True 7 1 (Some (memoryCall (ulib c))) temp_gas_value (opCallCode c)"
proof -
  have P: "\<exists>temp addr v io is ro rs s. fr_stack fr = temp # addr # v # io # is # ro # rs # s \<and>
      covers (fr_mem fr) ro rs \<and> safe (mem_GetPtr (sint (ucast io :: u64)) (sint (ucast is :: u64)) (fr_mem fr)) go_slice \<and>
      unat (Gas (fr_contract fr)) + unat (if v \<noteq> 0 then callGasTemp (fr_evm fr) + 2300 else callGasTemp (fr_evm fr)) \<le> b"
    if f: "fr_ok fr" "7 \<le> length (fr_stack fr)" "covered (Some (memoryCall (ulib c))) fr"
      "unat (Gas (fr_contract fr)) + temp_gas_value (fr_stack fr) (fr_evm fr) \<le> b" "b < 2 ^ 61" for fr :: "'st frame" and b
  proof -
    obtain temp addr v io "is" ro rs s where st: "fr_stack fr = temp # addr # v # io # is # ro # rs # s"
      using f(2) by (auto simp: length_destruct)
    have cv: "covers (fr_mem fr) ro rs" "covers (fr_mem fr) io is"
      using covered_max [OF U f(3), of ro rs io "is"] by (simp_all add: memoryCall_def back2_def st)
    from mem_slice_covers(1) [OF fr_okD(2) [OF f(1)] cv(2)] cv(1) f(4,5) st show ?thesis
      by (auto simp: temp_gas_value_def unat_add_u64 split: if_splits)
  qed
  show "exec_safe True 7 1 (Some (memoryCall (ulib c))) temp_gas_value (opCall c)"
    unfolding exec_safe_def
  proof (intro allI impI, elim conjE)
    fix n run b and fr :: "'st frame"
    assume f: "fr_ok fr" "7 \<le> length (fr_stack fr)" "covered (Some (memoryCall (ulib c))) fr"
      "unat (Gas (fr_contract fr)) + temp_gas_value (fr_stack fr) (fr_evm fr) \<le> b" "b < 2 ^ 61" "True \<longrightarrow> good n run \<and> b < n"
    from P [OF f(1-5)] obtain temp addr v io "is" ro rs s where
      st: "fr_stack fr = temp # addr # v # io # is # ro # rs # s" and cv: "covers (fr_mem fr) ro rs"
      and g: "safe (mem_GetPtr (sint (ucast io :: u64)) (sint (ucast is :: u64)) (fr_mem fr)) go_slice"
      and gas: "unat (Gas (fr_contract fr)) + unat (if v \<noteq> 0 then callGasTemp (fr_evm fr) + 2300 else callGasTemp (fr_evm fr)) \<le> b"
      by blast
    define gas where "gas = (if v \<noteq> 0 then callGasTemp (fr_evm fr) + 2300 else callGasTemp (fr_evm fr))"
    note gas = gas [folded gas_def]
    have C: "safe (evm_Call c run clr toAddr args gas (big_of c v) (fr_evm fr)) (call_post gas (fr_evm fr) (readOnly (fr_evm fr) \<and> big_of c v = 0))"
      if "go_slice args" for clr toAddr args
      using that f(5,6) gas big_of_nonneg [OF U] by (intro evm_Call_safe [OF c fr_okD(1) [OF f(1)], of n]) simp_all
    have big: "v = 0 \<Longrightarrow> big_of c v = 0" by (simp add: big_of_def uint256_simps [OF U])
    show "safe (opCall c run fr) (exec_post 7 1 b fr)"
    proof (cases "readOnly (fr_evm fr) \<and> v \<noteq> 0")
      case True
      have "exec_post 7 (Suc 0) b fr (([], Some ErrWriteProtection), fr\<lparr>fr_stack := s\<rparr>)"
        using f(1) gas by (intro exec_postI) (simp_all add: fr_okD)
      with True g show ?thesis
        by (auto simp: opCall_def st uint256_simps [OF U] fail_def Let_def elim!: safe_mono)
    next
      case False
      then have eq: "opCall c run fr =
        bind_outcome (mem_GetPtr (sint (ucast io :: u64)) (sint (ucast is :: u64)) (fr_mem fr)) (\<lambda>args.
          bind_outcome (evm_Call c run (contract_ref (fr_contract fr)) (u256_address (ulib c) addr) args gas (big_of c v) (fr_evm fr))
            (\<lambda>(r, e). end_call (ucast ro) (ucast rs) r (fr\<lparr>fr_stack := s, fr_evm := e\<rparr>)))"
        by (cases "v = 0") (simp_all add: opCall_def st uint256_simps [OF U] Let_def gas_def)
      show ?thesis unfolding eq
        by (rule safe_bindI [OF g call_tail_safe [OF C f(1) cv]]) (use False big gas f(5) st in auto)
    qed
  qed
  show "exec_safe True 7 1 (Some (memoryCall (ulib c))) temp_gas_value (opCallCode c)"
    unfolding exec_safe_def
  proof (intro allI impI, elim conjE)
    fix n run b and fr :: "'st frame"
    assume f: "fr_ok fr" "7 \<le> length (fr_stack fr)" "covered (Some (memoryCall (ulib c))) fr"
      "unat (Gas (fr_contract fr)) + temp_gas_value (fr_stack fr) (fr_evm fr) \<le> b" "b < 2 ^ 61" "True \<longrightarrow> good n run \<and> b < n"
    from P [OF f(1-5)] obtain temp addr v io "is" ro rs s where
      st: "fr_stack fr = temp # addr # v # io # is # ro # rs # s" and cv: "covers (fr_mem fr) ro rs"
      and g: "safe (mem_GetPtr (sint (ucast io :: u64)) (sint (ucast is :: u64)) (fr_mem fr)) go_slice"
      and gas: "unat (Gas (fr_contract fr)) + unat (if v \<noteq> 0 then callGasTemp (fr_evm fr) + 2300 else callGasTemp (fr_evm fr)) \<le> b"
      by blast
    define gas where "gas = (if v \<noteq> 0 then callGasTemp (fr_evm fr) + 2300 else callGasTemp (fr_evm fr))"
    note gas = gas [folded gas_def]
    have C: "safe (evm_CallCode c run clr toAddr args gas w (fr_evm fr)) (call_post gas (fr_evm fr) (readOnly (fr_evm fr)))"
      if "go_slice args" for clr toAddr args w
      using that f(5,6) gas by (intro evm_CallCode_safe [OF c fr_okD(1) [OF f(1)], of n]) simp_all
    have eq: "opCallCode c run fr =
      bind_outcome (mem_GetPtr (sint (ucast io :: u64)) (sint (ucast is :: u64)) (fr_mem fr)) (\<lambda>args.
        bind_outcome (evm_CallCode c run (contract_ref (fr_contract fr)) (u256_address (ulib c) addr) args gas (big_of c v) (fr_evm fr))
          (\<lambda>(r, e). end_call (ucast ro) (ucast rs) r (fr\<lparr>fr_stack := s, fr_evm := e\<rparr>)))"
      by (cases "v = 0") (simp_all add: opCallCode_def st uint256_simps [OF U] Let_def gas_def)
    show "safe (opCallCode c run fr) (exec_post 7 1 b fr)" unfolding eq
      by (rule safe_bindI [OF g call_tail_safe [OF C f(1) cv]]) (use gas f(5) st in auto)
  qed
qed

lemma call_plain_safe:
  assumes c: "sops c = ops" and U: "uint256_ok (ulib c)"
  shows "exec_safe True 6 1 (Some (memoryDelegateCall (ulib c))) temp_gas (opDelegateCall c)"
    "exec_safe True 6 1 (Some (memoryStaticCall (ulib c))) temp_gas (opStaticCall c)"
proof -
  have P: "\<exists>temp addr io is ro rs s. fr_stack fr = temp # addr # io # is # ro # rs # s \<and>
      covers (fr_mem fr) ro rs \<and> safe (mem_GetPtr (sint (ucast io :: u64)) (sint (ucast is :: u64)) (fr_mem fr)) go_slice"
    if f: "fr_ok fr" "6 \<le> length (fr_stack fr)" "covered (Some ms) fr"
      "ms = memoryDelegateCall (ulib c) \<or> ms = memoryStaticCall (ulib c)" for fr :: "'st frame" and ms
  proof -
    obtain temp addr io "is" ro rs s where st: "fr_stack fr = temp # addr # io # is # ro # rs # s"
      using f(2) by (auto simp: length_destruct)
    have cv: "covers (fr_mem fr) ro rs" "covers (fr_mem fr) io is"
      using covered_max [OF U f(3), of ro rs io "is"] f(4)
      by (auto simp: memoryDelegateCall_def memoryStaticCall_def back2_def st)
    from mem_slice_covers(1) [OF fr_okD(2) [OF f(1)] cv(2)] cv(1) st show ?thesis by blast
  qed
  show "exec_safe True 6 1 (Some (memoryDelegateCall (ulib c))) temp_gas (opDelegateCall c)"
    unfolding exec_safe_def
  proof (intro allI impI, elim conjE)
    fix n run b and fr :: "'st frame"
    assume f: "fr_ok fr" "6 \<le> length (fr_stack fr)" "covered (Some (memoryDelegateCall (ulib c))) fr"
      "unat (Gas (fr_contract fr)) + temp_gas (fr_stack fr) (fr_evm fr) \<le> b" "b < 2 ^ 61" "True \<longrightarrow> good n run \<and> b < n"
    from P [OF f(1-3)] obtain temp addr io "is" ro rs s where
      st: "fr_stack fr = temp # addr # io # is # ro # rs # s" and cv: "covers (fr_mem fr) ro rs"
      and g: "safe (mem_GetPtr (sint (ucast io :: u64)) (sint (ucast is :: u64)) (fr_mem fr)) go_slice"
      by blast
    obtain w where "ct_value (fr_contract fr) = Some w" using fr_okD(5) [OF f(1)] by blast
    then have C: "safe (evm_DelegateCall c run (contract_ref (fr_contract fr)) toAddr args (callGasTemp (fr_evm fr)) (fr_evm fr))
        (call_post (callGasTemp (fr_evm fr)) (fr_evm fr) (readOnly (fr_evm fr)))"
      if "go_slice args" for toAddr args
      using that f(4-6)
      by (intro evm_DelegateCall_safe [OF c fr_okD(1) [OF f(1)], of n]) (simp_all add: temp_gas_def contract_ref_def)
    show "safe (opDelegateCall c run fr) (exec_post 6 1 b fr)"
      unfolding opDelegateCall_def st pops_simps Let_def uint256_simps [OF U]
      by (rule safe_bindI [OF g call_tail_safe [OF C f(1) cv]]) (use f(4,5) st in \<open>auto simp: temp_gas_def\<close>)
  qed
  show "exec_safe True 6 1 (Some (memoryStaticCall (ulib c))) temp_gas (opStaticCall c)"
    unfolding exec_safe_def
  proof (intro allI impI, elim conjE)
    fix n run b and fr :: "'st frame"
    assume f: "fr_ok fr" "6 \<le> length (fr_stack fr)" "covered (Some (memoryStaticCall (ulib c))) fr"
      "unat (Gas (fr_contract fr)) + temp_gas (fr_stack fr) (fr_evm fr) \<le> b" "b < 2 ^ 61" "True \<longrightarrow> good n run \<and> b < n"
    from P [OF f(1-3)] obtain temp addr io "is" ro rs s where
      st: "fr_stack fr = temp # addr # io # is # ro # rs # s" and cv: "covers (fr_mem fr) ro rs"
      and g: "safe (mem_GetPtr (sint (ucast io :: u64)) (sint (ucast is :: u64)) (fr_mem fr)) go_slice"
      by blast
    have C: "safe (evm_StaticCall c run clr toAddr args (callGasTemp (fr_evm fr)) (fr_evm fr))
        (call_post (callGasTemp (fr_evm fr)) (fr_evm fr) True)"
      if "go_slice args" for clr toAddr args
      using that f(4-6) by (intro evm_StaticCall_safe [OF c fr_okD(1) [OF f(1)], of n]) (simp_all add: temp_gas_def)
    show "safe (opStaticCall c run fr) (exec_post 6 1 b fr)"
      unfolding opStaticCall_def st pops_simps Let_def uint256_simps [OF U]
      by (rule safe_bindI [OF g call_tail_safe [OF C f(1) cv]]) (use f(4,5) st in \<open>auto simp: temp_gas_def\<close>)
  qed
qed

end

end
