(* ===== verification/VM_Table_Safety.thy ===== *)
theory VM_Table_Safety
  imports VM_Exec_Safety
begin

text \<open>
  Every entry of every jump table keeps its contract: the instructions and prices of the previous
  theories are put together as the tables of \<^verbatim>\<open>jump_table.go\<close> and \<^verbatim>\<open>eips.go\<close> do.
\<close>

section \<open>Entries as records\<close>

lemma entry_updates [simp]:
  "(static f k p q)\<lparr>constantGas := k'\<rparr> = static f k' p q"
  "(static f k p q)\<lparr>dynamicGas := Some g\<rparr> = dynamic f k p q g None"
  "(dynamic f k p q g ms)\<lparr>constantGas := k'\<rparr> = dynamic f k' p q g ms"
  "(dynamic f k p q g ms)\<lparr>dynamicGas := Some g'\<rparr> = dynamic f k p q g' ms"
  by (simp_all add: static_def dynamic_def)

lemma sizes_ok_None [simp]: "sizes_ok k None"
  by (simp add: sizes_ok_def)

lemma sizes_ok_Some [simp]:
  "sizes_ok 2 (Some (memoryKeccak256 U))" "sizes_ok 3 (Some (memoryCallDataCopy U))"
  "sizes_ok 3 (Some (memoryReturnDataCopy U))" "sizes_ok 3 (Some (memoryCodeCopy U))"
  "sizes_ok 4 (Some (memoryExtCodeCopy U))" "sizes_ok 1 (Some (memoryMLoad U))"
  "sizes_ok 2 (Some (memoryMStore U))" "sizes_ok 2 (Some (memoryMStore8 U))"
  "sizes_ok 3 (Some (memoryCreate U))" "sizes_ok 4 (Some (memoryCreate2 U))"
  "sizes_ok 7 (Some (memoryCall U))" "sizes_ok 6 (Some (memoryDelegateCall U))"
  "sizes_ok 6 (Some (memoryStaticCall U))" "sizes_ok 2 (Some (memoryReturn U))"
  "sizes_ok 2 (Some (memoryRevert U))" "sizes_ok (n + 2) (Some (memoryLog U))"
  by (auto simp: sizes_ok_def length_destruct back2_def memoryKeccak256_def memoryCallDataCopy_def
      memoryReturnDataCopy_def memoryCodeCopy_def memoryExtCodeCopy_def memoryMLoad_def memoryMStore_def
      memoryMStore8_def memoryCreate_def memoryCreate2_def memoryCall_def memoryDelegateCall_def
      memoryStaticCall_def memoryReturn_def memoryRevert_def memoryLog_def)

context vm_state begin

lemma static_safe:
  assumes "exec_safe False pops push None (\<lambda>_ _. 0) f" "k \<noteq> 0 \<or> halting f" "push \<le> 1024 + pops"
  shows "op_safe (static f k pops push)"
  by (rule op_safeI [where calls = False and d = 0 and q = True and lo = "\<lambda>_ _. 0"])
    (use assms in \<open>auto simp: static_def minStack_def maxStack_def\<close>)

lemma dynamic_safe:
  assumes "exec_safe calls pops push ms lo f" "gas_safe q pops (ms \<noteq> None) (\<lambda>st e. lo st e + d) g"
    "sizes_ok pops ms" "q \<or> writer f" "k \<noteq> 0 \<or> halting f \<or> 0 < d" "calls \<longrightarrow> k \<noteq> 0" "push \<le> 1024 + pops"
  shows "op_safe (dynamic f k pops push g ms)"
  by (rule op_safeI [where calls = calls and d = d and q = q and lo = lo])
    (use assms in \<open>auto simp: dynamic_def minStack_def maxStack_def\<close>)

lemma undefined_safe: "op_safe undefined_operation"
proof -
  have "(undefined_operation :: 'st operation) = static opUndefined 0 0 0"
    by (simp add: undefined_operation_def static_def minStack_def)
  moreover have "op_safe (static opUndefined 0 0 0)"
    by (rule static_safe [OF flow_safe(3)]) (simp_all add: halting_ops)
  ultimately show ?thesis by simp
qed

text \<open>The three kinds of dynamic entries: paid memory, a price above zero, and calls.\<close>

lemma memory_entry:
  assumes "exec_safe False pops push ms (\<lambda>_ _. 0) f" "\<And>q. gas_safe q j True (\<lambda>_ _. 0) g" "j \<le> pops"
    "sizes_ok pops ms" "k \<noteq> 0 \<or> halting f" "push \<le> 1024 + pops"
  shows "op_safe (dynamic f k pops push g ms)"
proof (rule dynamic_safe [OF assms(1), where q = True and d = 0])
  show "gas_safe True pops (ms \<noteq> None) (\<lambda>st e. 0 + 0) g"
    using gas_safe_mono [OF assms(2,3), of "ms \<noteq> None" True] by simp
qed (use assms in simp_all)

lemma priced_entry:
  assumes "exec_safe False pops push ms (\<lambda>_ _. 0) f" "gas_safe q j mm (\<lambda>_ _. d) g" "j \<le> pops" "mm \<or> ms = None"
    "sizes_ok pops ms" "q \<or> writer f" "k \<noteq> 0 \<or> halting f \<or> 0 < d" "push \<le> 1024 + pops"
  shows "op_safe (dynamic f k pops push g ms)"
proof (rule dynamic_safe [OF assms(1), where q = q and d = d])
  show "gas_safe q pops (ms \<noteq> None) (\<lambda>st e. 0 + d) g"
    using gas_safe_mono [OF assms(2,3), of "ms \<noteq> None"] assms(4) by auto
qed (use assms in simp_all)

lemma calling_entry:
  assumes "exec_safe True pops 1 (Some ms) lo f" "\<And>q. gas_safe q j True lo g" "j \<le> pops"
    "sizes_ok pops (Some ms)" "k \<noteq> 0"
  shows "op_safe (dynamic f k pops 1 g (Some ms))"
proof (rule dynamic_safe [OF assms(1), where q = True and d = 0])
  show "gas_safe True pops (Some ms \<noteq> None) (\<lambda>st e. lo st e + 0) g"
    using gas_safe_mono [OF assms(2,3), of True True] by simp
qed (use assms in simp_all)

section \<open>The entries\<close>

lemma arith_safe:
  "exec_safe calls 2 1 ms (\<lambda>_ _. 0) (opAdd c)" "exec_safe calls 2 1 ms (\<lambda>_ _. 0) (opSub c)"
  "exec_safe calls 2 1 ms (\<lambda>_ _. 0) (opMul c)" "exec_safe calls 2 1 ms (\<lambda>_ _. 0) (opDiv c)"
  "exec_safe calls 2 1 ms (\<lambda>_ _. 0) (opSdiv c)" "exec_safe calls 2 1 ms (\<lambda>_ _. 0) (opMod c)"
  "exec_safe calls 2 1 ms (\<lambda>_ _. 0) (opSmod c)" "exec_safe calls 2 1 ms (\<lambda>_ _. 0) (opExp c)"
  "exec_safe calls 2 1 ms (\<lambda>_ _. 0) (opSignExtend c)" "exec_safe calls 1 1 ms (\<lambda>_ _. 0) (opNot c)"
  "exec_safe calls 2 1 ms (\<lambda>_ _. 0) (opLt c)" "exec_safe calls 2 1 ms (\<lambda>_ _. 0) (opGt c)"
  "exec_safe calls 2 1 ms (\<lambda>_ _. 0) (opSlt c)" "exec_safe calls 2 1 ms (\<lambda>_ _. 0) (opSgt c)"
  "exec_safe calls 2 1 ms (\<lambda>_ _. 0) (opEq c)" "exec_safe calls 1 1 ms (\<lambda>_ _. 0) (opIszero c)"
  "exec_safe calls 2 1 ms (\<lambda>_ _. 0) (opAnd c)" "exec_safe calls 2 1 ms (\<lambda>_ _. 0) (opOr c)"
  "exec_safe calls 2 1 ms (\<lambda>_ _. 0) (opXor c)" "exec_safe calls 2 1 ms (\<lambda>_ _. 0) (opByte c)"
  "exec_safe calls 3 1 ms (\<lambda>_ _. 0) (opAddmod c)" "exec_safe calls 3 1 ms (\<lambda>_ _. 0) (opMulmod c)"
  "exec_safe calls 2 1 ms (\<lambda>_ _. 0) (opSHL c)" "exec_safe calls 2 1 ms (\<lambda>_ _. 0) (opSHR c)"
  "exec_safe calls 2 1 ms (\<lambda>_ _. 0) (opSAR c)" "exec_safe calls 1 1 ms (\<lambda>_ _. 0) (opBlockhash c)"
  unfolding arith_defs by (rule unop_safe binop_safe ternop_safe)+

lemmas plain_safe = arith_safe env_safe nil_safe query_safe flow_safe stack_safe

lemma dynamic_entries:
  assumes c: "sops c = ops" and U: "uint256_ok (ulib c)"
  shows "op_safe (dynamic (opExp c) k 2 1 (gasExpFrontier (ulib c)) None)"
    "op_safe (dynamic (opExp c) k 2 1 (gasExpEIP158 (ulib c)) None)"
    "op_safe (dynamic (opSstore c) k 2 0 (gasSStore c) None)"
    "op_safe (dynamic (opSstore c) k 2 0 (gasSStoreEIP2200 c) None)"
    "op_safe (dynamic (opSstore c) k 2 0 (makeGasSStoreFunc r c) None)"
    "op_safe (dynamic (opSload c) k 1 1 (gasSLoadEIP2929 c) None)"
    "op_safe (dynamic (opSelfdestruct c) k 1 0 (gasSelfdestruct c) None)"
    "op_safe (dynamic (opSelfdestruct c) k 1 0 (makeSelfdestructGasFn b c) None)"
    "op_safe (dynamic (makeLog c n) k (n + 2) 0 (makeGasLog (ulib c) w) (Some (memoryLog (ulib c))))"
    "op_safe (dynamic (opReturn c) k 2 0 pureMemoryGascost (Some (memoryReturn (ulib c))))"
    "op_safe (dynamic (opRevert c) k 2 0 pureMemoryGascost (Some (memoryRevert (ulib c))))"
  by (rule priced_entry [OF arith_safe(8) gas_exp_safe(1), of _ True]
      priced_entry [OF arith_safe(8) gas_exp_safe(2), of _ True]
      priced_entry [OF write_safe(1) [OF c U] gas_sstore_safe(1) [OF c]]
      priced_entry [OF write_safe(1) [OF c U] gas_sstore_safe(2) [OF c]]
      priced_entry [OF write_safe(1) [OF c U] gas_sstore_safe(3) [OF c]]
      priced_entry [OF query_safe(5) [OF c] gas_access_safe(1) [OF c], of _ True]
      priced_entry [OF write_safe(3) [OF c U] gas_selfdestruct_safe(1) [OF c]]
      priced_entry [OF write_safe(3) [OF c U] gas_selfdestruct_safe(2) [OF c]]
      priced_entry [OF write_safe(4) [OF c U] gas_log_safe, of _ True]
      memory_entry [OF memory_safe(5) [OF c U] gas_memory_safe(1)]
      memory_entry [OF memory_safe(6) [OF c U] gas_memory_safe(1)];
      simp add: write_writer halting_ops del: add_2_eq_Suc')+

lemma charged_entries:
  assumes c: "sops c = ops" and U: "uint256_ok (ulib c)" and k: "k \<noteq> 0"
  shows "op_safe (dynamic (opKeccak256 c) k 2 1 (gasKeccak256 (ulib c)) (Some (memoryKeccak256 (ulib c))))"
    "op_safe (dynamic (opCallDataCopy c) k 3 0 (gasCallDataCopy (ulib c)) (Some (memoryCallDataCopy (ulib c))))"
    "op_safe (dynamic (opCodeCopy c) k 3 0 (gasCodeCopy (ulib c)) (Some (memoryCodeCopy (ulib c))))"
    "op_safe (dynamic (opReturnDataCopy c) k 3 0 (gasReturnDataCopy (ulib c)) (Some (memoryReturnDataCopy (ulib c))))"
    "op_safe (dynamic (opExtCodeCopy c) k 4 0 (gasExtCodeCopy (ulib c)) (Some (memoryExtCodeCopy (ulib c))))"
    "op_safe (dynamic (opExtCodeCopy c) k 4 0 (gasExtCodeCopyEIP2929 c) (Some (memoryExtCodeCopy (ulib c))))"
    "op_safe (dynamic (opMload c) k 1 1 pureMemoryGascost (Some (memoryMLoad (ulib c))))"
    "op_safe (dynamic (opMstore c) k 2 0 pureMemoryGascost (Some (memoryMStore (ulib c))))"
    "op_safe (dynamic (opMstore8 c) k 2 0 pureMemoryGascost (Some (memoryMStore8 (ulib c))))"
    "op_safe (dynamic (opExtCodeSize c) k 1 1 (gasEip2929AccountCheck c) None)"
    "op_safe (dynamic (opExtCodeHash c) k 1 1 (gasEip2929AccountCheck c) None)"
    "op_safe (dynamic (opBalance c) k 1 1 (gasEip2929AccountCheck c) None)"
  by (rule memory_entry [OF memory_safe(1) [OF c U] gas_memory_safe(6)]
      memory_entry [OF copy_safe(1) [OF c U] gas_memory_safe(2)]
      memory_entry [OF copy_safe(2) [OF c U] gas_memory_safe(3)]
      memory_entry [OF copy_safe(3) [OF c U] gas_memory_safe(4)]
      memory_entry [OF copy_safe(4) [OF c U] gas_memory_safe(5)]
      memory_entry [OF copy_safe(4) [OF c U] gas_access_safe(3) [OF c]]
      memory_entry [OF memory_safe(2) [OF c U] gas_memory_safe(1)]
      memory_entry [OF memory_safe(3) [OF c U] gas_memory_safe(1)]
      memory_entry [OF memory_safe(4) [OF c U] gas_memory_safe(1)]
      priced_entry [OF query_safe(2) [OF c] gas_access_safe(2) [OF c], of _ True]
      priced_entry [OF query_safe(3) [OF c] gas_access_safe(2) [OF c], of _ True]
      priced_entry [OF query_safe(1) [OF c] gas_access_safe(2) [OF c], of _ True];
      simp add: k del: One_nat_def)+

lemma calling_entries:
  assumes c: "sops c = ops" and U: "uint256_ok (ulib c)" and k: "k \<noteq> 0"
  shows "op_safe (dynamic (opCreate c) k 3 1 pureMemoryGascost (Some (memoryCreate (ulib c))))"
    "op_safe (dynamic (opCreate c) k 3 1 (gasCreateEip3860 (ulib c)) (Some (memoryCreate (ulib c))))"
    "op_safe (dynamic (opCreate2 c) k 4 1 (gasCreate2 (ulib c)) (Some (memoryCreate2 (ulib c))))"
    "op_safe (dynamic (opCreate2 c) k 4 1 (gasCreate2Eip3860 (ulib c)) (Some (memoryCreate2 (ulib c))))"
    "op_safe (dynamic (opCall c) k 7 1 (gasCall c) (Some (memoryCall (ulib c))))"
    "op_safe (dynamic (opCallCode c) k 7 1 (gasCallCode c) (Some (memoryCall (ulib c))))"
    "op_safe (dynamic (opDelegateCall c) k 6 1 (gasDelegateCall c) (Some (memoryDelegateCall (ulib c))))"
    "op_safe (dynamic (opStaticCall c) k 6 1 (gasStaticCall c) (Some (memoryStaticCall (ulib c))))"
    "r_IsEIP150 (chainRules c) \<Longrightarrow> op_safe (dynamic (opCall c) k 7 1 (gasCallEIP2929 c) (Some (memoryCall (ulib c))))"
    "r_IsEIP150 (chainRules c) \<Longrightarrow> op_safe (dynamic (opCallCode c) k 7 1 (gasCallCodeEIP2929 c) (Some (memoryCall (ulib c))))"
    "r_IsEIP150 (chainRules c) \<Longrightarrow>
      op_safe (dynamic (opDelegateCall c) k 6 1 (gasDelegateCallEIP2929 c) (Some (memoryDelegateCall (ulib c))))"
    "r_IsEIP150 (chainRules c) \<Longrightarrow>
      op_safe (dynamic (opStaticCall c) k 6 1 (gasStaticCallEIP2929 c) (Some (memoryStaticCall (ulib c))))"
  by (rule calling_entry [OF create_safe(1) [OF c U] gas_memory_safe(1)]
      calling_entry [OF create_safe(1) [OF c U] gas_memory_safe(8)]
      calling_entry [OF create_safe(2) [OF c U] gas_memory_safe(7)]
      calling_entry [OF create_safe(2) [OF c U] gas_memory_safe(9)]
      calling_entry [OF call_value_safe(1) [OF c U] gas_calls_safe(1) [OF c U]]
      calling_entry [OF call_value_safe(2) [OF c U] gas_calls_safe(2) [OF c U]]
      calling_entry [OF call_plain_safe(1) [OF c U] gas_calls_safe(3) [OF c U]]
      calling_entry [OF call_plain_safe(2) [OF c U] gas_calls_safe(4) [OF c U]]
      calling_entry [OF call_value_safe(1) [OF c U] gas_calls_2929_safe(1) [OF c U]]
      calling_entry [OF call_value_safe(2) [OF c U] gas_calls_2929_safe(2) [OF c U]]
      calling_entry [OF call_plain_safe(1) [OF c U] gas_calls_2929_safe(3) [OF c U]]
      calling_entry [OF call_plain_safe(2) [OF c U] gas_calls_2929_safe(4) [OF c U]]; (simp add: k del: One_nat_def; fail)?)+

section \<open>The tables\<close>

lemma frontier_lists_safe:
  assumes c: "sops c = ops" and U: "uint256_ok (ulib c)"
  shows "list_all (\<lambda>(b, op). b \<noteq> 0 \<longrightarrow> op_safe op) (frontier_arith c)"
    "list_all (\<lambda>(b, op). op_safe op) (frontier_env c)" "list_all (\<lambda>(b, op). op_safe op) (frontier_flow c)"
    "list_all (\<lambda>(b, op). op_safe op) (frontier_system c)" "list_all (\<lambda>(b, op). op_safe op) (frontier_push c)"
    "list_all (\<lambda>(b, op). op_safe op) frontier_dup" "list_all (\<lambda>(b, op). op_safe op) frontier_swap"
proof -
  note E = static_safe plain_safe query_safe [OF c] dynamic_entries [OF c U] charged_entries [OF c U] calling_entries [OF c U]
  show "list_all (\<lambda>(b, op). b \<noteq> 0 \<longrightarrow> op_safe op) (frontier_arith c)"
    by (simp add: frontier_arith_def E del: One_nat_def)
  show "list_all (\<lambda>(b, op). op_safe op) (frontier_env c)"
    by (simp add: frontier_env_def E del: One_nat_def)
  show "list_all (\<lambda>(b, op). op_safe op) (frontier_flow c)"
    by (simp add: frontier_flow_def E del: One_nat_def)
  have log: "op_safe (dynamic (makeLog c n) 0 m 0 (makeGasLog (ulib c) w) (Some (memoryLog (ulib c))))" if "m = n + 2" for n m w
    using dynamic_entries(9) [OF c U, of n 0 w] that by simp
  show "list_all (\<lambda>(b, op). op_safe op) (frontier_system c)"
    by (simp add: frontier_system_def E log del: One_nat_def)
  show "list_all (\<lambda>(b, op). op_safe op) (frontier_push c)"
    by (auto simp: frontier_push_def list_all_iff E simp del: One_nat_def)
  have dup: "\<lparr>execute = makeDup n, constantGas = GasFastestStep, dynamicGas = None,
      op_minStack = minDupStack n, op_maxStack = maxDupStack n, memorySize = None\<rparr> = static (makeDup n) GasFastestStep n (n + 1)" for n
    by (simp add: static_def minDupStack_def maxDupStack_def)
  show "list_all (\<lambda>(b, op). op_safe op) frontier_dup"
    unfolding frontier_dup_def dup by (auto simp: list_all_iff intro!: static_safe stack_safe(3) simp del: One_nat_def Suc_eq_plus1_left add_Suc_right)
  have swap: "\<lparr>execute = makeSwap n, constantGas = GasFastestStep, dynamicGas = None,
      op_minStack = minSwapStack (n + 1), op_maxStack = maxSwapStack (n + 1), memorySize = None\<rparr> =
      static (makeSwap n) GasFastestStep (n + 1) (n + 1)" for n
    by (simp add: static_def minSwapStack_def maxSwapStack_def)
  show "list_all (\<lambda>(b, op). op_safe op) frontier_swap"
    unfolding frontier_swap_def swap by (auto simp: list_all_iff intro!: static_safe stack_safe(4) simp del: One_nat_def Suc_eq_plus1_left add_Suc_right)
qed

lemma table_safe_upd: "table_safe jt \<Longrightarrow> op_safe op \<Longrightarrow> b \<noteq> 0 \<Longrightarrow> table_safe (jt(b := op))"
  by (simp add: table_safe_def)

lemma frontier_safe:
  assumes c: "sops c = ops" and U: "uint256_ok (ulib c)"
  shows "table_safe (newFrontierInstructionSet c)"
proof -
  note L = frontier_lists_safe [OF c U]
  have "op_safe op" if "map_of (frontier_table c) b = Some op" "b \<noteq> 0" for b op
    using map_of_SomeD [OF that(1)] that(2) L by (auto simp: frontier_table_def list_all_iff)
  moreover have "map_of (frontier_table c) 0 = Some (static opStop 0 0 0)"
    by (simp add: frontier_table_def frontier_arith_def)
  ultimately show ?thesis
    by (auto simp: table_safe_def newFrontierInstructionSet_def undefined_safe split: option.split)
qed

end

text \<open>The entries later forks change, as the first table has them.\<close>

lemma frontier_entries:
  "newFrontierInstructionSet c 0x31 = static (opBalance c) BalanceGasFrontier 1 1"
  "newFrontierInstructionSet c 0x3b = static (opExtCodeSize c) ExtcodeSizeGasFrontier 1 1"
  "newFrontierInstructionSet c 0x3c = dynamic (opExtCodeCopy c) ExtcodeCopyBaseFrontier 4 0 (gasExtCodeCopy (ulib c)) (Some (memoryExtCodeCopy (ulib c)))"
  "newFrontierInstructionSet c 0x54 = static (opSload c) SloadGasFrontier 1 1"
  "newFrontierInstructionSet c 0x55 = dynamic (opSstore c) 0 2 0 (gasSStore c) None"
  "newFrontierInstructionSet c 0x0a = dynamic (opExp c) 0 2 1 (gasExpFrontier (ulib c)) None"
  "newFrontierInstructionSet c 0xf0 = dynamic (opCreate c) CreateGas 3 1 pureMemoryGascost (Some (memoryCreate (ulib c)))"
  "newFrontierInstructionSet c 0xf1 = dynamic (opCall c) CallGasFrontier 7 1 (gasCall c) (Some (memoryCall (ulib c)))"
  "newFrontierInstructionSet c 0xf2 = dynamic (opCallCode c) CallGasFrontier 7 1 (gasCallCode c) (Some (memoryCall (ulib c)))"
  "newFrontierInstructionSet c 0xff = dynamic (opSelfdestruct c) 0 1 0 (gasSelfdestruct c) None"
proof -
  have up: "[2..<33] = [2,3,4,5,6,7,8,9,10,11,12,13,14,15,16,17,18,19,20,21,22,23,24,25,26,27,28,29,30,31,32]"
    "[Suc 0..<17] = [1,2,3,4,5,6,7,8,9,10,11,12,13,14,15,16]" by (simp_all add: upt_rec)
  note T = newFrontierInstructionSet_def frontier_table_def frontier_arith_def frontier_env_def frontier_flow_def
  show "newFrontierInstructionSet c 0x31 = static (opBalance c) BalanceGasFrontier 1 1" by (simp add: T)
  show "newFrontierInstructionSet c 0x3b = static (opExtCodeSize c) ExtcodeSizeGasFrontier 1 1" by (simp add: T)
  show "newFrontierInstructionSet c 0x3c = dynamic (opExtCodeCopy c) ExtcodeCopyBaseFrontier 4 0 (gasExtCodeCopy (ulib c)) (Some (memoryExtCodeCopy (ulib c)))"
    by (simp add: T)
  show "newFrontierInstructionSet c 0x54 = static (opSload c) SloadGasFrontier 1 1" by (simp add: T)
  show "newFrontierInstructionSet c 0x55 = dynamic (opSstore c) 0 2 0 (gasSStore c) None" by (simp add: T)
  show "newFrontierInstructionSet c 0x0a = dynamic (opExp c) 0 2 1 (gasExpFrontier (ulib c)) None" by (simp add: T)
  note T2 = T frontier_push_def frontier_dup_def frontier_swap_def frontier_system_def up map_add_def
  show "newFrontierInstructionSet c 0xf0 = dynamic (opCreate c) CreateGas 3 1 pureMemoryGascost (Some (memoryCreate (ulib c)))"
    by (simp add: T2)
  show "newFrontierInstructionSet c 0xf1 = dynamic (opCall c) CallGasFrontier 7 1 (gasCall c) (Some (memoryCall (ulib c)))"
    by (simp add: T2)
  show "newFrontierInstructionSet c 0xf2 = dynamic (opCallCode c) CallGasFrontier 7 1 (gasCallCode c) (Some (memoryCall (ulib c)))"
    by (simp add: T2)
  show "newFrontierInstructionSet c 0xff = dynamic (opSelfdestruct c) 0 1 0 (gasSelfdestruct c) None" by (simp add: T2)
qed

lemmas table_defs = newHomesteadInstructionSet_def newTangerineWhistleInstructionSet_def
  newSpuriousDragonInstructionSet_def newByzantiumInstructionSet_def newConstantinopleInstructionSet_def
  newIstanbulInstructionSet_def newBerlinInstructionSet_def newLondonInstructionSet_def
  newMergeInstructionSet_def newShanghaiInstructionSet_def enable1884_def enable1344_def enable2200_def
  enable2929_def enable3529_def enable3198_def enable3855_def enable3860_def
  set_gas_def set_dynamic_def reprice_def

context vm_state begin

lemma early_tables_safe:
  assumes c: "sops c = ops" and U: "uint256_ok (ulib c)"
  shows "table_safe (newHomesteadInstructionSet c)" "table_safe (newTangerineWhistleInstructionSet c)"
    "table_safe (newSpuriousDragonInstructionSet c)" "table_safe (newByzantiumInstructionSet c)"
    "table_safe (newConstantinopleInstructionSet c)"
proof -
  note E = static_safe plain_safe query_safe [OF c] dynamic_entries [OF c U] charged_entries [OF c U] calling_entries [OF c U]
  note S = table_safe_upd frontier_safe [OF c U] E frontier_entries
  show "table_safe (newHomesteadInstructionSet c)" by (simp add: table_defs S del: One_nat_def)
  show "table_safe (newTangerineWhistleInstructionSet c)" by (simp add: table_defs S del: One_nat_def)
  show "table_safe (newSpuriousDragonInstructionSet c)" by (simp add: table_defs S del: One_nat_def)
  show "table_safe (newByzantiumInstructionSet c)" by (simp add: table_defs S del: One_nat_def)
  show "table_safe (newConstantinopleInstructionSet c)" by (simp add: table_defs S del: One_nat_def)
qed

lemma late_tables_safe:
  assumes c: "sops c = ops" and U: "uint256_ok (ulib c)" and id: "vm_ChainID c \<noteq> None"
  shows "table_safe (newIstanbulInstructionSet c)"
    "r_IsEIP150 (chainRules c) \<Longrightarrow> table_safe (newBerlinInstructionSet c)"
    "r_IsEIP150 (chainRules c) \<Longrightarrow> BaseFee c \<noteq> None \<Longrightarrow> table_safe (newLondonInstructionSet c)"
    "r_IsEIP150 (chainRules c) \<Longrightarrow> BaseFee c \<noteq> None \<Longrightarrow> Random c \<noteq> None \<Longrightarrow> table_safe (newMergeInstructionSet c)"
    "r_IsEIP150 (chainRules c) \<Longrightarrow> BaseFee c \<noteq> None \<Longrightarrow> Random c \<noteq> None \<Longrightarrow> table_safe (newShanghaiInstructionSet c)"
proof -
  note E = static_safe plain_safe query_safe [OF c] dynamic_entries [OF c U] charged_entries [OF c U] calling_entries [OF c U]
  note S = table_safe_upd frontier_safe [OF c U] E frontier_entries gasSStoreEIP2929_def gasSStoreEIP3529_def
    gasSelfdestructEIP2929_def gasSelfdestructEIP3529_def id [simplified]
  show "table_safe (newIstanbulInstructionSet c)" using id by (simp add: table_defs S del: One_nat_def)
  assume e: "r_IsEIP150 (chainRules c)"
  show "table_safe (newBerlinInstructionSet c)" using id e by (simp add: table_defs S del: One_nat_def)
  assume b: "BaseFee c \<noteq> None"
  show "table_safe (newLondonInstructionSet c)" using id e b by (simp add: table_defs S del: One_nat_def)
  assume r: "Random c \<noteq> None"
  show "table_safe (newMergeInstructionSet c)" using id e b r by (simp add: table_defs S del: One_nat_def)
  show "table_safe (newShanghaiInstructionSet c)" using id e b r by (simp add: table_defs S del: One_nat_def)
qed

end

end
