(* ===== verification/VM_Safety.thy ===== *)
theory VM_Safety
  imports VM_Table_Safety
begin

text \<open>
  The virtual machine over the state database: what the program logic shows of every run, with the
  contract of the state discharged by \<open>StateDB_VM\<close>. The results hold for the table of every fork
  and for all programs, inputs and amounts of gas below 2^61.
\<close>

section \<open>A machine that is set up for its rules\<close>

text \<open>
  The 256-bit library behaves as documented, the chain has an identifier, and the block context
  provides what the rules of the block ask for.
\<close>

definition vm_ready :: "'st vm_cfg \<Rightarrow> bool" where
  "vm_ready c \<longleftrightarrow>
     (let r = chainRules c
      in uint256_ok (ulib c) \<and> vm_ChainID c \<noteq> None \<and>
         (r_IsBerlin r \<or> r_IsLondon r \<or> r_IsMerge r \<or> r_IsShanghai r \<longrightarrow> r_IsEIP150 r) \<and>
         (r_IsLondon r \<or> r_IsMerge r \<or> r_IsShanghai r \<longrightarrow> BaseFee c \<noteq> None) \<and>
         (r_IsMerge r \<or> r_IsShanghai r \<longrightarrow> Random c \<noteq> None))"

context vm_state begin

lemma fork_table_safe:
  assumes "sops c = ops" "vm_ready c"
  shows "table_safe (fork_table c)"
proof -
  have r: "uint256_ok (ulib c)" "vm_ChainID c \<noteq> None" using assms(2) by (simp_all add: vm_ready_def Let_def)
  note T = frontier_safe [OF assms(1) r(1)] early_tables_safe [OF assms(1) r(1)] late_tables_safe [OF assms(1) r]
  show ?thesis using assms(2) T by (simp add: fork_table_def vm_ready_def Let_def)
qed

lemma fork_run_good: "sops c = ops \<Longrightarrow> vm_ready c \<Longrightarrow> good n (interp_Run (fork_table c) n)"
  by (rule interp_Run_good [OF fork_table_safe])

text \<open>The contracts spelled out for results.\<close>

lemma run_result:
  assumes "sops c = ops" "vm_ready c" "ok (evm_StateDB e)" "ct_ok ct" "go_slice input"
    "unat (Gas ct) < n" "unat (Gas ct) < 2 ^ 61"
  shows "safe (interp_Run (fork_table c) n ct input ro e) (run_post ct ro e)"
  using fork_run_good [OF assms(1,2), of n] assms(3-) by (simp add: good_def ok_evm_def)

lemma safe_iff:
  "safe x Q \<longleftrightarrow> (\<exists>y. x = Ret y \<and> Q y) \<or> (\<exists>p \<in> {RefundPanic, AccessListPanic, BitmapPanic}. x = Panic p)"
  by (cases x) (auto simp: residual_def)

lemma step_result:
  assumes "sops c = ops" "vm_ready c" "good n run" "fr_ok fr" "unat (Gas (fr_contract fr)) \<le> n"
  shows "safe (interp_step (fork_table c) run fr) (\<lambda>r. case r of
      Halt res fr' \<Rightarrow> loop_post fr (res, fr')
    | Next fr' \<Rightarrow> fr_ok fr' \<and> length (fr_stack fr') \<le> 1024 \<and>
        unat (Gas (fr_contract fr')) < unat (Gas (fr_contract fr)) \<and>
        evo_evm (fr_evm fr) (fr_evm fr') \<and> (readOnly (fr_evm fr) \<longrightarrow> quiet_evm (fr_evm fr) (fr_evm fr')))"
  by (rule interp_step_safe [OF fork_table_safe [OF assms(1,2)] assms(3-)])

end

section \<open>A small machine\<close>

text \<open>The latest rules over the empty state, for the examples below.\<close>

definition toy_crypto :: crypto_lib where
  "toy_crypto =
     \<lparr>cl_Keccak256 = toy_hash, cl_ripemd160 = (\<lambda>_. []), cl_Ecrecover = (\<lambda>_ _. None),
      cl_G1_Unmarshal = (\<lambda>_. Inl ''no curve''), cl_G1_Marshal = (\<lambda>_. []), cl_G1_Add = (\<lambda>x y. x),
      cl_G1_ScalarMult = (\<lambda>x n. x), cl_G2_Unmarshal = (\<lambda>_. Inl ''no curve''),
      cl_PairingCheck = (\<lambda>_ _. False), cl_blake2b_F = (\<lambda>h m t f n. h)\<rparr>"

definition toy_rules :: Rules where
  "toy_rules =
     \<lparr>r_ChainID = 1, r_IsHomestead = True, r_IsEIP150 = True, r_IsEIP155 = True, r_IsEIP158 = True,
      r_IsByzantium = True, r_IsConstantinople = True, r_IsPetersburg = True, r_IsIstanbul = True,
      r_IsBerlin = True, r_IsLondon = True, r_IsMerge = True, r_IsShanghai = True, r_IsCancun = False,
      r_IsPrague = False\<rparr>"

definition toy_cfg :: "unit StateDB vm_cfg" where
  "toy_cfg =
     \<lparr>sops = statedb_ops, ulib = word_uint256, clib = toy_crypto, GetHash = (\<lambda>_. 0), Coinbase = 1,
      BlockGasLimit = 30000000, BlockNumber = 1, BlockTime = 1, Difficulty = 0, BaseFee = Some 7,
      Random = Some 0, Origin = 5, GasPrice = 7, vm_ChainID = Some 1, chainRules = toy_rules,
      EnablePreimageRecording = False\<rparr>"

definition toy_machine :: "unit StateDB EVM" where
  "toy_machine = new_machine toy_state"

text \<open>PUSH1 1, PUSH1 2, ADD, STOP with 1000 units of gas.\<close>

definition toy_contract :: Contract where
  "toy_contract = SetCallCode 6 0 [0x60, 1, 0x60, 2, 0x01, 0x00]
     (fst (NewContract (AccountRef 5) (AccountRef 6) (Some 0) 1000 Map.empty))"

lemma toy_ready: "sops toy_cfg = statedb_ops" "vm_ready toy_cfg"
  by (simp_all add: toy_cfg_def vm_ready_def toy_rules_def word_uint256_ok)

lemma toy_good: "sdb_good (evm_StateDB toy_machine)"
proof -
  have "stored_slots_ok toy_state"
    by (simp add: stored_slots_ok_def slot_bytes_def backing_def toy_state_def state_New_def toy_db_def
        newObject_def zeroAccount_def decode_slot_def trie_slot_def
        obj_trie_def)
  moreover have "codes_ok (view toy_state)" by (simp add: codes_ok_def toy_state_empty)
  ultimately show ?thesis by (simp add: sdb_good_def toy_state_ok toy_machine_def new_machine_def)
qed

lemma toy_contract_ok: "ct_ok toy_contract" "unat (Gas toy_contract) = 1000"
  by (simp_all add: toy_contract_def SetCallCode_def NewContract_def ct_ok_def go_slice_def)

section \<open>Properties\<close>

text \<open>
  C1: Gas bounds execution. A run of the interpreter with the table of the fork, on a well-formed
  state and with more fuel than gas, always comes to an end: it returns, with no more gas than it
  was given, a well-formed state and the call depth and write protection it found; or it is one
  of three panics. It never reads below the operand stack or outside memory, never slices out of
  range, never dereferences nil and never reverts to an unknown snapshot.
\<close>

theorem run_ends_within_gas:
  assumes "sops c = statedb_ops" "vm_ready c" "sdb_good (evm_StateDB e)" "ct_ok ct" "go_slice input"
    "unat (Gas ct) < n" "unat (Gas ct) < 2 ^ 61"
  shows "(\<exists>ret err ct' e'. interp_Run (fork_table c) n ct input ro e = Ret ((ret, err), ct', e') \<and>
      unat (Gas ct') \<le> unat (Gas ct) \<and> sdb_good (evm_StateDB e') \<and>
      depth e' = depth e \<and> readOnly e' = readOnly e) \<or>
    (\<exists>p \<in> {RefundPanic, AccessListPanic, BitmapPanic}. interp_Run (fork_table c) n ct input ro e = Panic p)"
proof -
  have post: "sdb_vm.run_post ct ro e ((ret, err), ct', e') \<Longrightarrow>
      unat (Gas ct') \<le> unat (Gas ct) \<and> sdb_good (evm_StateDB e') \<and> depth e' = depth e \<and> readOnly e' = readOnly e"
    for ret err ct' e'
    using sdb_evo_order(3) by (auto simp: sdb_vm.run_post_def sdb_vm.evo_evm_def)
  from sdb_vm.run_result [OF assms, of ro] show ?thesis
    unfolding sdb_vm.safe_iff using post by fastforce
qed

theorem run_ends_within_gas_witness:
  "(\<exists>ret err ct' e'. interp_Run (fork_table toy_cfg) 1001 toy_contract [] False toy_machine = Ret ((ret, err), ct', e') \<and>
      unat (Gas ct') \<le> 1000 \<and> sdb_good (evm_StateDB e') \<and>
      depth e' = depth toy_machine \<and> readOnly e' = readOnly toy_machine) \<or>
    (\<exists>p \<in> {RefundPanic, AccessListPanic, BitmapPanic}.
       interp_Run (fork_table toy_cfg) 1001 toy_contract [] False toy_machine = Panic p)"
  using run_ends_within_gas [OF toy_ready toy_good toy_contract_ok(1), of "[]" 1001 False]
  by (simp add: toy_contract_ok(2))

text \<open>
  C2: Failed calls leave no trace. Each of the four kinds of message call returns at most the gas
  it was given and leaves a well-formed state; when it reports an error, be it a lack of depth or
  balance, a revert, or any failure of the callee, everything that can be seen of the state is as
  it was before the call, whatever the callee and the contracts it called had done.
\<close>

theorem failed_calls_restore_state:
  assumes "sops c = statedb_ops" "vm_ready c" "sdb_good (evm_StateDB e)" "go_slice input"
    "unat gas < n" "unat gas < 2 ^ 61" "run = interp_Run (fork_table c) n" "0 \<le> v"
  shows "let kept = (\<lambda>((ret, gas', err), e'). unat gas' \<le> unat gas \<and> sdb_good (evm_StateDB e') \<and>
           (err \<noteq> None \<longrightarrow> view (evm_StateDB e') = view (evm_StateDB e)))
    in safe (evm_Call c run clr addr input gas v e) kept \<and>
       safe (evm_CallCode c run clr addr input gas v e) kept \<and>
       safe (evm_DelegateCall c run (ContractPtr a b (Some w)) addr input gas e) kept \<and>
       safe (evm_StaticCall c run clr addr input gas e) kept"
proof -
  have run: "sdb_vm.good n run" using sdb_vm.fork_run_good [OF assms(1,2)] assms(7) by simp
  have e: "sdb_vm.ok_evm e" using assms(3) by (simp add: sdb_vm.ok_evm_def)
  have post: "sdb_vm.call_post gas e q r \<Longrightarrow> (\<lambda>((ret, gas', err), e'). unat gas' \<le> unat gas \<and>
      sdb_good (evm_StateDB e') \<and> (err \<noteq> None \<longrightarrow> view (evm_StateDB e') = view (evm_StateDB e))) r" for q r
    using sdb_evo_order(3)
    by (auto simp: sdb_vm.call_post_def sdb_vm.mv_def sdb_vm.evo_evm_def sdb_vm.same_evm_def split: prod.splits)
  note A = assms(1) e run assms(5,6,4)
  show ?thesis
    unfolding Let_def
    by (intro conjI; rule safe_mono)
      (rule sdb_vm.evm_Call_safe [OF A assms(8)] sdb_vm.evm_CallCode_safe [OF A] sdb_vm.evm_DelegateCall_safe [OF A refl]
        sdb_vm.evm_StaticCall_safe [OF A], erule post)+
qed

theorem failed_calls_restore_state_witness:
  "let kept = (\<lambda>((ret, gas', err), e'). unat gas' \<le> unat (900 :: u64) \<and> sdb_good (evm_StateDB e') \<and>
           (err \<noteq> None \<longrightarrow> view (evm_StateDB e') = view (evm_StateDB toy_machine)))
    in safe (evm_Call toy_cfg (interp_Run (fork_table toy_cfg) 1000) (AccountRef 5) 99 [1] 900 7 toy_machine) kept"
  using failed_calls_restore_state [OF toy_ready toy_good, of "[1]" 900 1000 _ 7] by (simp add: go_slice_def Let_def)

text \<open>
  C7: Static calls are static. Whatever program a static call runs, and whatever that program
  calls, no balance, nonce, code, storage slot, transient slot, log, refund or self-destruct mark
  of any account changes; the same holds for every run under write protection that does not fail.
\<close>

theorem static_calls_change_nothing:
  assumes "sops c = statedb_ops" "vm_ready c" "sdb_good (evm_StateDB e)" "go_slice input"
    "unat gas < n" "unat gas < 2 ^ 61" "run = interp_Run (fork_table c) n" "ct_ok ct" "Gas ct = gas"
  shows "safe (evm_StaticCall c run clr addr input gas e)
      (\<lambda>((ret, gas', err), e'). same_world (view (evm_StateDB e)) (view (evm_StateDB e'))) \<and>
    safe (run ct input ro e)
      (\<lambda>((ret, err), ct', e'). (readOnly e \<or> ro) \<and> err = None \<longrightarrow>
         same_world (view (evm_StateDB e)) (view (evm_StateDB e')))"
proof
  have run: "sdb_vm.good n run" using sdb_vm.fork_run_good [OF assms(1,2)] assms(7) by simp
  have e: "sdb_vm.ok_evm e" using assms(3) by (simp add: sdb_vm.ok_evm_def)
  show "safe (evm_StaticCall c run clr addr input gas e)
      (\<lambda>((ret, gas', err), e'). same_world (view (evm_StateDB e)) (view (evm_StateDB e')))"
    by (rule safe_mono [OF sdb_vm.evm_StaticCall_safe [OF assms(1) e run assms(5,6,4)]])
      (auto simp: sdb_vm.call_post_def sdb_vm.mv_def sdb_vm.quiet_evm_def sdb_quiet_def)
  have "safe (run ct input ro e) (sdb_vm.run_post ct ro e)"
    using run e assms(4-6,8,9) by (simp add: sdb_vm.good_def)
  then show "safe (run ct input ro e)
      (\<lambda>((ret, err), ct', e'). (readOnly e \<or> ro) \<and> err = None \<longrightarrow>
         same_world (view (evm_StateDB e)) (view (evm_StateDB e')))"
    by (rule safe_mono) (auto simp: sdb_vm.run_post_def sdb_vm.quiet_evm_def sdb_quiet_def)
qed

theorem static_calls_change_nothing_witness:
  "safe (evm_StaticCall toy_cfg (interp_Run (fork_table toy_cfg) 1001) (AccountRef 5) 99 [] (Gas toy_contract) toy_machine)
    (\<lambda>((ret, gas', err), e'). same_world (view (evm_StateDB toy_machine)) (view (evm_StateDB e')))"
  using static_calls_change_nothing [OF toy_ready toy_good, of "[]" "Gas toy_contract" 1001]
    toy_contract_ok by simp

text \<open>
  C8: Every turn of the loop makes progress within bounds. From a well-formed frame one turn of the
  interpreter either halts or goes on with a well-formed frame that has strictly less gas, at most
  1024 operands on its stack, and a memory whose cached fee matches its size.
\<close>

theorem loop_turn_progress:
  assumes "sops c = statedb_ops" "vm_ready c" "sdb_good (evm_StateDB (fr_evm fr))" "mem_ok (fr_mem fr)"
    "ct_ok (fr_contract fr)" "unat (Gas (fr_contract fr)) < 2 ^ 61" "unat (Gas (fr_contract fr)) \<le> n"
  shows "safe (interp_step (fork_table c) (interp_Run (fork_table c) n) fr) (\<lambda>r. case r of
      Halt res fr' \<Rightarrow> unat (Gas (fr_contract fr')) \<le> unat (Gas (fr_contract fr)) \<and> sdb_good (evm_StateDB (fr_evm fr'))
    | Next fr' \<Rightarrow> unat (Gas (fr_contract fr')) < unat (Gas (fr_contract fr)) \<and> length (fr_stack fr') \<le> 1024 \<and>
        mem_ok (fr_mem fr') \<and> ct_ok (fr_contract fr') \<and> sdb_good (evm_StateDB (fr_evm fr')))"
proof -
  have fr: "sdb_vm.fr_ok fr" using assms by (simp add: sdb_vm.fr_ok_def sdb_vm.ok_evm_def)
  have good: "sdb_evo s t \<Longrightarrow> sdb_good t" for s t :: "'a StateDB" by (rule sdb_evo_order(3))
  show ?thesis
    by (rule safe_mono [OF sdb_vm.step_result [OF assms(1,2) sdb_vm.fork_run_good [OF assms(1,2)] fr assms(7)]])
      (auto simp: sdb_vm.loop_post_def sdb_vm.fr_ok_def sdb_vm.ok_evm_def sdb_vm.evo_evm_def intro: good
        split: step_result.splits)
qed

definition toy_frame :: "unit StateDB frame" where
  "toy_frame = \<lparr>fr_pc = 0, fr_evm = toy_machine, fr_contract = toy_contract, fr_stack = [], fr_mem = NewMemory\<rparr>"

theorem loop_turn_progress_witness:
  "safe (interp_step (fork_table toy_cfg) (interp_Run (fork_table toy_cfg) 1000) toy_frame) (\<lambda>r. case r of
      Halt res fr' \<Rightarrow> unat (Gas (fr_contract fr')) \<le> 1000 \<and> sdb_good (evm_StateDB (fr_evm fr'))
    | Next fr' \<Rightarrow> unat (Gas (fr_contract fr')) < 1000 \<and> length (fr_stack fr') \<le> 1024 \<and>
        mem_ok (fr_mem fr') \<and> ct_ok (fr_contract fr') \<and> sdb_good (evm_StateDB (fr_evm fr')))"
  using loop_turn_progress [OF toy_ready, of toy_frame 1000] toy_good toy_contract_ok
  by (simp add: toy_frame_def)

text \<open>
  C9: Creations are paid for. Both kinds of contract creation return at most the gas they were
  given, whatever the constructor does and whether or not the new code can be stored, and leave a
  well-formed state, the call depth and the write protection as they were.
\<close>

theorem creations_return_gas:
  assumes "sops c = statedb_ops" "vm_ready c" "sdb_good (evm_StateDB e)" "go_slice code"
    "unat gas < n" "unat gas < 2 ^ 61" "run = interp_Run (fork_table c) n" "0 \<le> v"
  shows "let kept = (\<lambda>((ret, a, gas', err), e'). unat gas' \<le> unat gas \<and> sdb_good (evm_StateDB e') \<and>
           depth e' = depth e \<and> readOnly e' = readOnly e)
    in safe (evm_Create c run clr code gas v e) kept \<and> safe (evm_Create2 c run clr code gas v salt e) kept"
proof -
  have run: "sdb_vm.good n run" using sdb_vm.fork_run_good [OF assms(1,2)] assms(7) by simp
  have e: "sdb_vm.ok_evm e" using assms(3) by (simp add: sdb_vm.ok_evm_def)
  have post: "sdb_vm.create_post gas e r \<Longrightarrow> (\<lambda>((ret, a, gas', err), e'). unat gas' \<le> unat gas \<and>
      sdb_good (evm_StateDB e') \<and> depth e' = depth e \<and> readOnly e' = readOnly e) r" for r
    using sdb_evo_order(3)
    by (auto simp: sdb_vm.create_post_def sdb_vm.mv_def sdb_vm.evo_evm_def split: prod.splits)
  note A = assms(1) e run assms(5,6,4)
  show ?thesis
    unfolding Let_def
    by (intro conjI; rule safe_mono) (rule sdb_vm.evm_Create_safe [OF A assms(8)], erule post)+
qed

theorem creations_return_gas_witness:
  "safe (evm_Create toy_cfg (interp_Run (fork_table toy_cfg) 60000) (AccountRef 5) [0x00] 53000 0 toy_machine)
     (\<lambda>((ret, a, gas', err), e'). unat gas' \<le> unat (53000 :: u64) \<and> sdb_good (evm_StateDB e') \<and>
        depth e' = depth toy_machine \<and> readOnly e' = readOnly toy_machine)"
  using creations_return_gas [OF toy_ready toy_good, of "[0x00]" 53000 60000 _ 0] by (simp add: go_slice_def Let_def)

text \<open>
  C4: The machine creates no ether. From a state in which no account is in debt, a call or a creation
  with any non-negative value, and every run of a contract, leads to a state in which again no account
  is in debt and whose sum of balances is at most what it was.
\<close>

theorem machine_creates_no_ether:
  assumes "sops c = statedb_ops" "vm_ready c" "sdb_good (evm_StateDB e)" "go_slice input"
    "unat gas < n" "unat gas < 2 ^ 61" "run = interp_Run (fork_table c) n" "0 \<le> v" "ct_ok ct" "Gas ct = gas"
    "no_debt (view (evm_StateDB e))"
  shows "let kept = (\<lambda>e'. no_debt (view (evm_StateDB e')) \<and>
           total_supply (view (evm_StateDB e')) \<le> total_supply (view (evm_StateDB e)))
    in safe (evm_Call c run clr addr input gas v e) (\<lambda>(_, e'). kept e') \<and>
       safe (evm_Create c run clr input gas v e) (\<lambda>(_, e'). kept e') \<and>
       safe (run ct input ro e) (\<lambda>(_, _, e'). kept e')"
proof -
  have run: "sdb_vm.good n run" using sdb_vm.fork_run_good [OF assms(1,2)] assms(7) by simp
  have e: "sdb_vm.ok_evm e" using assms(3) by (simp add: sdb_vm.ok_evm_def)
  have kept: "no_debt (view (evm_StateDB e'))" "total_supply (view (evm_StateDB e')) \<le> total_supply (view (evm_StateDB e))"
    if "sdb_vm.evo_evm e e'" for e'
    using that assms(11) by (simp_all add: sdb_vm.evo_evm_def sdb_vm.fair_def sdb_vm.sound_def sdb_vm.total_def
        no_debt_def total_supply_def)
  note A = assms(1) e run assms(5,6,4,8)
  have "safe (run ct input ro e) (sdb_vm.run_post ct ro e)"
    using run e assms(4-6,9,10) by (simp add: sdb_vm.good_def)
  then show ?thesis
    unfolding Let_def
    by (intro conjI safe_mono [OF sdb_vm.evm_Call_safe [OF A]] safe_mono [OF sdb_vm.evm_Create_safe(1) [OF A]];
        (elim safe_mono)?)
      (auto simp: sdb_vm.call_post_def sdb_vm.create_post_def sdb_vm.run_post_def sdb_vm.mv_def kept)
qed

lemma toy_no_debt: "no_debt (view (evm_StateDB toy_machine))"
  by (simp add: no_debt_def vbal_def toy_machine_def new_machine_def live_acct_def toy_state_empty)

theorem machine_creates_no_ether_witness:
  "safe (evm_Call toy_cfg (interp_Run (fork_table toy_cfg) 1001) (AccountRef 5) 99 [] (Gas toy_contract) 0 toy_machine)
    (\<lambda>(_, e'). no_debt (view (evm_StateDB e')) \<and>
       total_supply (view (evm_StateDB e')) \<le> total_supply (view (evm_StateDB toy_machine)))"
  using machine_creates_no_ether [OF toy_ready toy_good, of "[]" "Gas toy_contract" 1001 _ 0 toy_contract]
    toy_contract_ok toy_no_debt by (simp add: Let_def)

end
