(* ===== verification/State_Transition_Props.thy ===== *)
theory State_Transition_Props
  imports State_Transition VM_Safety
begin

text \<open>
  What applying a transaction does over the state database and the virtual machine: the intrinsic
  gas has its closed form, a message is accepted exactly under the conditions of the protocol, a
  rejected one can be undone, and an accepted one pays for its gas and creates no ether.
\<close>

section \<open>Intrinsic gas\<close>

text \<open>The price of the data in natural numbers: per byte, and per word of init code.\<close>

definition data_price :: "bytes \<Rightarrow> bool \<Rightarrow> bool \<Rightarrow> nat" where
  "data_price data isEIP2028 initWords =
     (let nz = length (filter (\<lambda>b. b \<noteq> 0) data)
      in nz * (if isEIP2028 then 16 else 68) + (length data - nz) * 4 +
         (if initWords then ((length data + 31) div 32) * 2 else 0))"

definition intrinsic_price :: "bytes \<Rightarrow> AccessList \<Rightarrow> bool \<Rightarrow> bool \<Rightarrow> bool \<Rightarrow> bool \<Rightarrow> nat" where
  "intrinsic_price data al isCreation isHomestead isEIP2028 isEIP3860 =
     (if isCreation \<and> isHomestead then 53000 else 21000) +
     data_price data isEIP2028 (isCreation \<and> isEIP3860) + length al * 2400 + StorageKeys al * 1900"

lemma unat_core_toWordSize: "unat (core_toWordSize sz) = (unat sz + 31) div 32"
  using unat_toWordSize [of sz] by (simp add: core_toWordSize_def toWordSize_def)

lemma add_mul_unat:
  fixes g n k :: u64
  assumes "unat g + unat n * unat k < 2 ^ 64" "0 < k"
  shows "\<not> (MaxUint64 - g) div k < n" "unat (g + n * k) = unat g + unat n * unat k"
proof -
  have k: "0 < unat k" using assms(2) by (simp add: word_less_nat_alt)
  show "unat (g + n * k) = unat g + unat n * unat k"
    using assms(1) by (simp add: unat_add_u64 unat_mult_u64)
  have "unat MaxUint64 = 2 ^ 64 - 1" by (simp add: MaxUint64_def unsigned_minus_1_eq_mask mask_eq_exp_minus_1)
  then have "unat (MaxUint64 - g) = 2 ^ 64 - 1 - unat g"
    using unat_lt_u64 [of g] by (subst unat_sub_u64) (simp_all add: word_le_nat_alt)
  moreover have "unat n \<le> (2 ^ 64 - 1 - unat g) div unat k"
    using assms(1) k by (simp add: less_eq_div_iff_mult_less_eq)
  ultimately show "\<not> (MaxUint64 - g) div k < n"
    by (simp add: word_less_nat_alt unat_div)
qed

lemma IntrinsicGas_closed:
  assumes "length data < 2 ^ 50" "length al < 2 ^ 50" "StorageKeys al < 2 ^ 50"
  shows "\<exists>g. IntrinsicGas data al isCreation isHomestead isEIP2028 isEIP3860 = Inr g \<and>
    unat g = intrinsic_price data al isCreation isHomestead isEIP2028 isEIP3860"
proof -
  define nz where "nz = length (filter (\<lambda>b. b \<noteq> 0) data)"
  define base :: u64 where "base = (if isCreation \<and> isHomestead then 53000 else 21000)"
  define k :: u64 where "k = (if isEIP2028 then 16 else 68)"
  have nz: "nz \<le> length data" by (simp add: nz_def)
  have U: "unat (of_nat n :: u64) = n" if "n < 2 ^ 50" for n
    using that by (simp add: unat_of_nat_u64)
  have k: "0 < k" "unat k = (if isEIP2028 then 16 else 68)" by (simp_all add: k_def)
  have b: "unat base \<le> 53000" "unat base = (if isCreation \<and> isHomestead then 53000 else 21000)" by (simp_all add: base_def)
  have nzu: "unat (of_nat nz :: u64) = nz" using nz assms(1) by (simp add: U)
  have z: "unat (of_nat (length data) - of_nat nz :: u64) = length data - nz"
    using nz assms(1) nzu U [of "length data"] by (subst unat_sub_u64) (simp_all add: word_le_nat_alt)
  have nzk: "nz * unat k \<le> length data * 68" by (rule mult_le_mono) (simp_all add: nz k)
  define g1 where "g1 = base + of_nat nz * k"
  have G1: "\<not> (MaxUint64 - base) div k < of_nat nz" "unat g1 = unat base + nz * unat k"
    using add_mul_unat [of base "of_nat nz" k] nzu nzk b assms(1) k(1) by (simp_all add: g1_def)
  define g2 where "g2 = g1 + (of_nat (length data) - of_nat nz) * 4"
  have G2: "\<not> (MaxUint64 - g1) div 4 < of_nat (length data) - of_nat nz"
    "unat g2 = unat base + nz * unat k + (length data - nz) * 4"
    using add_mul_unat [of g1 "of_nat (length data) - of_nat nz" 4] z nzk b assms(1) G1(2) by (simp_all add: g2_def)
  define w where "w = core_toWordSize (of_nat (length data))"
  have w: "unat w = (length data + 31) div 32" using assms(1) by (simp add: w_def unat_core_toWordSize U)
  have G3: "\<not> (MaxUint64 - g2) div 2 < w" "unat (g2 + w * 2) = unat g2 + unat w * 2"
    using add_mul_unat [of g2 w 2] w nzk b assms(1) G2(2) by simp_all
  define g3 where "g3 = (if isCreation \<and> isEIP3860 then g2 + w * 2 else g2)"
  have g3: "unat g3 = unat base + data_price data isEIP2028 (isCreation \<and> isEIP3860)"
    using G2(2) G3(2) w k(2) by (simp add: g3_def data_price_def Let_def nz_def)
  have "unat g3 \<le> unat g2 + 2 * unat w" "unat w \<le> length data + 31"
    using G3(2) w by (simp_all add: g3_def)
  then have bound: "unat g3 < 2 ^ 60" using G2(2) nzk b(1) assms(1) by simp
  have G4: "unat (g3 + of_nat (length al) * 2400) = unat g3 + length al * 2400"
    using add_mul_unat(2) [of g3 "of_nat (length al)" 2400] bound assms(2) U by simp
  have G5: "unat (g3 + of_nat (length al) * 2400 + of_nat (StorageKeys al) * 1900) =
      unat g3 + length al * 2400 + StorageKeys al * 1900"
    using add_mul_unat(2) [of "g3 + of_nat (length al) * 2400" "of_nat (StorageKeys al)" 1900] bound assms(2,3) U G4
    by simp
  have "0 < (of_nat (length data) :: u64) \<longleftrightarrow> data \<noteq> []"
    using U [of "length data"] assms(1) by (simp add: word_less_nat_alt)
  moreover have "data = [] \<Longrightarrow> g3 = base" by (simp add: g3_def g2_def g1_def w_def nz_def core_toWordSize_def MaxUint64_def)
  moreover have "IntrinsicGas data al isCreation isHomestead isEIP2028 isEIP3860 =
      (case (if 0 < (of_nat (length data) :: u64) then
          if (MaxUint64 - base) div k < of_nat nz then Inl ErrIntrinsicOverflow
          else if (MaxUint64 - g1) div 4 < of_nat (length data) - of_nat nz then Inl ErrIntrinsicOverflow
          else if isCreation \<and> isEIP3860 then
            if (MaxUint64 - g2) div 2 < w then Inl ErrIntrinsicOverflow else Inr (g2 + w * 2)
          else Inr g2
        else Inr base) of Inl err \<Rightarrow> Inl err
      | Inr gas \<Rightarrow> Inr (gas + of_nat (length al) * 2400 + of_nat (StorageKeys al) * 1900))"
    by (simp only: IntrinsicGas_def Let_def g2_def g1_def base_def k_def nz_def w_def TxGas_def
        TxGasContractCreation_def TxDataNonZeroGasEIP2028_def TxDataNonZeroGasFrontier_def TxDataZeroGas_def
        InitCodeWordGas_def TxAccessListAddressGas_def TxAccessListStorageKeyGas_def)
  ultimately have "IntrinsicGas data al isCreation isHomestead isEIP2028 isEIP3860 =
      Inr (g3 + of_nat (length al) * 2400 + of_nat (StorageKeys al) * 1900)"
    using G1(1) G2(1) G3(1) by (cases "data = []") (simp_all add: g3_def)
  then show ?thesis using G5 g3 b(2) by (simp add: intrinsic_price_def)
qed

section \<open>The machine over the state database\<close>

abbreviation evm_view :: "'tr StateDB EVM \<Rightarrow> 'tr sview" where
  "evm_view e \<equiv> view (evm_StateDB e)"

definition acct_nonce :: "'tr sview \<Rightarrow> Address \<Rightarrow> u64" where
  "acct_nonce v a = (case live_acct v a of None \<Rightarrow> 0 | Some x \<Rightarrow> a_nonce x)"

definition acct_codehash :: "'tr sview \<Rightarrow> Address \<Rightarrow> Hash" where
  "acct_codehash v a = (case live_acct v a of None \<Rightarrow> 0 | Some x \<Rightarrow> a_codehash x)"

text \<open>A query of the machine: the value comes from the view, which stays as it is.\<close>

lemma evm_query:
  assumes "sdb_good (evm_StateDB e)"
  shows "fst (ask (i_GetNonce statedb_ops a) e) = acct_nonce (evm_view e) a"
    "fst (ask (i_GetCodeHash statedb_ops a) e) = acct_codehash (evm_view e) a"
    "fst (ask (i_GetBalance statedb_ops a) e) = vbal (evm_view e) a"
    "sdb_vm.query f \<Longrightarrow> evm_view (snd (ask f e)) = evm_view e"
    "sdb_vm.query f \<Longrightarrow> sdb_vm.mv q e (snd (ask f e))"
proof -
  have ok: "sdb_ok (evm_StateDB e)" using assms by (simp add: sdb_good_def)
  have e: "sdb_vm.ok_evm e" using assms by (simp add: sdb_vm.ok_evm_def)
  show "fst (ask (i_GetNonce statedb_ops a) e) = acct_nonce (evm_view e) a"
    "fst (ask (i_GetCodeHash statedb_ops a) e) = acct_codehash (evm_view e) a"
    "fst (ask (i_GetBalance statedb_ops a) e) = vbal (evm_view e) a"
    using GetNonce_view(1) [OF ok, of a] GetCodeHash_view(1) [OF ok, of a] GetBalance_view(1) [OF ok, of a]
    by (simp_all add: ask_def statedb_ops_def case_prod_beta acct_nonce_def acct_codehash_def vbal_def)
  show "sdb_vm.query f \<Longrightarrow> evm_view (snd (ask f e)) = evm_view e"
    using sdb_vm.same_evm_ask [OF _ e] by (simp add: sdb_vm.same_evm_def)
  show "sdb_vm.query f \<Longrightarrow> sdb_vm.mv q e (snd (ask f e))"
    by (rule sdb_vm.mv_ask) (simp_all add: e)
qed

lemma mv_good: "sdb_vm.mv q e e' \<Longrightarrow> sdb_good (evm_StateDB e')"
  using sdb_vm.mv_ok by (simp add: sdb_vm.ok_evm_def)

section \<open>Checks before execution\<close>

text \<open>The account check by what the view shows.\<close>

definition account_error :: "'tr StateDB vm_cfg \<Rightarrow> Message \<Rightarrow> 'tr sview \<Rightarrow> core_error option" where
  "account_error c msg v =
     (let n = acct_nonce v (msg_From msg); h = acct_codehash v (msg_From msg)
      in if msg_SkipAccountChecks msg then None
         else if n < msg_Nonce msg then Some ErrNonceTooHigh
         else if msg_Nonce msg < n then Some ErrNonceTooLow
         else if n + 1 < n then Some ErrNonceMax
         else if h \<noteq> 0 \<and> h \<noteq> cl_Keccak256 (clib c) [] then Some ErrSenderNoEOA else None)"

lemma check_account_view:
  assumes c: "sops c = statedb_ops" and e: "sdb_good (evm_StateDB e)"
  obtains e1 where "(if \<not> msg_SkipAccountChecks msg then check_account c msg e else (None, e)) =
      (account_error c msg (evm_view e), e1)"
    "evm_view e1 = evm_view e" "sdb_vm.mv True e e1"
proof -
  let ?e1 = "snd (ask (i_GetNonce statedb_ops (msg_From msg)) e)"
  let ?e2 = "snd (ask (i_GetCodeHash statedb_ops (msg_From msg)) ?e1)"
  have m1: "sdb_vm.mv True e ?e1" "evm_view ?e1 = evm_view e" by (simp_all add: evm_query [OF e])
  have g1: "sdb_good (evm_StateDB ?e1)" using m1(1) by (rule mv_good)
  have m2: "sdb_vm.mv True e ?e2" "evm_view ?e2 = evm_view e"
    using sdb_vm.mv_trans [OF m1(1) evm_query(5) [OF g1 sdb_vm.queries(3)]] m1(2) by (simp_all add: evm_query [OF g1])
  have e0: "sdb_vm.mv True e e" using e by (simp add: sdb_vm.ok_evm_def)
  have "check_account c msg e = (account_error c msg (evm_view e),
      if acct_nonce (evm_view e) (msg_From msg) = msg_Nonce msg \<and>
         \<not> acct_nonce (evm_view e) (msg_From msg) + 1 < acct_nonce (evm_view e) (msg_From msg) then ?e2 else ?e1)"
    if "\<not> msg_SkipAccountChecks msg"
    using that m1(2) by (simp add: check_account_def c case_prod_beta Let_def evm_query [OF e] evm_query [OF g1] account_error_def)
  then show thesis
    using that [of e] that [of ?e1] that [of ?e2] m1 m2 e0
    by (cases "msg_SkipAccountChecks msg") (auto simp: account_error_def split: if_splits)
qed

definition fee_error :: "'tr StateDB vm_cfg \<Rightarrow> ChainConfig \<Rightarrow> int \<Rightarrow> int \<Rightarrow> core_error option" where
  "fee_error c cc feeCap tipCap =
     (if \<not> IsLondon cc (BlockNumber c) then None
      else if 256 < big_BitLen feeCap then Some ErrFeeCapVeryHigh
      else if 256 < big_BitLen tipCap then Some ErrTipVeryHigh
      else if feeCap < tipCap then Some ErrTipAboveFeeCap
      else if feeCap < the (BaseFee c) then Some ErrFeeCapTooLow else None)"

lemma check_fees_Ret:
  assumes "msg_GasFeeCap msg = Some feeCap" "msg_GasTipCap msg = Some tipCap"
    "IsLondon cc (BlockNumber c) \<longrightarrow> BaseFee c \<noteq> None"
  shows "(if IsLondon cc (BlockNumber c) then check_fees c False msg else Ret None) = Ret (fee_error c cc feeCap tipCap)"
  using assms by (auto simp: check_fees_def deref_def fee_error_def split: option.split)

definition funds_error :: "Message \<Rightarrow> int \<Rightarrow> GasPool \<Rightarrow> 'tr sview \<Rightarrow> core_error option" where
  "funds_error msg feeCap p v =
     (if vbal v (msg_From msg) < uint (msg_GasLimit msg) * feeCap + msg_Value msg then Some ErrInsufficientFunds
      else if p < msg_GasLimit msg then Some ErrGasLimitReached else None)"

lemma buyGas_view:
  assumes c: "sops c = statedb_ops" and e: "sdb_good (evm_StateDB e)" and f: "msg_GasFeeCap msg = Some feeCap"
  obtains st1 e1 where "buyGas c msg st e = (funds_error msg feeCap (st_gp st) (evm_view e), st1, e1)"
    "sdb_evo (evm_StateDB e) (evm_StateDB e1)"
    "funds_error msg feeCap (st_gp st) (evm_view e) \<noteq> None \<longrightarrow> st1 = st \<and> evm_view e1 = evm_view e"
    "funds_error msg feeCap (st_gp st) (evm_view e) = None \<longrightarrow>
       st1 = \<lparr>st_gp = st_gp st - msg_GasLimit msg, gasRemaining = gasRemaining st + msg_GasLimit msg,
              initialGas = msg_GasLimit msg\<rparr> \<and>
       vbal (evm_view e1) = (vbal (evm_view e))(msg_From msg :=
         vbal (evm_view e) (msg_From msg) - uint (msg_GasLimit msg) * msg_GasPrice msg)"
proof -
  let ?e1 = "snd (ask (i_GetBalance statedb_ops (msg_From msg)) e)"
  let ?e2 = "upd (SubBalance (msg_From msg) (uint (msg_GasLimit msg) * msg_GasPrice msg)) ?e1"
  have m1: "sdb_vm.mv True e ?e1" "evm_view ?e1 = evm_view e" by (simp_all add: evm_query [OF e])
  have g1: "sdb_good (evm_StateDB ?e1)" using m1(1) by (rule mv_good)
  have v1: "sdb_evo (evm_StateDB e) (evm_StateDB ?e1)" using m1(1) by (simp add: sdb_vm.mv_def sdb_vm.evo_evm_def)
  have v2: "sdb_evo (evm_StateDB e) (evm_StateDB ?e2)"
    using sdb_evo_order(2) [OF v1 sdb_setter_evo(2) [OF g1]] by (simp add: upd_def)
  have b2: "vbal (evm_view ?e2) = (vbal (evm_view e))(msg_From msg :=
         vbal (evm_view e) (msg_From msg) - uint (msg_GasLimit msg) * msg_GasPrice msg)"
    using m1(2) by (simp add: upd_def sdb_bal(3) [OF g1])
  have ops: "i_SubBalance statedb_ops = SubBalance" by (simp add: statedb_ops_def)
  let ?st1 = "\<lparr>st_gp = st_gp st - msg_GasLimit msg, gasRemaining = gasRemaining st + msg_GasLimit msg,
              initialGas = msg_GasLimit msg\<rparr>"
  have eq: "buyGas c msg st e = (funds_error msg feeCap (st_gp st) (evm_view e),
      if funds_error msg feeCap (st_gp st) (evm_view e) = None then (?st1, ?e2) else (st, ?e1))"
    by (simp add: buyGas_def f c case_prod_beta Let_def evm_query [OF e] gp_SubGas_def funds_error_def ops)
  show thesis
  proof (cases "funds_error msg feeCap (st_gp st) (evm_view e) = None")
    case True
    with eq v2 b2 show ?thesis by (intro that [of ?st1 ?e2]) simp_all
  next
    case False
    with eq v1 m1(2) show ?thesis by (intro that [of st ?e1]) auto
  qed
qed

definition precheck_error ::
  "'tr StateDB vm_cfg \<Rightarrow> ChainConfig \<Rightarrow> Message \<Rightarrow> int \<Rightarrow> int \<Rightarrow> GasPool \<Rightarrow> 'tr sview \<Rightarrow> core_error option" where
  "precheck_error c cc msg feeCap tipCap p v =
     (if account_error c msg v \<noteq> None then account_error c msg v
      else if fee_error c cc feeCap tipCap \<noteq> None then fee_error c cc feeCap tipCap
      else funds_error msg feeCap p v)"

text \<open>The transition and the balances after buying gas.\<close>

definition bought :: "Message \<Rightarrow> GasPool \<Rightarrow> StateTransition" where
  "bought msg p = \<lparr>st_gp = p - msg_GasLimit msg, gasRemaining = msg_GasLimit msg, initialGas = msg_GasLimit msg\<rparr>"

definition paid :: "Message \<Rightarrow> (Address \<Rightarrow> int) \<Rightarrow> Address \<Rightarrow> int" where
  "paid msg b = b(msg_From msg := b (msg_From msg) - uint (msg_GasLimit msg) * msg_GasPrice msg)"

lemma preCheck_view:
  fixes p :: GasPool
  assumes c: "sops c = statedb_ops" and e: "sdb_good (evm_StateDB e)"
    and f: "msg_GasFeeCap msg = Some feeCap" "msg_GasTipCap msg = Some tipCap"
    and b: "IsLondon cc (BlockNumber c) \<longrightarrow> BaseFee c \<noteq> None"
  defines "err \<equiv> precheck_error c cc msg feeCap tipCap p (evm_view e)"
  obtains st1 e1 where "preCheck c cc False msg (NewStateTransition p) e = Ret (err, st1, e1)"
    "sdb_evo (evm_StateDB e) (evm_StateDB e1)"
    "err = None \<longrightarrow> st1 = bought msg p \<and> vbal (evm_view e1) = paid msg (vbal (evm_view e))"
proof -
  obtain e1 where 1: "(if \<not> msg_SkipAccountChecks msg then check_account c msg e else (None, e)) =
      (account_error c msg (evm_view e), e1)" "evm_view e1 = evm_view e" "sdb_vm.mv True e e1"
    by (rule check_account_view [OF c e])
  have v1: "sdb_evo (evm_StateDB e) (evm_StateDB e1)" using 1(3) by (simp add: sdb_vm.mv_def sdb_vm.evo_evm_def)
  obtain st2 e2 where 2: "buyGas c msg (NewStateTransition p) e1 = (funds_error msg feeCap p (evm_view e), st2, e2)"
    "sdb_evo (evm_StateDB e1) (evm_StateDB e2)"
    "funds_error msg feeCap p (evm_view e) = None \<longrightarrow>
       st2 = bought msg p \<and> vbal (evm_view e2) = paid msg (vbal (evm_view e))"
    by (rule buyGas_view [OF c mv_good [OF 1(3)] f(1), of "NewStateTransition p"])
      (simp add: 1(2) NewStateTransition_def bought_def paid_def)
  have v2: "sdb_evo (evm_StateDB e) (evm_StateDB e2)" using v1 2(2) by (rule sdb_evo_order(2))
  note F = check_fees_Ret [OF f b]
  have eq: "preCheck c cc False msg (NewStateTransition p) e =
      (if account_error c msg (evm_view e) \<noteq> None then Ret (account_error c msg (evm_view e), NewStateTransition p, e1)
       else if fee_error c cc feeCap tipCap \<noteq> None then Ret (fee_error c cc feeCap tipCap, NewStateTransition p, e1)
       else Ret (funds_error msg feeCap p (evm_view e), st2, e2))"
    unfolding preCheck_def 1(1) Let_def prod.case F by (simp add: 2(1))
  show thesis
  proof (cases "account_error c msg (evm_view e) \<noteq> None \<or> fee_error c cc feeCap tipCap \<noteq> None")
    case True
    with eq v1 show ?thesis by (intro that [of "NewStateTransition p" e1]) (auto simp: err_def precheck_error_def)
  next
    case False
    with eq v2 2(3) show ?thesis by (intro that [of st2 e2]) (auto simp: err_def precheck_error_def)
  qed
qed

section \<open>The whole list of checks\<close>

definition message_error ::
  "'tr StateDB vm_cfg \<Rightarrow> ChainConfig \<Rightarrow> Message \<Rightarrow> int \<Rightarrow> int \<Rightarrow> GasPool \<Rightarrow> 'tr sview \<Rightarrow> core_error option" where
  "message_error c cc msg feeCap tipCap p v =
     (let r = chain_Rules cc (BlockNumber c) (Random c \<noteq> None) (BlockTime c); creation = (msg_To msg = None)
      in if precheck_error c cc msg feeCap tipCap p v \<noteq> None then precheck_error c cc msg feeCap tipCap p v
         else case IntrinsicGas (msg_Data msg) (msg_AccessList msg) creation (r_IsHomestead r) (r_IsIstanbul r) (r_IsShanghai r) of
                Inl err \<Rightarrow> Some err
              | Inr g \<Rightarrow>
                  if msg_GasLimit msg < g then Some ErrIntrinsicGas
                  else if 0 < msg_Value msg \<and> paid msg (vbal v) (msg_From msg) < msg_Value msg
                  then Some ErrInsufficientFundsForTransfer
                  else if r_IsShanghai r \<and> creation \<and> 49152 < length (msg_Data msg) then Some ErrMaxInitCodeSize
                  else None)"

lemma CanTransfer_view:
  assumes "sops c = statedb_ops" "sdb_good (evm_StateDB e)"
  obtains e1 where "(if 0 < v then CanTransfer c a v e else (True, e)) = (\<not> (0 < v \<and> vbal (evm_view e) a < v), e1)"
    "evm_view e1 = evm_view e" "sdb_evo (evm_StateDB e) (evm_StateDB e1)"
proof -
  let ?e1 = "snd (ask (i_GetBalance statedb_ops a) e)"
  have "sdb_evo (evm_StateDB e) (evm_StateDB ?e1)" "evm_view ?e1 = evm_view e"
    using evm_query(4,5) [OF assms(2), of "i_GetBalance statedb_ops a"]
    by (auto simp: sdb_vm.mv_def sdb_vm.evo_evm_def)
  moreover have "sdb_evo (evm_StateDB e) (evm_StateDB e)" using assms(2) by (rule sdb_evo_order(1))
  ultimately show thesis
    using that [of ?e1] that [of e] evm_query(3) [OF assms(2), of a] assms(1)
    by (cases "0 < v") (auto simp: CanTransfer_def case_prod_beta not_less)
qed

text \<open>A message either fails with the first error in the list or is executed.\<close>

lemma TransitionDb_cases:
  fixes p :: GasPool
  assumes c: "sops c = statedb_ops" and e: "sdb_good (evm_StateDB e)"
    and f: "msg_GasFeeCap msg = Some feeCap" "msg_GasTipCap msg = Some tipCap"
    and b: "IsLondon cc (BlockNumber c) \<longrightarrow> BaseFee c \<noteq> None"
  defines "err \<equiv> message_error c cc msg feeCap tipCap p (evm_view e)"
    and "r \<equiv> chain_Rules cc (BlockNumber c) (Random c \<noteq> None) (BlockTime c)"
  obtains x st1 e1 where "err = Some x" "ApplyMessage c cc False run msg p e = Ret (Inl x, st1, e1)"
      "sdb_evo (evm_StateDB e) (evm_StateDB e1)"
  | g e1 where "err = None" "sdb_evo (evm_StateDB e) (evm_StateDB e1)" "g \<le> msg_GasLimit msg"
      "vbal (evm_view e1) = paid msg (vbal (evm_view e))"
      "ApplyMessage c cc False run msg p e =
         bind_outcome (execute_message c run msg (msg_GasLimit msg - g)
            (upd (Prepare (r_IsBerlin r) (r_IsShanghai r) (msg_From msg) (Coinbase c) (msg_To msg)
               (ActivePrecompiles r) (msg_AccessList msg)) e1))
           (\<lambda>((ret, gas, vmerr), e). settle c r False msg ret vmerr ((bought msg p)\<lparr>gasRemaining := gas\<rparr>) e)"
proof -
  obtain st1 e1 where 1: "preCheck c cc False msg (NewStateTransition p) e =
      Ret (precheck_error c cc msg feeCap tipCap p (evm_view e), st1, e1)"
    "sdb_evo (evm_StateDB e) (evm_StateDB e1)"
    "precheck_error c cc msg feeCap tipCap p (evm_view e) = None \<longrightarrow>
       st1 = bought msg p \<and> vbal (evm_view e1) = paid msg (vbal (evm_view e))"
    by (rule preCheck_view [where p = p, OF c e f b])
  note run = ApplyMessage_def TransitionDb_def 1(1) bind_outcome.simps prod.case Let_def
  show thesis
  proof (cases "precheck_error c cc msg feeCap tipCap p (evm_view e)")
    case (Some x)
    then show ?thesis using that(1) [of x st1 e1] 1(2) by (simp add: run err_def message_error_def)
  next
    case None
    have B: "st1 = bought msg p" "vbal (evm_view e1) = paid msg (vbal (evm_view e))" using 1(3) None by simp_all
    have g1: "sdb_good (evm_StateDB e1)" using 1(2) by (rule sdb_evo_order(3))
    obtain e2 where 2: "(if 0 < msg_Value msg then CanTransfer c (msg_From msg) (msg_Value msg) e1 else (True, e1)) =
        (\<not> (0 < msg_Value msg \<and> vbal (evm_view e1) (msg_From msg) < msg_Value msg), e2)"
      "evm_view e2 = evm_view e1" "sdb_evo (evm_StateDB e1) (evm_StateDB e2)"
      by (rule CanTransfer_view [OF c g1])
    have v2: "sdb_evo (evm_StateDB e) (evm_StateDB e2)" using 1(2) 2(3) by (rule sdb_evo_order(2))
    show ?thesis
    proof (cases "IntrinsicGas (msg_Data msg) (msg_AccessList msg) (msg_To msg = None) (r_IsHomestead r)
        (r_IsIstanbul r) (r_IsShanghai r)")
      case (Inl x)
      then show ?thesis using that(1) [of x st1 e1] 1(2) None by (simp add: run err_def message_error_def r_def)
    next
      case (Inr g)
      note R = Inr [unfolded r_def]
      have prep: "i_Prepare statedb_ops r = Prepare (r_IsBerlin r) (r_IsShanghai r)" by (simp add: statedb_ops_def)
      have st: "gasRemaining (bought msg p) = msg_GasLimit msg" by (simp add: bought_def)
      have err: "err = (if msg_GasLimit msg < g then Some ErrIntrinsicGas
          else if 0 < msg_Value msg \<and> vbal (evm_view e1) (msg_From msg) < msg_Value msg
          then Some ErrInsufficientFundsForTransfer
          else if r_IsShanghai r \<and> msg_To msg = None \<and> 49152 < length (msg_Data msg) then Some ErrMaxInitCodeSize else None)"
        using None R B by (simp add: err_def message_error_def r_def Let_def)
      have "ApplyMessage c cc False run msg p e =
        (if msg_GasLimit msg < g then Ret (Inl ErrIntrinsicGas, bought msg p, e1)
         else let st = (bought msg p)\<lparr>gasRemaining := msg_GasLimit msg - g\<rparr>
              in if 0 < msg_Value msg \<and> vbal (evm_view e1) (msg_From msg) < msg_Value msg
                 then Ret (Inl ErrInsufficientFundsForTransfer, st, e2)
                 else if r_IsShanghai r \<and> msg_To msg = None \<and> 49152 < length (msg_Data msg)
                 then Ret (Inl ErrMaxInitCodeSize, st, e2)
                 else bind_outcome (execute_message c run msg (msg_GasLimit msg - g)
                    (upd (Prepare (r_IsBerlin r) (r_IsShanghai r) (msg_From msg) (Coinbase c) (msg_To msg)
                       (ActivePrecompiles r) (msg_AccessList msg)) e2))
                   (\<lambda>((ret, gas, vmerr), e). settle c r False msg ret vmerr ((bought msg p)\<lparr>gasRemaining := gas\<rparr>) e))"
        unfolding run r_def [symmetric] None option.case B(1) Inr sum.case st 2(1) c prep
        by (simp add: MaxInitCodeSize_def)
      with err v2 1(2) B 2(2) show ?thesis
        using that(1) [of _ "bought msg p" e1] that(1) [of _ "(bought msg p)\<lparr>gasRemaining := msg_GasLimit msg - g\<rparr>" e2]
          that(2) [of e2 g]
        by (simp add: Let_def not_less split: if_splits)
    qed
  qed
qed

section \<open>Execution\<close>

lemma Prepare_good:
  assumes "sdb_good s" and t_def: "t = Prepare isBerlin isShanghai sender coinbase dst precompiles list s"
  shows "sdb_good t" "vbal (view t) = vbal (view s)"
proof -
  have ok: "sdb_ok t" using assms(1) unfolding t_def by (intro Prepare_rest(1)) (simp add: sdb_good_def)
  have "\<exists>al. t = s\<lparr>sdb_accessList := al, sdb_transient := newTransientStorage\<rparr>"
  proof (cases isBerlin)
    case False
    then show ?thesis by (intro exI [of _ "sdb_accessList s"]) (simp add: t_def Prepare_def Let_def)
  qed (auto simp: t_def Prepare_def Let_def)
  then obtain al where t: "t = s\<lparr>sdb_accessList := al, sdb_transient := newTransientStorage\<rparr>" by blast
  have b: "backing t = backing s" by (simp add: t backing_def)
  have a: "v_accts (view t) = v_accts (view s)"
    using stored_account_backing [OF b] b
    by (simp add: view_def view_accts_def the_object_def fun_eq_iff split: option.split) (simp add: t)
  from a show "vbal (view t) = vbal (view s)" by (simp add: vbal_def fun_eq_iff live_acct_def)
  from a assms have "codes_ok (view t)" by (simp add: codes_ok_def sdb_good_def)
  with ok stored_slots_backing [OF b] assms show "sdb_good t" by (simp add: sdb_good_def)
qed

definition executed :: "u64 \<Rightarrow> 'tr StateDB EVM \<Rightarrow> (bytes \<times> u64 \<times> vm_error option) \<times> 'tr StateDB EVM \<Rightarrow> bool" where
  "executed gas e r \<longleftrightarrow> (case r of ((ret, gas', err), e') \<Rightarrow> unat gas' \<le> unat gas \<and> sdb_vm.evo_evm e e')"

lemma execute_message_safe:
  assumes c: "sops c = statedb_ops" and e: "sdb_good (evm_StateDB e)" and run: "sdb_vm.good n run"
    and gas: "unat gas < n" "unat gas < 2 ^ 61" and data: "go_slice (msg_Data msg)" and v: "0 \<le> msg_Value msg"
  shows "safe (execute_message c run msg gas e) (executed gas e)"
proof (cases "msg_To msg")
  case None
  have "sdb_vm.ok_evm e" using e by (simp add: sdb_vm.ok_evm_def)
  then have "safe (evm_Create c run (AccountRef (msg_From msg)) (msg_Data msg) gas (msg_Value msg) e)
      (sdb_vm.create_post gas e)"
    by (intro sdb_vm.evm_Create_safe(1) [OF c _ run gas data v])
  then show ?thesis using None
    by (simp add: execute_message_def)
      (erule safe_mono, auto simp: sdb_vm.create_post_def executed_def sdb_vm.mv_def)
next
  case (Some dst)
  let ?e1 = "snd (ask (i_GetNonce statedb_ops (msg_From msg)) e)"
  let ?e2 = "upd (i_SetNonce statedb_ops (msg_From msg) (acct_nonce (evm_view e) (msg_From msg) + 1)) ?e1"
  have m: "sdb_vm.mv False e ?e2" by (intro sdb_vm.mv_upd evm_query(5) [OF e]) simp_all
  have "safe (evm_Call c run (AccountRef (msg_From msg)) dst (msg_Data msg) gas (msg_Value msg) ?e2)
      (sdb_vm.call_post gas ?e2 (readOnly ?e2 \<and> msg_Value msg = 0))"
    by (rule sdb_vm.evm_Call_safe [OF c sdb_vm.mv_ok [OF m] run gas data v])
  then show ?thesis using Some m
    by (simp add: execute_message_def c case_prod_beta Let_def evm_query [OF e])
      (erule safe_mono, auto simp: sdb_vm.call_post_def executed_def sdb_vm.mv_def intro: sdb_vm.evo_evm_trans)
qed

section \<open>Settlement\<close>

lemma refund_bounds:
  fixes L r q k :: u64
  assumes "unat r \<le> unat L" "0 < q"
  defines "x \<equiv> (if k < (L - r) div q then k else (L - r) div q)"
  shows "unat (r + x) = unat r + unat x" "unat (r + x) \<le> unat L"
proof -
  have s: "unat (L - r) = unat L - unat r" using assms(1) by (intro unat_sub_u64) (simp add: word_le_nat_alt)
  have "unat ((L - r) div q) \<le> unat L - unat r" by (simp add: unat_div s div_le_dividend)
  then have x: "unat x \<le> unat L - unat r" by (auto simp: x_def word_less_nat_alt)
  then show "unat (r + x) = unat r + unat x" using assms(1) unat_lt_u64 [of L] by (simp add: unat_add_u64)
  then show "unat (r + x) \<le> unat L" using x assms(1) by simp
qed

text \<open>The balances after the refund of \<open>R\<close> units and the payment for the \<open>U\<close> used ones.\<close>

definition settled :: "'tr StateDB vm_cfg \<Rightarrow> Message \<Rightarrow> u64 \<Rightarrow> u64 \<Rightarrow> int \<Rightarrow> (Address \<Rightarrow> int) \<Rightarrow> Address \<Rightarrow> int" where
  "settled c msg R U tip b =
     (let b = b(msg_From msg := b (msg_From msg) + uint R * msg_GasPrice msg)
      in b(Coinbase c := b (Coinbase c) + uint U * tip))"

lemma settle_Ret:
  assumes c: "sops c = statedb_ops" and e: "sdb_good (evm_StateDB e)" and tip: "effective_tip c rules msg = Ret tip"
    and r: "unat r \<le> unat (msg_GasLimit msg)" and p: "msg_GasLimit msg \<le> p"
  obtains U st1 e1 where
    "settle c rules False msg ret vmerr ((bought msg p)\<lparr>gasRemaining := r\<rparr>) e =
       Ret (Inr \<lparr>UsedGas = U, er_Err = vmerr, ReturnData = ret\<rparr>, st1, e1)"
    "U \<le> msg_GasLimit msg" "st_gp st1 = p - U" "sdb_good (evm_StateDB e1)"
    "vbal (evm_view e1) = settled c msg (msg_GasLimit msg - U) U tip (vbal (evm_view e))"
proof -
  define L where "L = msg_GasLimit msg"
  define q :: u64 where "q = (if \<not> r_IsLondon rules then 2 else 5)"
  define x where "x = (if refund (evm_StateDB e) < (L - r) div q then refund (evm_StateDB e) else (L - r) div q)"
  define R where "R = r + x"
  have R: "unat R \<le> unat L"
    using refund_bounds(2) [of r L q "refund (evm_StateDB e)"] r by (simp add: R_def x_def L_def q_def)
  define U where "U = L - R"
  have U: "U \<le> L" "L - U = R" "unat U = unat L - unat R"
    using R unat_sub_u64 [of R L] by (simp_all add: U_def word_le_nat_alt)
  let ?e1 = "upd (AddBalance (msg_From msg) (uint R * msg_GasPrice msg)) e"
  let ?e2 = "upd (AddBalance (Coinbase c) (uint U * tip)) ?e1"
  have g1: "sdb_good (evm_StateDB ?e1)" using sdb_setter_evo(3) [OF e] sdb_evo_order(3) by (simp add: upd_def) blast
  have g2: "sdb_good (evm_StateDB ?e2)" using sdb_setter_evo(3) [OF g1] sdb_evo_order(3) by (simp add: upd_def) blast
  have b: "vbal (evm_view ?e2) = settled c msg R U tip (vbal (evm_view e))"
    using sdb_bal(2) [OF e] sdb_bal(2) [OF g1] by (simp add: upd_def settled_def Let_def)
  have add: "gp_AddGas R (p - L) = Ret (p - U)"
  proof -
    have pl: "unat (p - L) = unat p - unat L" using p by (intro unat_sub_u64) (simp add: L_def)
    have "unat (MaxUint64 - R) = 2 ^ 64 - 1 - unat R"
      using unat_lt_u64 [of R] by (subst unat_sub_u64)
        (simp_all add: word_le_nat_alt MaxUint64_def unsigned_minus_1_eq_mask mask_eq_exp_minus_1)
    then have "\<not> MaxUint64 - R < p - L"
      using pl R p unat_lt_u64 [of p] by (simp add: word_less_nat_alt word_le_nat_alt L_def)
    moreover have "p - L + R = p - U" by (simp add: U_def)
    ultimately show ?thesis by (simp add: gp_AddGas_def)
  qed
  have ops: "i_AddBalance statedb_ops = AddBalance" "i_GetRefund statedb_ops = refund"
    by (simp_all add: statedb_ops_def GetRefund_def fun_eq_iff)
  have used: "st_gasUsed \<lparr>st_gp = p - L, gasRemaining = r, initialGas = L\<rparr> = L - r"
    "(bought msg p)\<lparr>gasRemaining := r\<rparr> = \<lparr>st_gp = p - L, gasRemaining = r, initialGas = L\<rparr>"
    by (simp_all add: st_gasUsed_def bought_def L_def)
  have refund: "refundGas c q msg ((bought msg p)\<lparr>gasRemaining := r\<rparr>) e =
      Ret (\<lparr>st_gp = p - U, gasRemaining = R, initialGas = L\<rparr>, ?e1)"
    unfolding refundGas_def Let_def used c ops x_def [symmetric] by (simp add: add R_def [symmetric])
  have q: "(if \<not> r_IsLondon rules then RefundQuotient else RefundQuotientEIP3529) = q" by (simp add: q_def)
  have "settle c rules False msg ret vmerr ((bought msg p)\<lparr>gasRemaining := r\<rparr>) e =
      Ret (Inr \<lparr>UsedGas = U, er_Err = vmerr, ReturnData = ret\<rparr>, \<lparr>st_gp = p - U, gasRemaining = R, initialGas = L\<rparr>, ?e2)"
    unfolding settle_def Let_def q refund by (simp add: tip pay_fee_def st_gasUsed_def U_def c ops)
  then show thesis by (rule that) (use U g2 b in \<open>simp_all add: L_def\<close>)
qed

end
