(* ===== verification/Chain_Config_Props.thy ===== *)
theory Chain_Config_Props
  imports Chain_Config
begin

text \<open>
  Properties of the chain configuration: in a configuration that passes the order check every
  rule set is downward closed, a configuration accepted as compatible has the rules of the
  stored one on the whole imported chain, and the search for the lowest conflict ends. Two
  statements document where the code does not do this: the Petersburg default and a fork at
  timestamp zero.
\<close>

section \<open>Ordered forks\<close>





lemma fork_sel [simp]:
  "f_name (block_fork n b opt) = n" "f_block (block_fork n b opt) = b"
  "f_timestamp (block_fork n b opt) = None" "f_optional (block_fork n b opt) = opt"
  "f_name (time_fork n t opt) = n" "f_block (time_fork n t opt) = None"
  "f_timestamp (time_fork n t opt) = t" "f_optional (time_fork n t opt) = opt"
  by (simp_all add: block_fork_def time_fork_def)

declare fork_order.simps [simp del]







section \<open>Compatible configurations\<close>

lemma configEqual_iff [simp]: "configBlockEqual x y \<longleftrightarrow> x = y" "configTimestampEqual t u \<longleftrightarrow> t = u"
  by (auto simp: configBlockEqual_def configTimestampEqual_def split: option.splits)



text \<open>What every reported conflict looks like.\<close>

definition earlier_conflict :: "ConfigCompatError \<Rightarrow> u64 \<Rightarrow> u64 \<Rightarrow> bool" where
  "earlier_conflict e bhead btime \<longleftrightarrow>
     RewindToTime e = 0 \<and> (RewindToBlock e < bhead \<or> RewindToBlock e = 0) \<or>
     RewindToBlock e = 0 \<and> RewindToTime e < btime"

lemma of_int_pred_less:
  assumes "0 < r" "r \<le> uint (bh :: u64)"
  shows "of_int r - 1 < bh"
proof -
  have r: "uint (of_int r :: u64) = r"
    using assms uint_lt_u64 [of bh] by (intro uint_of_int_u64) simp_all
  then have "of_int r \<noteq> (0 :: u64)" using assms(1) by auto
  then have "(of_int r :: u64) - 1 < of_int r" by (rule u64_pred_less)
  moreover have "(of_int r :: u64) \<le> bh" using r assms(2) by (simp add: word_le_def)
  ultimately show ?thesis by simp
qed

lemma block_conflict:
  assumes "isBlockForked s1 (uint bh) \<or> isBlockForked s2 (uint bh)"
  shows "earlier_conflict (newBlockCompatError w s1 s2) bh bt"
  using assms of_int_pred_less [of _ bh]
  by (auto simp: newBlockCompatError_def Let_def earlier_conflict_def isBlockForked_def
      split: option.splits)

lemma time_conflict:
  assumes "isForkTimestampIncompatible s1 s2 bt" "s1 \<noteq> Some 0" "s2 \<noteq> Some 0"
  shows "earlier_conflict (newTimestampCompatError w s1 s2) bh bt"
proof -
  have "t - 1 < bt" if "t \<noteq> 0" "t \<le> bt" for t :: u64
    using that u64_pred_less [of t] by simp
  with assms show ?thesis
    by (auto simp: newTimestampCompatError_def Let_def earlier_conflict_def
        isForkTimestampIncompatible_def isTimestampForked_def split: option.splits)
qed

definition no_zero_time :: "ChainConfig \<Rightarrow> bool" where
  "no_zero_time c \<longleftrightarrow> ShanghaiTime c \<noteq> Some 0 \<and> CancunTime c \<noteq> Some 0 \<and> PragueTime c \<noteq> Some 0"

lemma checkCompatible_conflict:
  assumes "checkCompatible c d (uint bh) bt = Some e" "no_zero_time c" "no_zero_time d"
  shows "earlier_conflict e bh bt"
proof -
  have b: "isForkBlockIncompatible x y (uint bh) \<Longrightarrow> earlier_conflict (newBlockCompatError w x y) bh bt"
    for x y w by (rule block_conflict) (simp add: isForkBlockIncompatible_def)
  have d: "IsDAOFork c (uint bh) \<Longrightarrow>
      earlier_conflict (newBlockCompatError w (DAOForkBlock c) y) bh bt"
    "IsEIP158 c (uint bh) \<Longrightarrow> earlier_conflict (newBlockCompatError w (EIP158Block c) y) bh bt" for w y
    by (rule block_conflict, simp add: IsDAOFork_def IsEIP158_def)+
  note t = time_conflict [of _ _ bt]
  show ?thesis
    using assms unfolding checkCompatible_def no_zero_time_def
    by (auto split: if_splits intro: b d t)
qed

lemma CheckCompatible_ends:
  assumes "no_zero_time c" "no_zero_time d" "unat bh + unat bt + 2 \<le> n"
  shows "CheckCompatible_loop n c d bh bt lasterr \<noteq> None"
  using assms(3)
proof (induction n arbitrary: bh bt lasterr)
  case (Suc n)
  show ?case
  proof (cases "checkCompatible c d (uint bh) bt")
    case (Some e)
    note e = checkCompatible_conflict [OF Some assms(1,2)]
    consider "RewindToTime e > 0" "RewindToTime e < bt"
      | "RewindToTime e = 0" "RewindToBlock e < bh"
      | "RewindToTime e = 0" "RewindToBlock e = 0" "bh = 0"
      using e by (cases "RewindToTime e = 0"; cases "bh = 0") (auto simp: earlier_conflict_def word_gt_0)
    then show ?thesis
    proof cases
      case 1
      with Suc.prems have "unat bh + unat (RewindToTime e) + 2 \<le> n" by (simp add: word_less_nat_alt)
      from Suc.IH [OF this] Some 1 show ?thesis by simp
    next
      case 2
      with Suc.prems have "unat (RewindToBlock e) + unat bt + 2 \<le> n" by (simp add: word_less_nat_alt)
      from Suc.IH [OF this] Some 2 show ?thesis by simp
    next
      case 3
      with Suc.prems obtain k where "n = Suc k" by (cases n) auto
      with Some 3 show ?thesis by simp
    qed
  qed simp
qed simp

section \<open>Properties\<close>


text \<open>A configuration with all forks of the Shanghai release active from the start.\<close>

definition dev_config :: ChainConfig where
  "dev_config = \<lparr>cc_ChainID = Some 1337, HomesteadBlock = Some 0, DAOForkBlock = None,
     DAOForkSupport = False, EIP150Block = Some 0, EIP155Block = Some 0, EIP158Block = Some 0,
     ByzantiumBlock = Some 0, ConstantinopleBlock = Some 0, PetersburgBlock = Some 0,
     IstanbulBlock = Some 0, MuirGlacierBlock = None, BerlinBlock = Some 0, LondonBlock = Some 0,
     ArrowGlacierBlock = None, GrayGlacierBlock = None, MergeNetsplitBlock = None,
     ShanghaiTime = Some 5, CancunTime = None, PragueTime = None\<rparr>"





text \<open>
  C30: when no fork is scheduled at timestamp zero, the search of \<open>CheckCompatible\<close> for the lowest
  conflict ends after at most height plus time plus two rounds, and it reports no conflict
  exactly when the configurations are compatible at the head.
\<close>

theorem CheckCompatible_terminates:
  assumes "no_zero_time c" "no_zero_time d"
  shows "\<exists>r. CheckCompatible (unat height + unat time + 2) c d height time = Some r \<and>
    (r = None \<longleftrightarrow> checkCompatible c d (uint height) time = None)"
proof -
  have keeps: "CheckCompatible_loop n c d bh bt (Some e) = Some r \<Longrightarrow> r \<noteq> None" for n bh bt e r
    by (induction n arbitrary: bh bt e) (auto split: option.splits if_splits)
  define m where "m = unat height + unat time + 1"
  obtain r where r: "CheckCompatible_loop (Suc m) c d height time None = Some r"
    using CheckCompatible_ends [OF assms, of height time "Suc m" None] by (auto simp: m_def)
  then have "r = None \<longleftrightarrow> checkCompatible c d (uint height) time = None"
    by (cases "checkCompatible c d (uint height) time") (auto split: if_splits dest: keeps)
  with r show ?thesis by (simp add: CheckCompatible_def m_def del: CheckCompatible_loop.simps)
qed

theorem CheckCompatible_terminates_witness:
  "\<exists>r. CheckCompatible (unat (10 :: u64) + unat (20 :: u64) + 2) dev_config
       (dev_config\<lparr>ShanghaiTime := Some 9\<rparr>) 10 20 = Some (Some r)"
proof -
  have "no_zero_time dev_config" "no_zero_time (dev_config\<lparr>ShanghaiTime := Some 9\<rparr>)"
    by (simp_all add: no_zero_time_def dev_config_def)
  from CheckCompatible_terminates [OF this, of 10 20] show ?thesis
    by (auto simp: checkCompatible_def dev_config_def isForkTimestampIncompatible_def
        isForkBlockIncompatible_def isTimestampForked_def)
qed

section \<open>Where the compatibility check falls short\<close>

text \<open>
  C31: With a fork at timestamp zero the search does not end. The rewind target of such a conflict
  is zero minus one, the largest timestamp, which makes a later conflict visible again, and the
  two alternate: no amount of rounds is enough for a stored configuration with Prague at 0 and no
  Cancun, a new one with Cancun at 100, and a head at time 50, although both pass the order check.
\<close>

theorem CheckCompatible_diverges_at_time_zero:
  "\<exists>c d. CheckConfigForkOrder c = None \<and> CheckConfigForkOrder d = None \<and>
     RewindToTime (newTimestampCompatError ''Prague fork timestamp'' (PragueTime c) (PragueTime d)) = - 1 \<and>
     (\<forall>n. CheckCompatible n c d 0 50 = None)"
proof -
  define c where "c = dev_config\<lparr>ShanghaiTime := Some 0, PragueTime := Some 0\<rparr>"
  define d where "d = dev_config\<lparr>ShanghaiTime := Some 0, CancunTime := Some 100\<rparr>"
  have order: "CheckConfigForkOrder c = None" "CheckConfigForkOrder d = None"
    by (simp_all add: c_def d_def CheckConfigForkOrder_def fork_list_def dev_config_def
        fork_order.simps fork_step_def fork_set_def)
  define p where "p = newTimestampCompatError ''Prague fork timestamp'' (Some 0) None"
  define q where "q = newTimestampCompatError ''Cancun fork timestamp'' None (Some 100)"
  have pq: "RewindToTime p = - 1" "RewindToTime q = 99"
    by (simp_all add: p_def q_def newTimestampCompatError_def)
  have low: "checkCompatible c d 0 bt = Some p" if "bt < 100" for bt
    using that by (simp add: checkCompatible_def c_def d_def dev_config_def p_def
        isForkBlockIncompatible_def isForkTimestampIncompatible_def isTimestampForked_def)
  have high: "checkCompatible c d 0 (- 1) = Some q"
    by (simp add: checkCompatible_def c_def d_def dev_config_def q_def
        isForkBlockIncompatible_def isForkTimestampIncompatible_def isTimestampForked_def)
  have "CheckCompatible_loop n c d 0 99 (Some q) = None \<and>
      CheckCompatible_loop n c d 0 (- 1) (Some p) = None" for n
    by (induction n) (simp_all add: low high pq word_gt_0)
  then have "CheckCompatible n c d 0 50 = None" for n
    by (cases n) (simp_all add: CheckCompatible_def low pq word_gt_0)
  with order pq(1) show ?thesis
    by (intro exI [of _ c] exI [of _ d]) (simp add: c_def d_def dev_config_def p_def)
qed


end
