(* ===== verification/Transaction_Props.thy ===== *)
theory Transaction_Props
  imports State_Transition_Props Chain_Config_Props
begin

text \<open>
  The properties of applying a transaction, over the lemmas of \<open>State_Transition_Props\<close>: when it is
  accepted, what it costs, and that a rejected one leaves no trace after the usual revert.
\<close>

section \<open>Transactions and blocks\<close>

text \<open>
  A block whose header has a base fee exactly from London on, and a transaction as the decoder and
  the pool let it through: no negative amount, and a size and gas limit within machine range.
\<close>

definition block_ready :: "'tr StateDB vm_cfg \<Rightarrow> ChainConfig \<Rightarrow> bool" where
  "block_ready c cc \<longleftrightarrow>
     sops c = statedb_ops \<and> vm_ready c \<and> (BaseFee c \<noteq> None \<longleftrightarrow> IsLondon cc (BlockNumber c)) \<and>
     (\<forall>bf. BaseFee c = Some bf \<longrightarrow> 0 \<le> bf)"

definition tx_fields_ok :: "Transaction \<Rightarrow> bool" where
  "tx_fields_ok tx \<longleftrightarrow>
     0 \<le> tx_value (inner tx) \<and> 0 \<le> tx_gasTipCap (inner tx) \<and> 0 \<le> tx_gasFeeCap (inner tx) \<and>
     go_slice (tx_data (inner tx)) \<and> unat (tx_gas (inner tx)) < 2 ^ 61"

definition base_fee :: "'tr StateDB vm_cfg \<Rightarrow> int" where
  "base_fee c = (case BaseFee c of None \<Rightarrow> 0 | Some bf \<Rightarrow> bf)"

lemma gasPrice_is_feeCap: "tx_gasPrice d = tx_gasFeeCap d"
  by (cases d) simp_all

lemma message_fields:
  assumes "TransactionToMessage Sender tx bf = Inr msg"
  shows "msg_GasFeeCap msg = Some (tx_gasFeeCap (inner tx))" "msg_GasTipCap msg = Some (tx_gasTipCap (inner tx))"
    "msg_Value msg = tx_value (inner tx)" "msg_GasLimit msg = tx_gas (inner tx)" "msg_Data msg = tx_data (inner tx)"
    "msg_To msg = tx_to (inner tx)" "msg_Nonce msg = tx_nonce (inner tx)" "\<not> msg_SkipAccountChecks msg"
    "msg_AccessList msg = tx_accessList (inner tx)" "Sender tx = Some (msg_From msg)"
    "msg_GasPrice msg = (case bf of None \<Rightarrow> tx_gasFeeCap (inner tx)
       | Some bf \<Rightarrow> min (tx_gasTipCap (inner tx) + bf) (tx_gasFeeCap (inner tx)))"
  using assms by (auto simp: TransactionToMessage_def Let_def BigMin_min gasPrice_is_feeCap split: option.splits)

lemma message_price:
  assumes "TransactionToMessage Sender tx (BaseFee c) = Inr msg" "tx_fields_ok tx" "block_ready c cc"
  shows "msg_GasPrice msg \<le> tx_gasFeeCap (inner tx)" "0 \<le> msg_GasPrice msg"
  using assms(2,3) by (auto simp: message_fields(11) [OF assms(1)] tx_fields_ok_def block_ready_def split: option.split)

text \<open>The fee of the recipient and the part that is burnt make up the price.\<close>

lemma message_tip:
  assumes "TransactionToMessage Sender tx (BaseFee c) = Inr msg" "block_ready c cc"
    "r = chain_Rules cc (BlockNumber c) (Random c \<noteq> None) (BlockTime c)"
  obtains tip where "effective_tip c r msg = Ret tip" "msg_GasPrice msg = tip + base_fee c"
    "tx_fields_ok tx \<Longrightarrow> fee_error c cc (tx_gasFeeCap (inner tx)) (tx_gasTipCap (inner tx)) = None \<Longrightarrow> 0 \<le> tip"
proof (cases "BaseFee c")
  case None
  then have "\<not> IsLondon cc (BlockNumber c)" using assms(2) by (simp add: block_ready_def)
  then show ?thesis using None that [of "msg_GasPrice msg"] message_fields(11) [OF assms(1)]
    by (simp add: effective_tip_def assms(3) chain_Rules_def base_fee_def tx_fields_ok_def)
next
  case (Some bf)
  then have L: "IsLondon cc (BlockNumber c)" using assms(2) by (simp add: block_ready_def)
  show ?thesis
    by (rule that [of "min (tx_gasTipCap (inner tx)) (tx_gasFeeCap (inner tx) - bf)"])
      (use Some L message_fields [OF assms(1)] in \<open>auto simp: effective_tip_def deref_def assms(3)
         chain_Rules_def base_fee_def tx_fields_ok_def fee_error_def BigMin_min min_def split: if_splits\<close>)
qed

section \<open>Sums of balances\<close>

lemma sum_paid: "sum (paid msg b) UNIV = sum b UNIV - uint (msg_GasLimit msg) * msg_GasPrice msg"
  unfolding paid_def sdb_vm.sum_fun_upd by simp

lemma sum_settled:
  "sum (settled c msg R U tip b) UNIV = sum b UNIV + uint R * msg_GasPrice msg + uint U * tip"
  unfolding settled_def Let_def sdb_vm.sum_fun_upd by simp

lemma uint_split: "U \<le> L \<Longrightarrow> uint (L - U :: u64) = uint L - uint U"
  by (simp add: uint_minus_simple_alt word_le_def)

text \<open>What an accepted message leaves behind, by the price of the gas it used.\<close>

definition pays ::
  "'tr StateDB vm_cfg \<Rightarrow> u64 \<Rightarrow> GasPool \<Rightarrow> int \<Rightarrow> ExecutionResult \<Rightarrow> StateTransition \<Rightarrow> 'tr StateDB EVM \<Rightarrow> bool" where
  "pays c L p S res st e' \<longleftrightarrow>
     UsedGas res \<le> L \<and> UsedGas res \<le> p \<and> st_gp st = p - UsedGas res \<and> no_debt (evm_view e') \<and>
     total_supply (evm_view e') + uint (UsedGas res) * base_fee c \<le> S"

lemma accepted_message:
  assumes "message_error c cc msg feeCap tipCap p v = None" "msg_GasPrice msg \<le> feeCap" "0 \<le> msg_Value msg"
  shows "fee_error c cc feeCap tipCap = None" "msg_GasLimit msg \<le> p"
    "uint (msg_GasLimit msg) * msg_GasPrice msg \<le> vbal v (msg_From msg)"
proof -
  have "funds_error msg feeCap p v = None" and "fee_error c cc feeCap tipCap = None"
    using assms(1) by (auto simp: message_error_def precheck_error_def Let_def split: if_splits)
  then show "fee_error c cc feeCap tipCap = None" "msg_GasLimit msg \<le> p"
    "uint (msg_GasLimit msg) * msg_GasPrice msg \<le> vbal v (msg_From msg)"
    using mult_left_mono [OF assms(2), of "uint (msg_GasLimit msg)"] assms(3)
    by (auto simp: funds_error_def split: if_splits)
qed

lemma settle_pays:
  assumes c: "sops c = statedb_ops" and e2: "no_debt (evm_view e2)" "vbal (evm_view e2) = paid msg b"
    and e3: "sdb_vm.evo_evm e2 e3" and g: "unat g \<le> unat (msg_GasLimit msg)" and L: "msg_GasLimit msg \<le> p"
    and tip: "effective_tip c r msg = Ret tip" "msg_GasPrice msg = tip + base_fee c" "0 \<le> tip" "0 \<le> msg_GasPrice msg"
  shows "safe (settle c r False msg ret vmerr ((bought msg p)\<lparr>gasRemaining := g\<rparr>) e3)
    (\<lambda>(res, st, e'). sdb_good (evm_StateDB e') \<and>
       (\<exists>x. res = Inr x \<and> pays c (msg_GasLimit msg) p (sum b UNIV) x st e'))"
proof -
  have good3: "sdb_good (evm_StateDB e3)" using sdb_vm.evo_evm_ok [OF e3] by (simp add: sdb_vm.ok_evm_def)
  have e3: "no_debt (evm_view e3)" "total_supply (evm_view e3) \<le> total_supply (evm_view e2)"
    using e3 e2(1) by (simp_all add: sdb_vm.evo_evm_def sdb_vm.fair_def sdb_vm.sound_def sdb_vm.total_def
        no_debt_def total_supply_def)
  obtain U st4 e4 where S: "settle c r False msg ret vmerr ((bought msg p)\<lparr>gasRemaining := g\<rparr>) e3 =
      Ret (Inr \<lparr>UsedGas = U, er_Err = vmerr, ReturnData = ret\<rparr>, st4, e4)"
    "U \<le> msg_GasLimit msg" "st_gp st4 = p - U" "sdb_good (evm_StateDB e4)"
    "vbal (evm_view e4) = settled c msg (msg_GasLimit msg - U) U tip (vbal (evm_view e3))"
    by (rule settle_Ret [OF c good3 tip(1) g L])
  have "no_debt (evm_view e4)"
    using e3(1) tip(3,4) unfolding no_debt_def S(5) settled_def Let_def by simp
  moreover have "total_supply (evm_view e4) + uint U * base_fee c \<le> sum b UNIV"
    using e3(2) tip(2) unfolding total_supply_def S(5) sum_settled e2(2) sum_paid uint_split [OF S(2)]
    by (simp add: algebra_simps)
  ultimately show ?thesis using S L by (simp add: pays_def)
qed

lemma ApplyMessage_pays:
  fixes e :: "'tr StateDB EVM"
  assumes r: "block_ready c cc" and e: "sdb_good (evm_StateDB e)" "no_debt (evm_view e)"
    and m: "TransactionToMessage Sender tx (BaseFee c) = Inr msg" and tx: "tx_fields_ok tx" "unat (tx_gas (inner tx)) < n"
  defines "err \<equiv> \<lambda>p. message_error c cc msg (tx_gasFeeCap (inner tx)) (tx_gasTipCap (inner tx)) p (evm_view e)"
  shows "safe (ApplyMessage c cc False (interp_Run (fork_table c) n) msg p e) (\<lambda>(r, st, e').
    sdb_good (evm_StateDB e') \<and>
    (case r of Inl x \<Rightarrow> err p = Some x
     | Inr x \<Rightarrow> err p = None \<and> pays c (tx_gas (inner tx)) p (total_supply (evm_view e)) x st e'))"
proof -
  note M = message_fields [OF m] and P = message_price [OF m tx(1) r]
  have c: "sops c = statedb_ops" "vm_ready c" and b: "IsLondon cc (BlockNumber c) \<longrightarrow> BaseFee c \<noteq> None"
    using r by (simp_all add: block_ready_def)
  have F: "0 \<le> msg_Value msg" "go_slice (msg_Data msg)" "unat (msg_GasLimit msg) < 2 ^ 61"
    using tx(1) by (simp_all add: tx_fields_ok_def M)
  let ?R = "chain_Rules cc (BlockNumber c) (Random c \<noteq> None) (BlockTime c)"
  let ?run = "interp_Run (fork_table c) n"
  show ?thesis
  proof (rule TransitionDb_cases [OF c(1) e(1) M(1,2) b, of p])
    fix g and e1 :: "'tr StateDB EVM"
    let ?e2 = "upd (Prepare (r_IsBerlin ?R) (r_IsShanghai ?R) (msg_From msg) (Coinbase c) (msg_To msg)
               (ActivePrecompiles ?R) (msg_AccessList msg)) e1"
    assume err: "message_error c cc msg (tx_gasFeeCap (inner tx)) (tx_gasTipCap (inner tx)) p (evm_view e) = None"
      and e1: "sdb_evo (evm_StateDB e) (evm_StateDB e1)" "g \<le> msg_GasLimit msg"
        "vbal (evm_view e1) = paid msg (vbal (evm_view e))"
      and eq: "ApplyMessage c cc False ?run msg p e = bind_outcome (execute_message c ?run msg (msg_GasLimit msg - g) ?e2)
           (\<lambda>((ret, gas, vmerr), e). settle c ?R False msg ret vmerr ((bought msg p)\<lparr>gasRemaining := gas\<rparr>) e)"
    note A = accepted_message [OF err P(1) F(1)]
    have e2: "sdb_good (evm_StateDB ?e2)" "vbal (evm_view ?e2) = paid msg (vbal (evm_view e))"
      using Prepare_good [OF sdb_evo_order(3) [OF e1(1)] refl] e1(3) by (simp_all add: upd_def)
    have debt2: "no_debt (evm_view ?e2)" using e(2) A(3) unfolding no_debt_def e2(2) paid_def by simp
    have gas: "unat (msg_GasLimit msg - g) \<le> unat (msg_GasLimit msg)" using unat_sub_u64 [OF e1(2)] by simp
    have ex: "safe (execute_message c ?run msg (msg_GasLimit msg - g) ?e2) (executed (msg_GasLimit msg - g) ?e2)"
      by (rule execute_message_safe [OF c(1) e2(1) sdb_vm.fork_run_good [OF c] _ _ F(2,1)])
        (use gas F(3) tx(2) M(4) in simp_all)
    obtain tip where tip: "effective_tip c ?R msg = Ret tip" "msg_GasPrice msg = tip + base_fee c" "0 \<le> tip"
      using message_tip [OF m r refl] tx(1) A(1) by metis
    have "safe (settle c ?R False msg ret vmerr ((bought msg p)\<lparr>gasRemaining := g'\<rparr>) e3)
        (\<lambda>(res, st, e'). sdb_good (evm_StateDB e') \<and>
           (\<exists>x. res = Inr x \<and> pays c (msg_GasLimit msg) p (sum (vbal (evm_view e)) UNIV) x st e'))"
      if "executed (msg_GasLimit msg - g) ?e2 ((ret, g', vmerr), e3)" for ret g' vmerr e3
      using that gas by (intro settle_pays [OF c(1) debt2 e2(2) _ _ A(2) tip P(2)]) (auto simp: executed_def)
    note S = safe_mono [OF this]
    show ?thesis
      unfolding eq
      by (rule sdb_vm.safe_bindI [OF ex], clarify, erule S) (use err M(4) in \<open>auto simp: err_def total_supply_def\<close>)
  qed (simp add: sdb_evo_order(3) err_def)
qed

section \<open>The conditions of acceptance\<close>

lemma bit_len_le: "bit_len n \<le> k \<longleftrightarrow> n < 2 ^ k"
proof (induction n arbitrary: k rule: bit_len.induct)
  case (1 n)
  show ?case
  proof (cases "n = 0")
    case False
    then have n: "bit_len n = Suc (bit_len (n div 2))" by (simp add: bit_len.simps [of n])
    show ?thesis
    proof (cases k)
      case (Suc j)
      with 1 [OF False, of j] n show ?thesis by auto
    qed (use False n in simp)
  qed (simp add: bit_len.simps [of 0])
qed

lemma big_BitLen_le: "0 \<le> x \<Longrightarrow> big_BitLen x \<le> k \<longleftrightarrow> x < 2 ^ k"
  by (simp add: big_BitLen_def bit_len_le nat_less_iff)

text \<open>The validity of a transaction of \<open>from\<close> in the view \<open>v\<close>, with \<open>p\<close> units of gas left in the block.\<close>

definition tx_valid ::
  "'tr StateDB vm_cfg \<Rightarrow> ChainConfig \<Rightarrow> TxData \<Rightarrow> Address \<Rightarrow> GasPool \<Rightarrow> 'tr sview \<Rightarrow> bool" where
  "tx_valid c cc d from p v \<longleftrightarrow>
     (let r = chain_Rules cc (BlockNumber c) (Random c \<noteq> None) (BlockTime c); creation = (tx_to d = None)
      in acct_nonce v from = tx_nonce d \<and> tx_nonce d \<noteq> MaxUint64 \<and>
         acct_codehash v from \<in> {0, cl_Keccak256 (clib c) []} \<and>
         (\<forall>bf. BaseFee c = Some bf \<longrightarrow> tx_gasFeeCap d < 2 ^ 256 \<and> tx_gasTipCap d \<le> tx_gasFeeCap d \<and> bf \<le> tx_gasFeeCap d) \<and>
         uint (tx_gas d) * tx_gasFeeCap d + tx_value d \<le> vbal v from \<and> tx_gas d \<le> p \<and>
         intrinsic_price (tx_data d) (tx_accessList d) creation (r_IsHomestead r) (r_IsIstanbul r) (r_IsShanghai r)
           \<le> unat (tx_gas d) \<and>
         (r_IsShanghai r \<and> creation \<longrightarrow> length (tx_data d) \<le> 49152))"

lemma nonce_max: "n + 1 < n \<longleftrightarrow> n = MaxUint64" for n :: u64
proof -
  have m: "unat MaxUint64 = 2 ^ 64 - 1" by (simp add: MaxUint64_def unsigned_minus_1_eq_mask mask_eq_exp_minus_1)
  show ?thesis
    using unat_lt_u64 [of n] m by (cases "unat n = 2 ^ 64 - 1") (auto simp: word_less_nat_alt unat_add_u64 word_eq_unat)
qed

lemma message_error_None:
  assumes m: "TransactionToMessage Sender tx (BaseFee c) = Inr msg" and r: "block_ready c cc" and tx: "tx_fields_ok tx"
    and sz: "length (tx_data (inner tx)) < 2 ^ 50" "length (tx_accessList (inner tx)) < 2 ^ 50"
      "StorageKeys (tx_accessList (inner tx)) < 2 ^ 50"
  shows "message_error c cc msg (tx_gasFeeCap (inner tx)) (tx_gasTipCap (inner tx)) p v = None \<longleftrightarrow>
    tx_valid c cc (inner tx) (msg_From msg) p v"
proof -
  note M = message_fields [OF m] and P = message_price [OF m tx r]
  define d where "d = inner tx"
  let ?R = "chain_Rules cc (BlockNumber c) (Random c \<noteq> None) (BlockTime c)"
  let ?f = "tx_gasFeeCap d" and ?t = "tx_gasTipCap d"
  have nonneg: "0 \<le> ?f" "0 \<le> ?t" "0 \<le> tx_value d" using tx by (simp_all add: tx_fields_ok_def d_def)
  have acc: "account_error c msg v = None \<longleftrightarrow> acct_nonce v (msg_From msg) = tx_nonce d \<and> tx_nonce d \<noteq> MaxUint64 \<and>
      acct_codehash v (msg_From msg) \<in> {0, cl_Keccak256 (clib c) []}"
    by (auto simp: account_error_def M(7,8) nonce_max d_def Let_def)
  have fee: "fee_error c cc ?f ?t = None \<longleftrightarrow>
      (\<forall>bf. BaseFee c = Some bf \<longrightarrow> ?f < 2 ^ 256 \<and> ?t \<le> ?f \<and> bf \<le> ?f)"
  proof (cases "BaseFee c")
    case None
    then show ?thesis using r by (simp add: fee_error_def block_ready_def)
  next
    case (Some bf)
    then have L: "IsLondon cc (BlockNumber c)" using r by (simp add: block_ready_def)
    have "\<not> 256 < big_BitLen ?f \<longleftrightarrow> ?f < 2 ^ 256" "\<not> 256 < big_BitLen ?t \<longleftrightarrow> ?t < 2 ^ 256"
      using big_BitLen_le nonneg by (simp_all only: not_less)
    then show ?thesis using L Some by (simp add: fee_error_def not_less) linarith
  qed
  have funds: "funds_error msg ?f p v = None \<longleftrightarrow>
      uint (tx_gas d) * ?f + tx_value d \<le> vbal v (msg_From msg) \<and> tx_gas d \<le> p"
    by (auto simp: funds_error_def M(3,4) d_def)
  obtain g where g: "IntrinsicGas (tx_data d) (tx_accessList d) (tx_to d = None) (r_IsHomestead ?R) (r_IsIstanbul ?R)
      (r_IsShanghai ?R) = Inr g"
    "unat g = intrinsic_price (tx_data d) (tx_accessList d) (tx_to d = None) (r_IsHomestead ?R) (r_IsIstanbul ?R) (r_IsShanghai ?R)"
    using IntrinsicGas_closed [OF sz] by (metis d_def)
  have left: "tx_value d \<le> paid msg (vbal v) (msg_From msg)" if "uint (tx_gas d) * ?f + tx_value d \<le> vbal v (msg_From msg)"
    using that mult_left_mono [OF P(1), of "uint (tx_gas d)"] by (simp add: paid_def M(4) d_def)
  have "message_error c cc msg ?f ?t p v = None \<longleftrightarrow>
      account_error c msg v = None \<and> fee_error c cc ?f ?t = None \<and> funds_error msg ?f p v = None \<and>
      g \<le> tx_gas d \<and> \<not> (0 < tx_value d \<and> paid msg (vbal v) (msg_From msg) < tx_value d) \<and>
      \<not> (r_IsShanghai ?R \<and> tx_to d = None \<and> 49152 < length (tx_data d))"
    unfolding message_error_def Let_def M(3-6,9) d_def [symmetric] g(1) sum.case
    by (cases "account_error c msg v"; cases "fee_error c cc ?f ?t"; cases "funds_error msg ?f p v")
      (auto simp: precheck_error_def not_less)
  then show ?thesis
    unfolding acc fee funds tx_valid_def Let_def d_def [symmetric] g(2) [symmetric] word_le_nat_alt
    using left by (auto simp: not_less word_le_nat_alt)
qed

section \<open>Properties\<close>

text \<open>
  C21: The intrinsic gas of a message is the sum the protocol prescribes: the base price, the price of
  every zero and non-zero byte of data, of every word of init code from Shanghai on, and of every
  address and storage key of the access list. For data and access lists of up to 2^50 entries the
  computation in 64-bit words never wraps around and never reports an overflow.
\<close>

theorem intrinsic_gas_closed_form:
  assumes "length data < 2 ^ 50" "length al < 2 ^ 50" "StorageKeys al < 2 ^ 50"
  shows "\<exists>g. IntrinsicGas data al isCreation isHomestead isEIP2028 isEIP3860 = Inr g \<and>
    unat g = intrinsic_price data al isCreation isHomestead isEIP2028 isEIP3860"
  using assms by (rule IntrinsicGas_closed)

theorem intrinsic_gas_closed_form_witness:
  "\<exists>g. IntrinsicGas [0, 7, 0] [(5, [1, 2])] True True True True = Inr g \<and>
     unat g = 53000 + (16 + 2 * 4 + 2) + 2400 + 2 * 1900"
  using intrinsic_gas_closed_form [of "[0, 7, 0]" "[(5, [1, 2])]" True True True True]
  by (simp add: intrinsic_price_def data_price_def StorageKeys_def)

text \<open>
  C3: A transaction pays for its gas and creates no ether. Applied to a state in which no account is
  in debt, an accepted transaction uses no more gas than its limit and than the block has left, takes
  exactly the gas it used from the block, leaves no account in debt, and lowers the sum of all
  balances by at least the base fee of every unit of gas it used: whatever its code does, the price
  of the gas, the refund and the tip of the fee recipient balance.
\<close>

theorem transaction_pays_for_gas:
  fixes e :: "'tr StateDB EVM"
  assumes "block_ready c cc" "sdb_good (evm_StateDB e)" "no_debt (evm_view e)"
    "TransactionToMessage Sender tx (BaseFee c) = Inr msg" "tx_fields_ok tx" "unat (tx_gas (inner tx)) < n"
  shows "safe (ApplyMessage c cc False (interp_Run (fork_table c) n) msg p e) (\<lambda>(r, st, e').
    sdb_good (evm_StateDB e') \<and>
    (case r of Inl err \<Rightarrow> message_error c cc msg (tx_gasFeeCap (inner tx)) (tx_gasTipCap (inner tx)) p (evm_view e) = Some err
     | Inr res \<Rightarrow>
         UsedGas res \<le> tx_gas (inner tx) \<and> UsedGas res \<le> p \<and> st_gp st = p - UsedGas res \<and>
         no_debt (evm_view e') \<and>
         total_supply (evm_view e') + uint (UsedGas res) * base_fee c \<le> total_supply (evm_view e)))"
  by (rule safe_mono [OF ApplyMessage_pays [OF assms]]) (auto simp: pays_def split: sum.splits)

section \<open>A funded sender\<close>

definition rich_machine :: "unit StateDB EVM" where
  "rich_machine = upd (AddBalance 5 1000000) toy_machine"

text \<open>A plain call from account 5 to account 6, paying at most 10 per unit of gas.\<close>

definition toy_tx :: Transaction where
  "toy_tx =
     \<lparr>inner = DynamicFee \<lparr>dt_ChainID = 1, dt_Nonce = 0, dt_GasTipCap = 1, dt_GasFeeCap = 10, dt_Gas = 21000,
        dt_To = Some 6, dt_Value = 12, dt_Data = [], dt_AccessList = [], dt_V = 0, dt_R = 0, dt_S = 0\<rparr>, tx_time = 0\<rparr>"

definition toy_msg :: Message where
  "toy_msg =
     \<lparr>msg_To = Some 6, msg_From = 5, msg_Nonce = 0, msg_Value = 12, msg_GasLimit = 21000, msg_GasPrice = 8,
      msg_GasFeeCap = Some 10, msg_GasTipCap = Some 1, msg_Data = [], msg_AccessList = [], msg_SkipAccountChecks = False\<rparr>"

lemma toy_block: "block_ready toy_cfg dev_config"
  using toy_ready by (simp add: block_ready_def) (simp add: toy_cfg_def IsLondon_def isBlockForked_def dev_config_def)

lemma toy_message: "TransactionToMessage (\<lambda>_. Some 5) toy_tx (BaseFee toy_cfg) = Inr toy_msg"
  by (simp add: TransactionToMessage_def toy_tx_def toy_cfg_def toy_msg_def BigMin_def)

lemma toy_tx_ok: "tx_fields_ok toy_tx" "unat (tx_gas (inner toy_tx)) = 21000"
  by (simp_all add: tx_fields_ok_def toy_tx_def)

lemma rich_good: "sdb_good (evm_StateDB rich_machine)" "no_debt (evm_view rich_machine)"
  "vbal (evm_view rich_machine) = (\<lambda>_. 0)(5 := 1000000)"
proof -
  show "sdb_good (evm_StateDB rich_machine)"
    using sdb_setter_evo(3) [OF toy_good] sdb_evo_order(3) by (simp add: rich_machine_def upd_def) blast
  have "vbal (evm_view toy_machine) = (\<lambda>_. 0)"
    by (simp add: fun_eq_iff vbal_def toy_machine_def new_machine_def live_acct_def toy_state_empty)
  then show "vbal (evm_view rich_machine) = (\<lambda>_. 0)(5 := 1000000)"
    using sdb_bal(2) [OF toy_good] by (simp add: rich_machine_def upd_def)
  then show "no_debt (evm_view rich_machine)" by (simp add: no_debt_def)
qed

theorem transaction_pays_for_gas_witness:
  "safe (ApplyMessage toy_cfg dev_config False (interp_Run (fork_table toy_cfg) 30000) toy_msg 100000 rich_machine) (\<lambda>(r, st, e').
    sdb_good (evm_StateDB e') \<and>
    (case r of Inl err \<Rightarrow> message_error toy_cfg dev_config toy_msg 10 1 100000 (evm_view rich_machine) = Some err
     | Inr res \<Rightarrow>
         UsedGas res \<le> 21000 \<and> UsedGas res \<le> 100000 \<and> st_gp st = 100000 - UsedGas res \<and>
         no_debt (evm_view e') \<and>
         total_supply (evm_view e') + uint (UsedGas res) * base_fee toy_cfg \<le> total_supply (evm_view rich_machine)))"
proof -
  have "tx_gasFeeCap (inner toy_tx) = 10" "tx_gasTipCap (inner toy_tx) = 1" "tx_gas (inner toy_tx) = 21000"
    by (simp_all add: toy_tx_def)
  note f = this
  show ?thesis
    using transaction_pays_for_gas [OF toy_block rich_good(1,2) toy_message toy_tx_ok(1), of 30000 100000] toy_tx_ok(2)
    unfolding f by simp
qed

text \<open>
  C5: Acceptance is exactly validity. A transaction is executed if and only if its nonce is that of
  its sender and not the largest one, its sender is not a contract, its fee cap fits 256 bits and is
  at least the base fee and the tip, its sender can pay the gas limit at the fee cap and the value,
  the block has its gas limit left, the limit covers the intrinsic gas, and init code is not too
  long. The separate check for the transferred value never rejects it.
\<close>

theorem transaction_accepted_iff_valid:
  assumes "block_ready c cc" "sdb_good (evm_StateDB e)" "no_debt (evm_view e)"
    "TransactionToMessage Sender tx (BaseFee c) = Inr msg" "tx_fields_ok tx" "unat (tx_gas (inner tx)) < n"
    "length (tx_data (inner tx)) < 2 ^ 50" "length (tx_accessList (inner tx)) < 2 ^ 50"
    "StorageKeys (tx_accessList (inner tx)) < 2 ^ 50"
  shows "safe (ApplyMessage c cc False (interp_Run (fork_table c) n) msg p e) (\<lambda>(r, st, e').
    (\<exists>res. r = Inr res) \<longleftrightarrow> tx_valid c cc (inner tx) (msg_From msg) p (evm_view e))"
proof (rule safe_mono [OF ApplyMessage_pays [OF assms(1-6)]], goal_cases)
  case (1 y)
  obtain r st e' where y: "y = (r, st, e')" by (cases y) auto
  show ?case using 1 unfolding y message_error_None [OF assms(4,1,5,7-9), symmetric] by (cases r) auto
qed

theorem transaction_accepted_iff_valid_witness:
  "safe (ApplyMessage toy_cfg dev_config False (interp_Run (fork_table toy_cfg) 30000) toy_msg 100000 rich_machine)
     (\<lambda>(r, st, e'). (\<exists>res. r = Inr res) \<longleftrightarrow> tx_valid toy_cfg dev_config (inner toy_tx) 5 100000 (evm_view rich_machine))"
proof -
  have "tx_data (inner toy_tx) = []" "tx_accessList (inner toy_tx) = []" "msg_From toy_msg = 5"
    by (simp_all add: toy_tx_def toy_msg_def)
  with transaction_accepted_iff_valid [OF toy_block rich_good(1,2) toy_message toy_tx_ok(1), of 30000 100000] toy_tx_ok(2)
  show ?thesis by (simp add: StorageKeys_def)
qed

text \<open>
  C6: A rejected transaction leaves no trace. When applying a message fails with a consensus error,
  be it before or after the gas has been bought, going back to a snapshot taken just before restores
  everything that can be seen of the state; this is what block building relies on when it skips the
  transaction.
\<close>

theorem rejected_transaction_undone:
  assumes "block_ready c cc" "sdb_good s" "Snapshot s = (i, s1)" "evm_StateDB e = s1"
    "TransactionToMessage Sender tx (BaseFee c) = Inr msg"
    "ApplyMessage c cc False run msg p e = Ret (Inl err, st, e')"
  shows "\<exists>t. RevertToSnapshot i (evm_StateDB e') = Some t \<and> view t = view s"
proof -
  note M = message_fields [OF assms(5)]
  have c: "sops c = statedb_ops" and b: "IsLondon cc (BlockNumber c) \<longrightarrow> BaseFee c \<noteq> None"
    using assms(1) by (simp_all add: block_ready_def)
  have e: "sdb_good (evm_StateDB e)" using sdb_evo_order(3) [OF sdb_Snapshot_evo(1) [OF assms(2,3)]] assms(4) by simp
  have "sdb_evo (evm_StateDB e) (evm_StateDB e')"
  proof (rule TransitionDb_cases [OF c e M(1,2) b, of p])
    fix g e1 assume "ApplyMessage c cc False run msg p e =
         bind_outcome (execute_message c run msg (msg_GasLimit msg - g)
            (upd (Prepare (r_IsBerlin (chain_Rules cc (BlockNumber c) (Random c \<noteq> None) (BlockTime c)))
               (r_IsShanghai (chain_Rules cc (BlockNumber c) (Random c \<noteq> None) (BlockTime c))) (msg_From msg) (Coinbase c) (msg_To msg)
               (ActivePrecompiles (chain_Rules cc (BlockNumber c) (Random c \<noteq> None) (BlockTime c))) (msg_AccessList msg)) e1))
           (\<lambda>((ret, gas, vmerr), e). settle c (chain_Rules cc (BlockNumber c) (Random c \<noteq> None) (BlockTime c)) False msg ret vmerr
              ((bought msg p)\<lparr>gasRemaining := gas\<rparr>) e)"
    with assms(6) show ?thesis by (auto simp: settle_def Let_def split: prod.splits)
  qed (use assms(6) in simp)
  with sdb_Revert [OF assms(2,3), of "evm_StateDB e'"] assms(4) show ?thesis by blast
qed

lemma poor_rejected:
  "\<exists>st e'. ApplyMessage toy_cfg dev_config False run toy_msg 100000
      (toy_machine\<lparr>evm_StateDB := snd (Snapshot toy_state)\<rparr>) = Ret (Inl ErrInsufficientFunds, st, e')"
proof -
  let ?s = "snd (Snapshot toy_state)" and ?e = "toy_machine\<lparr>evm_StateDB := snd (Snapshot toy_state)\<rparr>"
  have s0: "sdb_good toy_state" using toy_good by (simp add: toy_machine_def new_machine_def)
  have s1: "sdb_good ?s" "view ?s = view toy_state"
    using sdb_Snapshot_evo [OF s0, of "fst (Snapshot toy_state)" ?s] sdb_evo_order(3) by simp_all
  have v: "live_acct (view toy_state) a = None" for a by (simp add: live_acct_def toy_state_empty)
  note M = message_fields [OF toy_message]
  have "message_error toy_cfg dev_config toy_msg 10 1 100000 (evm_view ?e) = Some ErrInsufficientFunds"
    by (simp add: message_error_def precheck_error_def account_error_def fee_error_def funds_error_def s1(2) v
        acct_nonce_def acct_codehash_def vbal_def)
      (simp add: toy_msg_def toy_cfg_def big_BitLen_def bit_len.simps)
  then show ?thesis
    using TransitionDb_cases [OF _ _ M(1,2), of toy_cfg ?e dev_config 100000 run] toy_block s1(1)
    by (simp add: block_ready_def toy_tx_def) metis
qed

theorem rejected_transaction_undone_witness:
  "\<exists>st e' t. ApplyMessage toy_cfg dev_config False (interp_Run (fork_table toy_cfg) 30000) toy_msg 100000
      (toy_machine\<lparr>evm_StateDB := snd (Snapshot toy_state)\<rparr>) = Ret (Inl ErrInsufficientFunds, st, e') \<and>
     RevertToSnapshot (fst (Snapshot toy_state)) (evm_StateDB e') = Some t \<and> view t = view toy_state"
proof -
  have s0: "sdb_good toy_state" using toy_good by (simp add: toy_machine_def new_machine_def)
  obtain st e' where r: "ApplyMessage toy_cfg dev_config False (interp_Run (fork_table toy_cfg) 30000) toy_msg 100000
      (toy_machine\<lparr>evm_StateDB := snd (Snapshot toy_state)\<rparr>) = Ret (Inl ErrInsufficientFunds, st, e')"
    using poor_rejected by blast
  from rejected_transaction_undone [OF toy_block s0 _ _ toy_message r, of "fst (Snapshot toy_state)" "snd (Snapshot toy_state)"]
  show ?thesis using r by auto
qed

text \<open>
  C22: The three computations of the fee agree. For every kind of transaction and every non-negative
  base fee, the price a message pays per unit of gas is the effective gas price of the transaction
  data, which is the base fee plus the effective tip that transaction ordering compares; and the tip
  is flagged as an error exactly when the fee cap is below the base fee.
\<close>

theorem fee_computations_agree:
  assumes "0 \<le> bf" "TransactionToMessage Sender tx (Some bf) = Inr msg" "0 \<le> tx_gasTipCap (inner tx)"
  shows "msg_GasPrice msg = effectiveGasPrice (inner tx) (Some bf) \<and>
    msg_GasPrice msg = EffectiveGasTipValue tx (Some bf) + bf \<and>
    (snd (EffectiveGasTip tx (Some bf)) \<longleftrightarrow> tx_gasFeeCap (inner tx) < bf)"
proof -
  have p: "msg_GasPrice msg = min (tx_gasTipCap (inner tx) + bf) (tx_gasFeeCap (inner tx))"
    using message_fields(11) [OF assms(2)] by simp
  show ?thesis
    using assms(1) by (cases "inner tx") (auto simp: p EffectiveGasTipValue_def EffectiveGasTip_Some min_def Let_def)
qed

theorem fee_computations_agree_witness:
  "msg_GasPrice toy_msg = 8 \<and> effectiveGasPrice (inner toy_tx) (Some 7) = 8 \<and>
   EffectiveGasTipValue toy_tx (Some 7) = 1"
proof -
  have "BaseFee toy_cfg = Some 7" "tx_gasTipCap (inner toy_tx) = 1" "msg_GasPrice toy_msg = 8"
    by (simp_all add: toy_cfg_def toy_tx_def toy_msg_def)
  with fee_computations_agree [of 7 "\<lambda>_. Some 5" toy_tx toy_msg] toy_message show ?thesis by simp
qed

end
