(* ===== verification/VM_Tables.thy ===== *)
theory VM_Tables
  imports VM_Interpreter
begin

text \<open>
  The instruction sets are well-typed tables: every entry that sizes memory is priced for it, and the
  stack bounds of every entry fit the 1024-element stack, for every fork and every list of extra EIPs.
\<close>

definition entry_ok :: "'st operation \<Rightarrow> bool" where
  "entry_ok op \<longleftrightarrow> (memorySize op \<noteq> None \<longrightarrow> dynamicGas op \<noteq> None) \<and> op_minStack op \<le> 17 \<and>
     1023 \<le> op_maxStack op \<and> op_maxStack op \<le> 1024 + op_minStack op"

definition table_ok :: "'st JumpTable \<Rightarrow> bool" where
  "table_ok jt \<longleftrightarrow> (\<forall>b. entry_ok (jt b))"

named_theorems table_oks

lemma entry_ok_static [table_oks]: "pops \<le> 17 \<Longrightarrow> push \<le> Suc pops \<Longrightarrow> entry_ok (static f g pops push)"
  by (auto simp: entry_ok_def static_def minStack_def maxStack_def StackLimit_def)

lemma entry_ok_dynamic [table_oks]: "pops \<le> 17 \<Longrightarrow> push \<le> Suc pops \<Longrightarrow> entry_ok (dynamic f g pops push d ms)"
  by (auto simp: entry_ok_def dynamic_def minStack_def maxStack_def StackLimit_def)

lemma entry_ok_undefined [table_oks]: "entry_ok undefined_operation"
  by (simp add: entry_ok_def undefined_operation_def maxStack_def StackLimit_def)

lemma table_ok_upd [table_oks]: "table_ok jt \<Longrightarrow> entry_ok op \<Longrightarrow> table_ok (jt(b := op))"
  by (simp add: table_ok_def)

lemma table_ok_set_gas [table_oks]: "table_ok jt \<Longrightarrow> table_ok (set_gas op g jt)"
  by (simp add: table_ok_def set_gas_def entry_ok_def)

lemma table_ok_set_dynamic [table_oks]: "table_ok jt \<Longrightarrow> table_ok (set_dynamic op g jt)"
  by (simp add: table_ok_def set_dynamic_def entry_ok_def)

lemma table_ok_reprice [table_oks]: "table_ok jt \<Longrightarrow> table_ok (reprice op g d jt)"
  by (simp add: reprice_def table_oks)

lemma table_ok_frontier [table_oks]: "table_ok (newFrontierInstructionSet c)"
proof -
  have "list_all (\<lambda>(b, op). entry_ok op) (frontier_arith c)" by (simp add: frontier_arith_def table_oks)
  moreover have "list_all (\<lambda>(b, op). entry_ok op) (frontier_env c)" by (simp add: frontier_env_def table_oks)
  moreover have "list_all (\<lambda>(b, op). entry_ok op) (frontier_flow c)" by (simp add: frontier_flow_def table_oks)
  moreover have "list_all (\<lambda>(b, op). entry_ok op) (frontier_system c)" by (simp add: frontier_system_def table_oks)
  moreover have "list_all (\<lambda>(b, op). entry_ok op) (frontier_push c)"
    by (simp add: frontier_push_def list_all_iff table_oks)
  moreover have "list_all (\<lambda>(b, op). entry_ok op) frontier_dup" "list_all (\<lambda>(b, op). entry_ok op) frontier_swap"
    by (auto simp: frontier_dup_def frontier_swap_def list_all_iff entry_ok_def minDupStack_def maxDupStack_def
        minSwapStack_def maxSwapStack_def minStack_def maxStack_def StackLimit_def)
  ultimately have "entry_ok op" if "map_of (frontier_table c) b = Some op" for b op
    using map_of_SomeD [OF that] by (auto simp: frontier_table_def list_all_iff)
  then show ?thesis by (simp add: table_ok_def newFrontierInstructionSet_def table_oks split: option.split)
qed

lemma table_ok_enable [table_oks]:
  assumes "table_ok jt"
  shows "table_ok (enable1884 c jt)" "table_ok (enable1344 c jt)" "table_ok (enable2200 c jt)"
    "table_ok (enable2929 c jt)" "table_ok (enable3529 c jt)" "table_ok (enable3198 c jt)"
    "table_ok (enable1153 c jt)" "table_ok (enable3855 jt)" "table_ok (enable3860 c jt)"
  using assms
  by (simp_all add: enable1884_def enable1344_def enable2200_def enable2929_def enable3529_def enable3198_def
      enable1153_def enable3855_def enable3860_def table_oks)

lemma table_ok_forks [table_oks]:
  "table_ok (newHomesteadInstructionSet c)" "table_ok (newTangerineWhistleInstructionSet c)"
  "table_ok (newSpuriousDragonInstructionSet c)" "table_ok (newByzantiumInstructionSet c)"
  "table_ok (newConstantinopleInstructionSet c)" "table_ok (newIstanbulInstructionSet c)"
  "table_ok (newBerlinInstructionSet c)" "table_ok (newLondonInstructionSet c)"
  "table_ok (newMergeInstructionSet c)" "table_ok (newShanghaiInstructionSet c)"
  by (simp_all add: newHomesteadInstructionSet_def newTangerineWhistleInstructionSet_def
      newSpuriousDragonInstructionSet_def newByzantiumInstructionSet_def newConstantinopleInstructionSet_def
      newIstanbulInstructionSet_def newBerlinInstructionSet_def newLondonInstructionSet_def
      newMergeInstructionSet_def newShanghaiInstructionSet_def table_oks)






text \<open>
  Looking up the instruction set of the chain's
  own rules gives the table an interpreter starts with, and fails exactly for the two forks that have
  no instruction set yet, for which it names the later one and gives the latest table there is.
\<close>

lemma lookup_agrees_with_interpreter:
  assumes "r_IsCancun (chainRules c) \<or> r_IsPrague (chainRules c) \<longrightarrow> r_IsShanghai (chainRules c)"
  shows "fst (LookupInstructionSet c (chainRules c)) = fst (NewEVMInterpreter c []) \<and>
    (snd (LookupInstructionSet c (chainRules c)) = None \<longleftrightarrow>
       \<not> r_IsCancun (chainRules c) \<and> \<not> r_IsPrague (chainRules c))"
  using assms by (simp add: LookupInstructionSet_def NewEVMInterpreter_def fork_table_def Let_def)

end
