(* ===== verification/Spec2Isabelle.thy ===== *)
theory Spec2Isabelle
  imports RLP_Raw Transaction_Props VM_Tables
begin

text \<open>
  A verification development for the emulator node: the serialisation layer, the state
  database with its journal, the virtual machine and the state transition.
\<close>

end
